(* ===== verification/Prelude.thy ===== *)
theory Prelude
  imports Main "HOL-Library.AList" "HOL-Library.Sublist" "HOL-Library.List_Lexorder"
    "HOL-Library.Char_ord"
begin

section \<open>The JavaScript values and containers the program is written with\<close>

text \<open>
  What the components share: the containers of the language the program uses (an
  insertion-ordered \<open>Map\<close>, a \<open>Set\<close>, stable \<open>Array.prototype.sort\<close>, \<open>slice\<close>), nullable
  values, and the contract of a state machine whose operations keep an invariant.

  Conventions of the model. Timestamps and durations are integral numbers of milliseconds,
  modelled as \<open>int\<close>; every reading of \<open>Date.now()\<close> and every \<open>randomUUID()\<close> is an argument
  of the operation that makes it. A field that is \<open>null\<close> or absent is \<open>None\<close>. Strings are
  only compared, concatenated and searched for prefixes and separators, so they are lists
  of characters.
\<close>

type_synonym time = int
type_synonym ident = string

subsection \<open>Hint collections\<close>

named_theorems step_defs \<open>the operations of a component\<close>
named_theorems inv_defs \<open>the invariants of a component\<close>

subsection \<open>Nullable values\<close>

text \<open>\<open>x ?? d\<close>, and the truthiness of a nullable string (the empty string is falsy).\<close>

definition or_else :: "'a option \<Rightarrow> 'a \<Rightarrow> 'a" where
  "or_else x d = (case x of None \<Rightarrow> d | Some v \<Rightarrow> v)"

lemma or_else_simps [simp]: "or_else None d = d" "or_else (Some v) d = v"
  by (simp_all add: or_else_def)

definition truthy :: "string option \<Rightarrow> bool" where
  "truthy x = (case x of None \<Rightarrow> False | Some s \<Rightarrow> s \<noteq> [])"

lemma truthy_simps [simp]: "truthy None = False" "truthy (Some s) = (s \<noteq> [])"
  by (simp_all add: truthy_def)

lemma truthyE: "truthy x \<Longrightarrow> (\<And>s. x = Some s \<Longrightarrow> s \<noteq> [] \<Longrightarrow> P) \<Longrightarrow> P"
  by (cases x) auto

subsection \<open>Numbers in strings\<close>

text \<open>The decimal numeral a template string writes for a natural number.\<close>

fun show_nat :: "nat \<Rightarrow> string" where
  "show_nat n =
     (if n < 10 then [char_of (n + 48)] else show_nat (n div 10) @ [char_of (n mod 10 + 48)])"

declare show_nat.simps [simp del]

fun read_nat :: "nat \<Rightarrow> string \<Rightarrow> nat" where
  "read_nat acc [] = acc"
| "read_nat acc (c # cs) = read_nat (10 * acc + (of_char c - 48)) cs"

lemma read_nat_append: "read_nat acc (xs @ ys) = read_nat (read_nat acc xs) ys"
  by (induction xs arbitrary: acc) auto

lemma of_char_digit [simp]: "d < 10 \<Longrightarrow> (of_char (char_of (d + 48 :: nat)) :: nat) = d + 48"
  by simp

lemma read_show_nat: "read_nat 0 (show_nat n) = n"
proof (induction n rule: show_nat.induct)
  case (1 n)
  show ?case
  proof (cases "n < 10")
    case True
    then show ?thesis by (simp add: show_nat.simps [of n])
  next
    case False
    with 1 have "read_nat 0 (show_nat (n div 10)) = n div 10" by simp
    with False show ?thesis
      by (simp add: show_nat.simps [of n] read_nat_append)
  qed
qed

lemma show_nat_inject [simp]: "show_nat m = show_nat n \<longleftrightarrow> m = n"
  by (metis read_show_nat)

lemma show_nat_digits: "c \<in> set (show_nat n) \<Longrightarrow> of_char c \<in> {48 ..< 58 :: nat}"
proof (induction n rule: show_nat.induct)
  case (1 n)
  then show ?case by (cases "n < 10") (auto simp: show_nat.simps [of n])
qed

lemma colon_not_in_show_nat [simp]: "CHR '':'' \<notin> set (show_nat n)"
  using show_nat_digits [of "CHR '':''" n] by auto

subsection \<open>Insertion-ordered maps\<close>

text \<open>
  A JavaScript \<open>Map\<close> keeps its keys in the order of first insertion; \<open>set\<close> on a present
  key keeps its place. That is the association list of \<open>HOL-Library.AList\<close>: \<open>AList.update\<close>
  rewrites in place or appends, \<open>AList.delete\<close> removes the key.
\<close>

type_synonym ('k, 'v) jmap = "('k \<times> 'v) list"

abbreviation jget :: "('k, 'v) jmap \<Rightarrow> 'k \<Rightarrow> 'v option" where
  "jget m k \<equiv> map_of m k"

abbreviation jset :: "('k, 'v) jmap \<Rightarrow> 'k \<Rightarrow> 'v \<Rightarrow> ('k, 'v) jmap" where
  "jset m k v \<equiv> AList.update k v m"

abbreviation jdel :: "('k, 'v) jmap \<Rightarrow> 'k \<Rightarrow> ('k, 'v) jmap" where
  "jdel m k \<equiv> AList.delete k m"

abbreviation jkeys :: "('k, 'v) jmap \<Rightarrow> 'k list" where
  "jkeys m \<equiv> map fst m"

abbreviation jvals :: "('k, 'v) jmap \<Rightarrow> 'v list" where
  "jvals m \<equiv> map snd m"

definition jwf :: "('k, 'v) jmap \<Rightarrow> bool" where
  "jwf m \<longleftrightarrow> distinct (jkeys m)"

lemma jwf_Nil [simp, intro]: "jwf []"
  by (simp add: jwf_def)

lemma jwf_jset [simp, intro]: "jwf m \<Longrightarrow> jwf (jset m k v)"
  by (simp add: jwf_def distinct_update)

lemma jwf_jdel [simp, intro]: "jwf m \<Longrightarrow> jwf (jdel m k)"
  unfolding jwf_def by (rule distinct_delete)

lemma jget_jset [simp]: "jget (jset m k v) k' = (if k' = k then Some v else jget m k')"
  by (simp add: update_conv')

lemma jget_jdel [simp]: "jget (jdel m k) k' = (if k' = k then None else jget m k')"
  by (simp add: delete_conv')

lemma jget_in: "jget m k = Some v \<Longrightarrow> (k, v) \<in> set m"
  by (rule map_of_SomeD)

lemma jwf_in_iff: "jwf m \<Longrightarrow> (k, v) \<in> set m \<longleftrightarrow> jget m k = Some v"
  by (simp add: jwf_def)

lemma jvals_iff: "jwf m \<Longrightarrow> v \<in> set (jvals m) \<longleftrightarrow> (\<exists>k. jget m k = Some v)"
  by (force simp: jwf_in_iff [symmetric])

lemma set_jset_subset: "set (jset m k v) \<subseteq> insert (k, v) (set m)"
  by (induction m) auto

lemma set_jdel: "set (jdel m k) = {p \<in> set m. fst p \<noteq> k}"
  by (auto simp: AList.delete_eq)

lemma jset_absent: "k \<notin> set (jkeys m) \<Longrightarrow> jset m k v = m @ [(k, v)]"
  by (induction m) auto

lemma jkeys_jset: "jkeys (jset m k v) = (if k \<in> set (jkeys m) then jkeys m else jkeys m @ [k])"
  by (induction m) auto

lemma jkeys_jdel: "jkeys (jdel m k) = filter (\<lambda>k'. k' \<noteq> k) (jkeys m)"
  by (induction m) auto

lemma jget_None_keys: "jget m k = None \<longleftrightarrow> k \<notin> set (jkeys m)"
  by (simp add: map_of_eq_None_iff)

subsection \<open>Sets that remember insertion order\<close>

definition sadd :: "'a list \<Rightarrow> 'a \<Rightarrow> 'a list" where
  "sadd xs x = (if x \<in> set xs then xs else xs @ [x])"

text \<open>\<open>[...new Set(xs)]\<close>: the first occurrence of every element.\<close>

definition uniq :: "'a list \<Rightarrow> 'a list" where
  "uniq xs = foldl sadd [] xs"

lemma set_sadd [simp]: "set (sadd xs x) = insert x (set xs)"
  by (auto simp: sadd_def)

lemma distinct_sadd [simp]: "distinct (sadd xs x) = distinct xs"
  by (auto simp: sadd_def)

lemma set_foldl_sadd: "set (foldl sadd acc xs) = set acc \<union> set xs"
  by (induction xs arbitrary: acc) auto

lemma distinct_foldl_sadd: "distinct acc \<Longrightarrow> distinct (foldl sadd acc xs)"
  by (induction xs arbitrary: acc) auto

lemma set_uniq [simp]: "set (uniq xs) = set xs"
  by (simp add: uniq_def set_foldl_sadd)

lemma distinct_uniq [simp]: "distinct (uniq xs)"
  by (simp add: uniq_def distinct_foldl_sadd)

lemma foldl_sadd_distinct:
  "distinct xs \<Longrightarrow> set acc \<inter> set xs = {} \<Longrightarrow> foldl sadd acc xs = acc @ xs"
  by (induction xs arbitrary: acc) (auto simp: sadd_def)

lemma uniq_distinct: "distinct xs \<Longrightarrow> uniq xs = xs"
  by (simp add: uniq_def foldl_sadd_distinct)

subsection \<open>Sorting\<close>

text \<open>
  \<open>Array.prototype.sort\<close> is stable, and so is \<open>sort_key\<close>. A comparator
  \<open>(a, b) => f(a) - f(b)\<close> is \<open>sort_key f\<close>; \<open>(a, b) => f(b) - f(a)\<close> negates the key.
\<close>

lemma sort_key_hd_least:
  fixes f :: "'a \<Rightarrow> 'b :: linorder"
  assumes "sort_key f xs = x # ys" and "y \<in> set xs"
  shows "f x \<le> f y"
proof -
  have "sorted (map f (x # ys))"
    using sorted_sort_key [of f xs] assms(1) by simp
  moreover have "y \<in> set (x # ys)"
    using assms by (metis set_sort)
  ultimately show ?thesis by auto
qed

lemma sort_key_hd_in: "sort_key f xs = x # ys \<Longrightarrow> x \<in> set xs"
  by (metis list.set_intros(1) set_sort)

lemma sort_key_Nil_iff [simp]: "sort_key f xs = [] \<longleftrightarrow> xs = []"
  by (metis length_0_conv length_sort)

text \<open>\<open>xs[0]\<close>, which is \<open>undefined\<close> on an empty array.\<close>

definition first :: "'a list \<Rightarrow> 'a option" where
  "first xs = (case xs of [] \<Rightarrow> None | x # _ \<Rightarrow> Some x)"

lemma first_simps [simp]: "first [] = None" "first (x # xs) = Some x"
  by (simp_all add: first_def)

lemma first_Some: "first xs = Some x \<Longrightarrow> x \<in> set xs"
  by (cases xs) auto

lemma first_None [simp]: "first xs = None \<longleftrightarrow> xs = []"
  by (cases xs) auto

lemma first_sort_key:
  "first (sort_key f xs) = Some x \<Longrightarrow> x \<in> set xs \<and> (\<forall>y \<in> set xs. f x \<le> f y)"
  by (cases "sort_key f xs") (auto dest: sort_key_hd_in sort_key_hd_least)

text \<open>\<open>xs.slice(-n)\<close> for a positive \<open>n\<close>.\<close>

definition last_n :: "nat \<Rightarrow> 'a list \<Rightarrow> 'a list" where
  "last_n n xs = drop (length xs - n) xs"

lemma length_last_n [simp]: "length (last_n n xs) = min n (length xs)"
  by (auto simp: last_n_def)

lemma set_last_n: "set (last_n n xs) \<subseteq> set xs"
  by (simp add: last_n_def set_drop_subset)

lemma sorted_map_last_n: "sorted (map f xs) \<Longrightarrow> sorted (map f (last_n n xs))"
  by (simp add: last_n_def drop_map [symmetric] sorted_wrt_drop)

text \<open>\<open>xs.slice(0, n)\<close> with a limit that may be negative: counted back from the end.\<close>

definition slice0 :: "int \<Rightarrow> 'a list \<Rightarrow> 'a list" where
  "slice0 n xs = take (nat (if n < 0 then int (length xs) + n else n)) xs"

lemma set_slice0: "set (slice0 n xs) \<subseteq> set xs"
  by (simp add: slice0_def set_take_subset)

subsection \<open>Operations that keep an invariant\<close>

text \<open>
  The contract of a store: a step per operation, the inputs an operation may be given
  (\<open>ok\<close>: fresh identifiers, positive durations), and an invariant every step keeps. A
  client that only calls operations never sees a state outside the invariant.
\<close>

fun ok_run :: "('s \<Rightarrow> 'op \<Rightarrow> 's) \<Rightarrow> ('s \<Rightarrow> 'op \<Rightarrow> bool) \<Rightarrow> 's \<Rightarrow> 'op list \<Rightarrow> bool" where
  "ok_run step ok s [] = True"
| "ok_run step ok s (x # xs) = (ok s x \<and> ok_run step ok (step s x) xs)"

locale op_invariant =
  fixes step :: "'s \<Rightarrow> 'op \<Rightarrow> 's"
    and ok :: "'s \<Rightarrow> 'op \<Rightarrow> bool"
    and inv :: "'s \<Rightarrow> bool"
  assumes step_keeps: "inv s \<Longrightarrow> ok s x \<Longrightarrow> inv (step s x)"
begin

lemma run_keeps: "inv s \<Longrightarrow> ok_run step ok s xs \<Longrightarrow> inv (foldl step s xs)"
  by (induction xs arbitrary: s) (auto intro: step_keeps)

lemma run_prefix_keeps:
  assumes "inv s" and "ok_run step ok s (xs @ ys)"
  shows "inv (foldl step s xs)"
proof -
  from assms(2) have "ok_run step ok s xs"
    by (induction xs arbitrary: s) auto
  with assms(1) show ?thesis by (rule run_keeps)
qed

end

end
