(* ===== verification/RunStore.thy ===== *)
theory RunStore
  imports Prelude
begin

section \<open>The run store\<close>

text \<open>
  The queue of turns a session runs (\<open>src/src/runs/run-store.ts\<close>) as its in-memory
  implementation keeps it (\<open>src/src/runs/memory-run-store.ts\<close>): enqueueing with
  deduplication, leases taken by workers, completion, failure with a retry budget, the
  reaper of expired leases, steering a queued run into a running one, and the waiters a
  terminal run wakes up.

  Run objects are mutated in place by the code; here the map entry is replaced. An
  operation that reads the clock several times takes each reading as an argument. Where the
  code awaits a callback (\<open>signals.send\<close>, \<open>onRetired\<close>), other operations may interleave: the
  callback is a function from the store before the await to the store after it.
\<close>

datatype run_status = Pending | Running | Done | Failed

datatype turn_status =
  TurnOk | TurnRefused | TurnFailed | TurnPendingApproval | TurnQueued | TurnSilent | TurnReact

datatype refusal_kind = SecurityQuarantine | SessionBusy

text \<open>The fields of the request the store reads; the others are one opaque payload.\<close>

record run_request =
  rq_text :: string
  rq_displayText :: "string option"
  rq_private :: bool
  rq_editRef :: "string option"
  rq_payload :: string

record turn_result =
  tr_status :: turn_status
  tr_sessionId :: "string option"
  tr_reason :: "string option"
  tr_refusalKind :: "refusal_kind option"
  tr_reply :: "string option"

record delivery_state =
  ds_editRef :: "string option"

record run =
  run_id :: ident
  sessionId :: string
  status :: run_status
  request :: run_request
  result :: "turn_result option"
  deliveryState :: "delivery_state option"
  turnUserSeq :: "nat option"
  dedupKey :: "string option"
  attempts :: nat
  errorAttempts :: nat
  maxAttempts :: nat
  leaseToken :: "string option"
  leaseExpiresAt :: "time option"
  workerId :: "string option"
  createdAt :: time
  startedAt :: "time option"
  finishedAt :: "time option"

datatype reap_outcome = Requeued | Parked

record reap_event =
  re_runId :: ident
  re_sessionId :: string
  re_workerId :: "string option"
  re_attempts :: nat
  re_errorAttempts :: nat
  re_outcome :: reap_outcome

subsection \<open>The predicates of the interface\<close>

definition isTerminal :: "run_status \<Rightarrow> bool" where
  "isTerminal s \<longleftrightarrow> s = Done \<or> s = Failed"

definition releasesDedupKey :: "turn_result \<Rightarrow> bool" where
  "releasesDedupKey r \<longleftrightarrow> tr_refusalKind r = Some SessionBusy"

text \<open>\<open>maxClaims\<close> is absent (no limit) or a number.\<close>

definition claims_reached :: "nat \<Rightarrow> nat option \<Rightarrow> bool" where
  "claims_reached n limit = (case limit of None \<Rightarrow> False | Some m \<Rightarrow> n \<ge> m)"

definition errorParks :: "run \<Rightarrow> nat option \<Rightarrow> bool" where
  "errorParks r maxClaims \<longleftrightarrow>
     errorAttempts r + 1 \<ge> maxAttempts r \<or> claims_reached (attempts r) maxClaims"

definition leaseLapsed :: "run \<Rightarrow> time \<Rightarrow> bool" where
  "leaseLapsed r asOf \<longleftrightarrow>
     status r = Running \<and> (case leaseExpiresAt r of None \<Rightarrow> False | Some e \<Rightarrow> e \<le> asOf)"

subsection \<open>The store\<close>

text \<open>
  \<open>rs_settled\<close> is the sequence of runs handed to the terminal listeners; \<open>rs_waiters\<close> are
  the pending \<open>waitFor\<close> promises, \<open>rs_resolved\<close> and \<open>rs_rejected\<close> how they ended.
\<close>

record run_store =
  rs_runs :: "(ident, run) jmap"
  rs_retryAfter :: "(ident, time) jmap"
  rs_byKey :: "(string, ident) jmap"
  rs_returned :: "ident list"
  rs_maxClaims :: "nat option"
  rs_settled :: "run list"
  rs_waiters :: "(nat \<times> ident) list"
  rs_resolved :: "(nat \<times> run) list"
  rs_rejected :: "nat list"

definition createMemoryRunStore :: "nat option \<Rightarrow> run_store" where
  "createMemoryRunStore maxClaims =
     \<lparr>rs_runs = [], rs_retryAfter = [], rs_byKey = [], rs_returned = [],
      rs_maxClaims = maxClaims, rs_settled = [], rs_waiters = [], rs_resolved = [],
      rs_rejected = []\<rparr>"

definition get_run :: "run_store \<Rightarrow> ident \<Rightarrow> run option" where
  "get_run st i = jget (rs_runs st) i"

definition put_run :: "run_store \<Rightarrow> run \<Rightarrow> run_store" where
  "put_run st r = st\<lparr>rs_runs := jset (rs_runs st) (run_id r) r\<rparr>"

definition sessionUnavailable :: "run_store \<Rightarrow> string \<Rightarrow> time \<Rightarrow> bool" where
  "sessionUnavailable st sid now \<longleftrightarrow>
     (\<exists>r \<in> set (jvals (rs_runs st)).
        sessionId r = sid \<and>
        (status r = Running \<or>
         (status r = Pending \<and> or_else (jget (rs_retryAfter st) (run_id r)) 0 > now)))"

definition pendingRuns :: "run_store \<Rightarrow> time \<Rightarrow> run list" where
  "pendingRuns st now =
     sort_key createdAt
       (filter (\<lambda>r. status r = Pending \<and> \<not> sessionUnavailable st (sessionId r) now)
          (jvals (rs_runs st)))"

text \<open>A terminal run wakes its waiters, in the order they came, then the listeners.\<close>

definition settle :: "run_store \<Rightarrow> run \<Rightarrow> run_store" where
  "settle st r =
     (if \<not> isTerminal (status r) then st
      else st\<lparr>rs_resolved := rs_resolved st @
                 map (\<lambda>(w, _). (w, r)) (filter (\<lambda>(_, i). i = run_id r) (rs_waiters st)),
               rs_waiters := filter (\<lambda>(_, i). i \<noteq> run_id r) (rs_waiters st),
               rs_settled := rs_settled st @ [r]\<rparr>)"

subsection \<open>Enqueueing\<close>

record enqueue_input =
  eq_sessionId :: string
  eq_request :: run_request
  eq_dedupKey :: "string option"
  eq_maxAttempts :: "nat option"

definition new_run :: "ident \<Rightarrow> enqueue_input \<Rightarrow> time \<Rightarrow> run" where
  "new_run uuid inp now =
     \<lparr>run_id = uuid, sessionId = eq_sessionId inp, status = Pending, request = eq_request inp,
      result = None, deliveryState = None, turnUserSeq = None, dedupKey = eq_dedupKey inp,
      attempts = 0, errorAttempts = 0, maxAttempts = or_else (eq_maxAttempts inp) 3,
      leaseToken = None, leaseExpiresAt = None, workerId = None, createdAt = now,
      startedAt = None, finishedAt = None\<rparr>"

definition existing_for_key :: "run_store \<Rightarrow> string option \<Rightarrow> run option" where
  "existing_for_key st key =
     (case key of
        None \<Rightarrow> None
      | Some k \<Rightarrow>
          if k = [] then None
          else (case jget (rs_byKey st) k of
                  None \<Rightarrow> None
                | Some i \<Rightarrow> if i = [] then None else get_run st i))"

definition enqueue ::
  "run_store \<Rightarrow> ident \<Rightarrow> enqueue_input \<Rightarrow> time \<Rightarrow> run_store \<times> run \<times> bool" where
  "enqueue st uuid inp now =
     (case existing_for_key st (eq_dedupKey inp) of
        Some existing \<Rightarrow> (st, existing, True)
      | None \<Rightarrow>
          let r = new_run uuid inp now;
              st1 = put_run st r;
              st2 = (if truthy (eq_dedupKey inp)
                     then st1\<lparr>rs_byKey := jset (rs_byKey st1) (the (eq_dedupKey inp)) uuid\<rparr>
                     else st1)
          in (st2, r, False))"

subsection \<open>Leases\<close>

definition lease ::
  "run_store \<Rightarrow> run \<Rightarrow> string \<Rightarrow> time \<Rightarrow> string \<Rightarrow> time \<Rightarrow> time \<Rightarrow> run_store \<times> run option" where
  "lease st r worker ttlMs token t_expiry t_start =
     (let r' = r\<lparr>status := Running, leaseToken := Some token,
                 leaseExpiresAt := Some (t_expiry + ttlMs), workerId := Some worker,
                 attempts := attempts r + 1,
                 startedAt := Some (or_else (startedAt r) t_start)\<rparr>
      in (put_run (st\<lparr>rs_retryAfter := jdel (rs_retryAfter st) (run_id r)\<rparr>) r', Some r'))"

definition claim ::
  "run_store \<Rightarrow> string \<Rightarrow> time \<Rightarrow> string \<Rightarrow> time \<Rightarrow> time \<Rightarrow> time \<Rightarrow> run_store \<times> run option" where
  "claim st worker ttlMs token now t_expiry t_start =
     (case first (pendingRuns st now) of
        None \<Rightarrow> (st, None)
      | Some r \<Rightarrow> lease st r worker ttlMs token t_expiry t_start)"

definition claimById ::
  "run_store \<Rightarrow> ident \<Rightarrow> string \<Rightarrow> time \<Rightarrow> string \<Rightarrow> time \<Rightarrow> time \<Rightarrow> time
     \<Rightarrow> run_store \<times> run option" where
  "claimById st rid worker ttlMs token now t_expiry t_start =
     (case get_run st rid of
        None \<Rightarrow> (st, None)
      | Some r \<Rightarrow>
          if map_option run_id
               (find (\<lambda>p. sessionId p = sessionId r) (pendingRuns st now)) \<noteq> Some rid
          then (st, None)
          else lease st r worker ttlMs token t_expiry t_start)"

definition claimForSession ::
  "run_store \<Rightarrow> string \<Rightarrow> string \<Rightarrow> time \<Rightarrow> string \<Rightarrow> time \<Rightarrow> time \<Rightarrow> time
     \<Rightarrow> run_store \<times> run option" where
  "claimForSession st sid worker ttlMs token now t_expiry t_start =
     (case find (\<lambda>p. sessionId p = sid) (pendingRuns st now) of
        None \<Rightarrow> (st, None)
      | Some r \<Rightarrow> lease st r worker ttlMs token t_expiry t_start)"

definition heartbeat :: "run_store \<Rightarrow> ident \<Rightarrow> string \<Rightarrow> time \<Rightarrow> time \<Rightarrow> run_store \<times> bool" where
  "heartbeat st rid token ttlMs now =
     (case get_run st rid of
        None \<Rightarrow> (st, False)
      | Some r \<Rightarrow>
          if status r \<noteq> Running \<or> leaseToken r \<noteq> Some token then (st, False)
          else (put_run st (r\<lparr>leaseExpiresAt := Some (now + ttlMs)\<rparr>), True))"

definition releaseLease :: "run_store \<Rightarrow> ident \<Rightarrow> string \<Rightarrow> run_store \<times> bool" where
  "releaseLease st rid token =
     (case get_run st rid of
        None \<Rightarrow> (st, False)
      | Some r \<Rightarrow>
          if status r \<noteq> Running \<or> leaseToken r \<noteq> Some token then (st, False)
          else (put_run st (r\<lparr>status := Pending, leaseToken := None, leaseExpiresAt := None,
                              workerId := None\<rparr>), True))"

subsection \<open>Completion and failure\<close>

definition complete ::
  "run_store \<Rightarrow> ident \<Rightarrow> string \<Rightarrow> turn_result \<Rightarrow> time \<Rightarrow> run_store \<times> bool" where
  "complete st rid token res now =
     (case get_run st rid of
        None \<Rightarrow> (st, False)
      | Some r \<Rightarrow>
          if leaseToken r \<noteq> Some token then (st, False)
          else
            let r1 = r\<lparr>status := Done, result := Some res, leaseToken := None,
                       leaseExpiresAt := None, finishedAt := Some now\<rparr>;
                release = releasesDedupKey res \<and> truthy (dedupKey r);
                r2 = (if release then r1\<lparr>dedupKey := None\<rparr> else r1);
                st1 = (if release then st\<lparr>rs_byKey := jdel (rs_byKey st) (the (dedupKey r))\<rparr>
                       else st)
            in (settle (put_run st1 r2) r2, True))"

record retire_opts =
  ro_ifExpiredAt :: "time option"
  ro_countsAsError :: bool
  ro_retryAfterMs :: "time option"

definition crash_loop_reason :: "nat \<Rightarrow> string" where
  "crash_loop_reason n =
     ''run parked after '' @ show_nat n @
     '' claims without completing (suspected crash loop)''"

definition failed_result :: "run \<Rightarrow> string \<Rightarrow> turn_result" where
  "failed_result r reason =
     \<lparr>tr_status = TurnFailed, tr_sessionId = Some (sessionId r), tr_reason = Some reason,
      tr_refusalKind = None, tr_reply = None\<rparr>"

text \<open>\<open>retire\<close> returns \<open>(requeued, applied)\<close>.\<close>

definition retire ::
  "run_store \<Rightarrow> run \<Rightarrow> string \<Rightarrow> bool \<Rightarrow> retire_opts \<Rightarrow> time \<Rightarrow> run_store \<times> bool \<times> bool" where
  "retire st r error retry opts now =
     (if status r \<noteq> Running then (st, False, False)
      else if (case ro_ifExpiredAt opts of
                 None \<Rightarrow> False
               | Some t \<Rightarrow> (case leaseExpiresAt r of None \<Rightarrow> True | Some e \<Rightarrow> e > t))
      then (st, False, False)
      else
        let r1 = r\<lparr>leaseToken := None, leaseExpiresAt := None, workerId := None,
                   errorAttempts := (if ro_countsAsError opts then errorAttempts r + 1
                                     else errorAttempts r)\<rparr>;
            overClaimed = claims_reached (attempts r1) (rs_maxClaims st)
        in if retry \<and> errorAttempts r1 < maxAttempts r1 \<and> \<not> overClaimed
           then (put_run (st\<lparr>rs_retryAfter :=
                     jset (rs_retryAfter st) (run_id r)
                       (now + max 0 (or_else (ro_retryAfterMs opts) 0))\<rparr>)
                   (r1\<lparr>status := Pending\<rparr>), True, True)
           else
             let reason = (if \<not> ro_countsAsError opts \<and> overClaimed \<and> retry \<and>
                              errorAttempts r1 < maxAttempts r1
                           then crash_loop_reason (attempts r1) else error);
                 r2 = r1\<lparr>status := Failed, result := Some (failed_result r1 reason),
                         finishedAt := Some now\<rparr>
             in (settle (put_run st r2) r2, False, True))"

definition fail_opts :: "time option \<Rightarrow> retire_opts" where
  "fail_opts retryAfterMs =
     \<lparr>ro_ifExpiredAt = None, ro_countsAsError = True, ro_retryAfterMs = retryAfterMs\<rparr>"

text \<open>\<open>fail\<close>: the option \<open>retry\<close> defaults to true.\<close>

definition fail_run ::
  "run_store \<Rightarrow> ident \<Rightarrow> string \<Rightarrow> string \<Rightarrow> bool option \<Rightarrow> time option \<Rightarrow> time
     \<Rightarrow> run_store \<times> bool" where
  "fail_run st rid token error retry retryAfterMs now =
     (case get_run st rid of
        None \<Rightarrow> (st, False)
      | Some r \<Rightarrow>
          if leaseToken r \<noteq> Some token then (st, False)
          else
            let (st', requeued, applied) =
                  retire st r error (retry \<noteq> Some False) (fail_opts retryAfterMs) now
            in (st', requeued))"

subsection \<open>Edits of a run\<close>

definition noteTurnUserSeq :: "run_store \<Rightarrow> ident \<Rightarrow> nat \<Rightarrow> run_store \<times> bool" where
  "noteTurnUserSeq st rid sq =
     (case get_run st rid of
        None \<Rightarrow> (st, False)
      | Some r \<Rightarrow>
          if turnUserSeq r \<noteq> None then (st, False)
          else (put_run st (r\<lparr>turnUserSeq := Some sq\<rparr>), True))"

definition setDeliveryState ::
  "run_store \<Rightarrow> ident \<Rightarrow> string option \<Rightarrow> delivery_state \<Rightarrow> run_store \<times> bool" where
  "setDeliveryState st rid token ds =
     (case get_run st rid of
        None \<Rightarrow> (st, False)
      | Some r \<Rightarrow>
          if token \<noteq> None \<and> leaseToken r \<noteq> token then (st, False)
          else (put_run st (r\<lparr>deliveryState := Some ds\<rparr>), True))"

definition shown_text :: "run_request \<Rightarrow> string" where
  "shown_text q = or_else (rq_displayText q) (rq_text q)"

definition editPendingText ::
  "run_store \<Rightarrow> ident \<Rightarrow> string \<Rightarrow> string \<Rightarrow> run_store \<times> bool" where
  "editPendingText st rid text expected =
     (case get_run st rid of
        None \<Rightarrow> (st, False)
      | Some r \<Rightarrow>
          if status r \<noteq> Pending \<or> attempts r \<noteq> 0 \<or> turnUserSeq r \<noteq> None then (st, False)
          else if shown_text (request r) \<noteq> expected then (st, False)
          else (put_run st (r\<lparr>request := (request r)\<lparr>rq_text := text,
                                                 rq_displayText := Some text\<rparr>\<rparr>), True))"

definition drop_key :: "run_store \<Rightarrow> string option \<Rightarrow> run_store" where
  "drop_key st key =
     (if truthy key then st\<lparr>rs_byKey := jdel (rs_byKey st) (the key)\<rparr> else st)"

definition withdraw :: "run_store \<Rightarrow> ident \<Rightarrow> run_store \<times> bool" where
  "withdraw st rid =
     (case get_run st rid of
        None \<Rightarrow> (st, False)
      | Some r \<Rightarrow>
          if status r \<noteq> Pending then (st, False)
          else (drop_key (st\<lparr>rs_runs := jdel (rs_runs st) rid,
                             rs_retryAfter := jdel (rs_retryAfter st) rid\<rparr>) (dedupKey r), True))"

text \<open>
  \<open>steerQueued\<close> removes the queued run, awaits \<open>signals.send\<close> and puts the run back when
  the send throws. The result is \<open>None\<close> when the error is rethrown. \<open>send\<close> maps the store
  before the await to the store after it and says whether the send succeeded.
\<close>

definition steer_guard :: "run_store \<Rightarrow> ident \<Rightarrow> ident \<Rightarrow> string option \<Rightarrow> bool" where
  "steer_guard st qid tid signal_text =
     (case (get_run st qid, get_run st tid) of
        (Some queued, Some target) \<Rightarrow>
          status queued = Pending \<and> \<not> isTerminal (status target) \<and> qid \<noteq> tid \<and>
          signal_text = Some (shown_text (request queued))
      | _ \<Rightarrow> False)"

definition steer_finish :: "run_store \<Rightarrow> run \<Rightarrow> ident \<Rightarrow> run_store" where
  "steer_finish st queued tid =
     (let st1 = (case get_run st tid of
                   Some target \<Rightarrow>
                     (if truthy (rq_editRef (request queued))
                      then put_run st (target\<lparr>deliveryState :=
                              Some \<lparr>ds_editRef = rq_editRef (request queued)\<rparr>\<rparr>)
                      else st)
                 | None \<Rightarrow> st)
      in drop_key (st1\<lparr>rs_retryAfter := jdel (rs_retryAfter st1) (run_id queued)\<rparr>)
           (dedupKey queued))"

definition steerQueued ::
  "run_store \<Rightarrow> ident \<Rightarrow> ident \<Rightarrow> string option \<Rightarrow> (run_store \<Rightarrow> run_store \<times> bool)
     \<Rightarrow> run_store \<times> bool option" where
  "steerQueued st qid tid signal_text send =
     (if \<not> steer_guard st qid tid signal_text then (st, Some False)
      else
        let queued = the (get_run st qid);
            (st1, sent) = send (st\<lparr>rs_runs := jdel (rs_runs st) qid\<rparr>)
        in if sent then (steer_finish st1 queued tid, Some True)
           else (put_run st1 queued, None))"

subsection \<open>Queries\<close>

definition subagent_prefix :: string where
  "subagent_prefix = ''agent:main:subagent:''"

text \<open>\<open>collate\<close> is the collation key \<open>localeCompare\<close> compares identifiers by.\<close>

definition pendingReturns ::
  "(string \<Rightarrow> string) \<Rightarrow> run_store \<Rightarrow> int option \<Rightarrow> ident option \<Rightarrow> run list" where
  "pendingReturns collate st limit afterId =
     slice0 (or_else limit 100)
       (sort_key (\<lambda>r. collate (run_id r))
         (filter (\<lambda>r. isTerminal (status r) \<and> run_id r \<notin> set (rs_returned st) \<and>
                      run_id r > or_else afterId [] \<and> prefix subagent_prefix (sessionId r))
            (jvals (rs_runs st))))"

definition markReturned :: "run_store \<Rightarrow> ident \<Rightarrow> run_store" where
  "markReturned st rid = st\<lparr>rs_returned := sadd (rs_returned st) rid\<rparr>"

definition latestForThread :: "run_store \<Rightarrow> string \<Rightarrow> bool \<Rightarrow> run option" where
  "latestForThread st threadRef excludePrivate =
     first (sort_key (\<lambda>r. - createdAt r)
       (filter (\<lambda>r. sessionId r = threadRef \<and> \<not> (excludePrivate \<and> rq_private (request r)))
          (rev (jvals (rs_runs st)))))"

definition getByDedupKey :: "run_store \<Rightarrow> string \<Rightarrow> run option" where
  "getByDedupKey st k =
     (case jget (rs_byKey st) k of
        None \<Rightarrow> None | Some i \<Rightarrow> if i = [] then None else get_run st i)"

definition in_flight :: "run_store \<Rightarrow> string \<Rightarrow> run list" where
  "in_flight st sid =
     filter (\<lambda>r. sessionId r = sid \<and> \<not> isTerminal (status r)) (jvals (rs_runs st))"

text \<open>A running run first, then the oldest: a lexicographic comparison of the pair of keys.\<close>

definition activeForThread :: "run_store \<Rightarrow> string \<Rightarrow> run option" where
  "activeForThread st sid =
     (case first (sort_key createdAt (filter (\<lambda>r. status r = Running) (in_flight st sid))) of
        Some r \<Rightarrow> Some r
      | None \<Rightarrow> first (sort_key createdAt (in_flight st sid)))"

definition inFlightForThread :: "run_store \<Rightarrow> string \<Rightarrow> run list" where
  "inFlightForThread st sid = sort_key createdAt (in_flight st sid)"

definition activeSessionIds :: "run_store \<Rightarrow> string list" where
  "activeSessionIds st =
     uniq (map sessionId (filter (\<lambda>r. \<not> isTerminal (status r)) (jvals (rs_runs st))))"

definition list_runs :: "run_store \<Rightarrow> int option \<Rightarrow> string option \<Rightarrow> run list" where
  "list_runs st limit threadRef =
     slice0 (or_else limit 200)
       (sort_key (\<lambda>r. - createdAt r)
         (filter (\<lambda>r. \<not> truthy threadRef \<or>
                      sessionId r = the threadRef \<or>
                      prefix (the threadRef @ '':task:'') (sessionId r) \<or>
                      prefix (the threadRef @ '':status:'') (sessionId r))
            (jvals (rs_runs st))))"

subsection \<open>The reaper\<close>

definition FENCE_HOLD_MS :: time where
  "FENCE_HOLD_MS = 600000"

record reap_acc =
  ra_requeued :: nat
  ra_parked :: nat
  ra_events :: "reap_event list"

definition too_old :: "time option \<Rightarrow> time \<Rightarrow> run \<Rightarrow> bool" where
  "too_old maxAgeMs now r =
     (case (maxAgeMs, startedAt r) of (Some m, Some s) \<Rightarrow> now - s > m | _ \<Rightarrow> False)"

definition reap_reason :: "bool \<Rightarrow> string" where
  "reap_reason tooOld =
     (if tooOld then ''run exceeded max age (reaped)'' else ''lease expired (reaped)'')"

definition reap_opts :: retire_opts where
  "reap_opts = \<lparr>ro_ifExpiredAt = None, ro_countsAsError = False, ro_retryAfterMs = None\<rparr>"

text \<open>
  One iteration: fence the run behind a fresh token, await \<open>onRetired\<close> (\<open>None\<close>: it throws),
  then retire whatever the run has become. The accumulator is \<open>None\<close> once a callback threw.
\<close>

definition reap_one ::
  "time \<Rightarrow> time option \<Rightarrow> (ident \<Rightarrow> string) \<Rightarrow> (ident \<Rightarrow> time)
     \<Rightarrow> (string \<Rightarrow> run_store \<Rightarrow> run_store \<times> bool) \<Rightarrow> ident \<Rightarrow> run_store \<times> reap_acc
     \<Rightarrow> run_store \<times> reap_acc option" where
  "reap_one now maxAgeMs token clock onRetired rid = (\<lambda>(st, acc).
     (case get_run st rid of
        None \<Rightarrow> (st, Some acc)
      | Some r \<Rightarrow>
          if \<not> leaseLapsed r now then (st, Some acc)
          else
            let tooOld = too_old maxAgeMs now r;
                fenced = r\<lparr>leaseToken := Some (token rid),
                           leaseExpiresAt := Some (now + FENCE_HOLD_MS)\<rparr>;
                (st1, returned) = onRetired (sessionId r) (put_run st fenced)
            in if \<not> returned then (st1, None)
               else (case get_run st1 rid of
                  None \<Rightarrow> (st1, Some acc)
                | Some r1 \<Rightarrow>
                    let (st2, requeued, applied) =
                          retire st1 r1 (reap_reason tooOld) (\<not> tooOld) reap_opts (clock rid)
                    in if \<not> applied then (st2, Some acc)
                       else
                         let r2 = the (get_run st2 rid);
                             ev = \<lparr>re_runId = rid, re_sessionId = sessionId r2,
                                   re_workerId = workerId r, re_attempts = attempts r2,
                                   re_errorAttempts = errorAttempts r2,
                                   re_outcome = (if requeued then Requeued else Parked)\<rparr>
                         in (st2, Some (acc\<lparr>ra_requeued := ra_requeued acc + (if requeued then 1 else 0),
                                            ra_parked := ra_parked acc + (if requeued then 0 else 1),
                                            ra_events := ra_events acc @ [ev]\<rparr>)))))"

fun reap_loop ::
  "time \<Rightarrow> time option \<Rightarrow> (ident \<Rightarrow> string) \<Rightarrow> (ident \<Rightarrow> time)
     \<Rightarrow> (string \<Rightarrow> run_store \<Rightarrow> run_store \<times> bool) \<Rightarrow> ident list \<Rightarrow> run_store \<Rightarrow> reap_acc
     \<Rightarrow> run_store \<times> reap_acc option" where
  "reap_loop now maxAgeMs token clock onRetired [] st acc = (st, Some acc)"
| "reap_loop now maxAgeMs token clock onRetired (rid # rids) st acc =
     (case reap_one now maxAgeMs token clock onRetired rid (st, acc) of
        (st', None) \<Rightarrow> (st', None)
      | (st', Some acc') \<Rightarrow> reap_loop now maxAgeMs token clock onRetired rids st' acc')"

definition reapExpired ::
  "time \<Rightarrow> time option \<Rightarrow> (ident \<Rightarrow> string) \<Rightarrow> (ident \<Rightarrow> time)
     \<Rightarrow> (string \<Rightarrow> run_store \<Rightarrow> run_store \<times> bool) \<Rightarrow> run_store \<Rightarrow> run_store \<times> reap_acc option" where
  "reapExpired now maxAgeMs token clock onRetired st =
     reap_loop now maxAgeMs token clock onRetired
       (map run_id (filter (\<lambda>r. leaseLapsed r now) (jvals (rs_runs st)))) st
       \<lparr>ra_requeued = 0, ra_parked = 0, ra_events = []\<rparr>"

subsection \<open>Waiting for a run\<close>

definition waitFor :: "run_store \<Rightarrow> nat \<Rightarrow> ident \<Rightarrow> run_store" where
  "waitFor st w rid =
     (case get_run st rid of
        Some r \<Rightarrow>
          if isTerminal (status r) then st\<lparr>rs_resolved := rs_resolved st @ [(w, r)]\<rparr>
          else st\<lparr>rs_waiters := rs_waiters st @ [(w, rid)]\<rparr>
      | None \<Rightarrow> st\<lparr>rs_waiters := rs_waiters st @ [(w, rid)]\<rparr>)"

definition waitTimeout :: "run_store \<Rightarrow> nat \<Rightarrow> run_store" where
  "waitTimeout st w =
     (if w \<in> fst ` set (rs_waiters st)
      then st\<lparr>rs_waiters := filter (\<lambda>(v, _). v \<noteq> w) (rs_waiters st),
              rs_rejected := rs_rejected st @ [w]\<rparr>
      else st)"

subsection \<open>The ledger of tool calls\<close>

definition ledger_key :: "ident \<Rightarrow> nat \<Rightarrow> nat \<Rightarrow> string" where
  "ledger_key rid attempt callIndex = rid @ '':'' @ show_nat attempt @ '':'' @ show_nat callIndex"

definition ledger_begin ::
  "(string, string) jmap \<Rightarrow> ident \<Rightarrow> nat \<Rightarrow> nat \<Rightarrow> string option" where
  "ledger_begin l rid attempt callIndex = jget l (ledger_key rid attempt callIndex)"

definition ledger_record ::
  "(string, string) jmap \<Rightarrow> ident \<Rightarrow> nat \<Rightarrow> nat \<Rightarrow> string \<Rightarrow> (string, string) jmap" where
  "ledger_record l rid attempt callIndex out = jset l (ledger_key rid attempt callIndex) out"

end
