(* ===== verification/RunStoreInv.thy ===== *)
theory RunStoreInv
  imports RunStore
begin

section \<open>The invariant of the run store\<close>

text \<open>
  A run holds a lease exactly while it is running; it has a result and a finish time exactly
  when it is terminal; a session has at most one running run; and the terminal listeners
  have been called exactly once for every terminal run.
\<close>

definition run_wf :: "run \<Rightarrow> bool" where
  "run_wf r \<longleftrightarrow>
     (status r = Running \<longleftrightarrow> leaseToken r \<noteq> None) \<and>
     (leaseToken r \<noteq> None \<longleftrightarrow> leaseExpiresAt r \<noteq> None) \<and>
     (status r = Running \<longrightarrow> workerId r \<noteq> None) \<and>
     (status r = Pending \<longrightarrow> workerId r = None) \<and>
     (isTerminal (status r) \<longleftrightarrow> result r \<noteq> None) \<and>
     (isTerminal (status r) \<longleftrightarrow> finishedAt r \<noteq> None) \<and>
     errorAttempts r \<le> attempts r \<and>
     (status r = Running \<longrightarrow> errorAttempts r < attempts r) \<and>
     (startedAt r = None \<longleftrightarrow> attempts r = 0)"

definition exclusive :: "run_store \<Rightarrow> bool" where
  "exclusive st \<longleftrightarrow>
     (\<forall>i j r s. get_run st i = Some r \<longrightarrow> get_run st j = Some s \<longrightarrow>
        status r = Running \<longrightarrow> status s = Running \<longrightarrow> sessionId r = sessionId s \<longrightarrow> i = j)"

definition settled_once :: "run_store \<Rightarrow> bool" where
  "settled_once st \<longleftrightarrow>
     distinct (map run_id (rs_settled st)) \<and>
     (\<forall>i. i \<in> run_id ` set (rs_settled st) \<longleftrightarrow>
          (\<exists>r. get_run st i = Some r \<and> isTerminal (status r)))"

definition run_inv :: "run_store \<Rightarrow> bool" where
  "run_inv st \<longleftrightarrow>
     jwf (rs_runs st) \<and>
     (\<forall>i r. get_run st i = Some r \<longrightarrow> run_id r = i \<and> run_wf r) \<and>
     exclusive st \<and> settled_once st"

lemmas run_inv_defs = run_inv_def exclusive_def settled_once_def

subsection \<open>Lookup after each kind of update\<close>

lemma get_put [simp]:
  "get_run (put_run st r) i = (if i = run_id r then Some r else get_run st i)"
  by (simp add: get_run_def put_run_def)

lemma get_run_frame [simp]:
  "get_run (st\<lparr>rs_retryAfter := a\<rparr>) i = get_run st i"
  "get_run (st\<lparr>rs_byKey := b\<rparr>) i = get_run st i"
  "get_run (st\<lparr>rs_returned := c\<rparr>) i = get_run st i"
  "get_run (st\<lparr>rs_settled := d\<rparr>) i = get_run st i"
  "get_run (st\<lparr>rs_waiters := e\<rparr>) i = get_run st i"
  "get_run (st\<lparr>rs_resolved := f\<rparr>) i = get_run st i"
  "get_run (st\<lparr>rs_rejected := g\<rparr>) i = get_run st i"
  by (simp_all add: get_run_def)

lemma get_run_del [simp]:
  "get_run (st\<lparr>rs_runs := jdel (rs_runs st) k\<rparr>) i = (if i = k then None else get_run st i)"
  by (simp add: get_run_def)

lemma put_run_fields [simp]:
  "rs_retryAfter (put_run st r) = rs_retryAfter st"
  "rs_byKey (put_run st r) = rs_byKey st"
  "rs_returned (put_run st r) = rs_returned st"
  "rs_maxClaims (put_run st r) = rs_maxClaims st"
  "rs_settled (put_run st r) = rs_settled st"
  "rs_waiters (put_run st r) = rs_waiters st"
  by (simp_all add: put_run_def)

lemma get_run_settle [simp]: "get_run (settle st r) i = get_run st i"
  by (simp add: settle_def)

lemma settle_fields [simp]:
  "rs_runs (settle st r) = rs_runs st"
  "rs_byKey (settle st r) = rs_byKey st"
  "rs_retryAfter (settle st r) = rs_retryAfter st"
  "rs_maxClaims (settle st r) = rs_maxClaims st"
  by (simp_all add: settle_def)

lemma get_run_drop_key [simp]: "get_run (drop_key st k) i = get_run st i"
  by (simp add: drop_key_def)

lemma jvals_get_run:
  "jwf (rs_runs st) \<Longrightarrow> r \<in> set (jvals (rs_runs st)) \<longleftrightarrow> (\<exists>i. get_run st i = Some r)"
  by (simp only: get_run_def jvals_iff)

subsection \<open>The invariant only reads the runs and the settled ones\<close>

lemma run_inv_frame [simp]:
  "run_inv (st\<lparr>rs_retryAfter := a\<rparr>) = run_inv st"
  "run_inv (st\<lparr>rs_byKey := b\<rparr>) = run_inv st"
  "run_inv (st\<lparr>rs_returned := c\<rparr>) = run_inv st"
  "run_inv (st\<lparr>rs_waiters := e\<rparr>) = run_inv st"
  "run_inv (st\<lparr>rs_resolved := f\<rparr>) = run_inv st"
  "run_inv (st\<lparr>rs_rejected := g\<rparr>) = run_inv st"
  by (simp_all add: run_inv_defs)

lemma run_inv_drop_key [simp]: "run_inv (drop_key st k) = run_inv st"
  by (simp add: drop_key_def)

lemma run_invD:
  assumes "run_inv st" and "get_run st i = Some r"
  shows "run_id r = i" and "run_wf r"
  using assms by (auto simp: run_inv_def)

lemma run_inv_jwf [intro]: "run_inv st \<Longrightarrow> jwf (rs_runs st)"
  by (simp add: run_inv_def)

lemma run_inv_running:
  "run_inv st \<Longrightarrow> get_run st i = Some r \<Longrightarrow> leaseToken r = Some t \<Longrightarrow> status r = Running"
  by (auto simp: run_wf_def dest: run_invD(2))

text \<open>Replacing a run by one of the same session that is no closer to running or terminal.\<close>

lemma jwf_put_run [intro]: "jwf (rs_runs st) \<Longrightarrow> jwf (rs_runs (put_run st r))"
  by (auto simp: put_run_def)

lemma exclusive_put:
  assumes "exclusive st"
    and "\<And>j s. status r = Running \<Longrightarrow> get_run st j = Some s \<Longrightarrow> j \<noteq> run_id r \<Longrightarrow>
           sessionId s = sessionId r \<Longrightarrow> status s \<noteq> Running"
  shows "exclusive (put_run st r)"
  unfolding exclusive_def
proof (intro allI impI)
  fix i j a b
  assume a: "get_run (put_run st r) i = Some a" "status a = Running"
    and b: "get_run (put_run st r) j = Some b" "status b = Running"
    and s: "sessionId a = sessionId b"
  show "i = j"
  proof (cases "i = run_id r \<or> j = run_id r")
    case True
    with a b s assms(2) show ?thesis by (auto split: if_splits)
  next
    case False
    with a b s have "get_run st i = Some a" "get_run st j = Some b" by auto
    with a b s assms(1) show ?thesis unfolding exclusive_def by blast
  qed
qed

lemma settled_put:
  assumes "settled_once st"
    and "isTerminal (status r) \<longleftrightarrow> (\<exists>r0. get_run st (run_id r) = Some r0 \<and> isTerminal (status r0))"
  shows "settled_once (put_run st r)"
proof -
  have "(\<exists>a. get_run (put_run st r) i = Some a \<and> isTerminal (status a)) \<longleftrightarrow>
        (\<exists>a. get_run st i = Some a \<and> isTerminal (status a))" for i
    using assms(2) by (cases "i = run_id r") auto
  with assms(1) show ?thesis by (simp add: settled_once_def)
qed

lemma put_run_inv:
  assumes inv: "run_inv st" and old: "get_run st i = Some r"
    and new: "run_id r' = i" "run_wf r'" "sessionId r' = sessionId r"
    and same_term: "isTerminal (status r') = isTerminal (status r)"
    and running: "status r' = Running \<Longrightarrow> status r = Running \<or>
      (\<forall>j s. get_run st j = Some s \<longrightarrow> sessionId s = sessionId r \<longrightarrow> status s \<noteq> Running)"
  shows "run_inv (put_run st r')"
proof -
  have "status s \<noteq> Running"
    if "status r' = Running" "get_run st j = Some s" "j \<noteq> i" "sessionId s = sessionId r" for j s
  proof (cases "status r = Running")
    case True
    with inv old that show ?thesis unfolding run_inv_def exclusive_def by blast
  next
    case False
    with running that show ?thesis by blast
  qed
  then have "exclusive (put_run st r')"
    using inv new by (intro exclusive_put) (auto simp: run_inv_def)
  moreover have "settled_once (put_run st r')"
    using inv new old same_term by (intro settled_put) (auto simp: run_inv_def)
  moreover have "jwf (rs_runs (put_run st r'))"
    using inv by (auto simp: put_run_def)
  ultimately show ?thesis
    using inv new by (simp add: run_inv_def)
qed

text \<open>An in-place edit: the conditions are only needed of the run as it is.\<close>

lemma edit_run_inv:
  assumes "run_inv st" and "get_run st i = Some r"
    and "run_id r = i \<Longrightarrow> run_wf r \<Longrightarrow> run_id r' = i \<and> run_wf r' \<and> sessionId r' = sessionId r \<and>
           isTerminal (status r') = isTerminal (status r) \<and>
           (status r' = Running \<longrightarrow> status r = Running)"
  shows "run_inv (put_run st r')"
  using assms(3) [OF run_invD [OF assms(1,2)]] by (intro put_run_inv [OF assms(1,2)]) auto

text \<open>A new run, and a removed one that is not terminal.\<close>

lemma add_run_inv:
  assumes inv: "run_inv st" and absent: "get_run st (run_id r) = None"
    and new: "run_wf r" "status r = Pending"
  shows "run_inv (put_run st r)"
proof -
  have "exclusive (put_run st r)" "settled_once (put_run st r)" "jwf (rs_runs (put_run st r))"
    using inv absent new
    by (auto intro!: exclusive_put settled_put jwf_put_run simp: run_inv_def isTerminal_def)
  then show ?thesis
    using inv new by (simp add: run_inv_def)
qed

lemma del_run_inv:
  assumes inv: "run_inv st" and old: "get_run st i = Some r" "\<not> isTerminal (status r)"
  shows "run_inv (st\<lparr>rs_runs := jdel (rs_runs st) i\<rparr>)"
proof -
  have "exclusive (st\<lparr>rs_runs := jdel (rs_runs st) i\<rparr>)"
    using inv by (simp add: run_inv_def exclusive_def)
  moreover have "settled_once (st\<lparr>rs_runs := jdel (rs_runs st) i\<rparr>)"
    using inv old unfolding run_inv_def settled_once_def by auto
  ultimately show ?thesis
    using inv by (auto simp: run_inv_def split: if_splits)
qed

text \<open>A running run that becomes terminal and is settled.\<close>

lemma settle_run_inv:
  assumes inv: "run_inv st" and old: "get_run st i = Some r" "\<not> isTerminal (status r)"
    and new: "run_id r' = i" "run_wf r'" "isTerminal (status r')"
  shows "run_inv (settle (put_run st r') r')"
proof -
  let ?st = "settle (put_run st r') r'"
  have jwf: "jwf (rs_runs ?st)"
    using inv by (auto simp: put_run_def)
  have "status r' \<noteq> Running"
    using new(3) by (auto simp: isTerminal_def)
  moreover have "exclusive st"
    using inv by (simp add: run_inv_def)
  ultimately have "exclusive (put_run st r')"
    by (intro exclusive_put) blast+
  then have "exclusive ?st" by (simp only: exclusive_def get_run_settle)
  moreover have "settled_once ?st"
    unfolding settled_once_def
  proof (intro conjI allI)
    have "i \<notin> run_id ` set (rs_settled st)"
      using inv old by (simp add: run_inv_def settled_once_def)
    then show "distinct (map run_id (rs_settled ?st))"
      using inv new by (simp add: run_inv_def settled_once_def settle_def)
    show "j \<in> run_id ` set (rs_settled ?st) \<longleftrightarrow>
        (\<exists>a. get_run ?st j = Some a \<and> isTerminal (status a))" for j
      using inv new by (cases "j = i") (simp_all add: run_inv_def settled_once_def settle_def)
  qed
  ultimately show ?thesis
    using inv new jwf by (simp add: run_inv_def)
qed

subsection \<open>Every operation keeps the invariant\<close>

lemma init_inv: "run_inv (createMemoryRunStore m)"
  by (simp add: run_inv_defs createMemoryRunStore_def get_run_def)

lemma enqueue_inv:
  assumes "run_inv st" and "get_run st uuid = None"
  shows "run_inv (fst (enqueue st uuid inp now))"
proof -
  have "run_inv (put_run st (new_run uuid inp now))"
    using assms by (intro add_run_inv)
      (simp_all add: new_run_def run_wf_def isTerminal_def)
  then show ?thesis
    using assms(1) by (simp add: enqueue_def Let_def split: option.split)
qed

lemma pendingRuns_mem:
  assumes "run_inv st" and "r \<in> set (pendingRuns st now)"
  shows "get_run st (run_id r) = Some r \<and> status r = Pending \<and>
         (\<forall>j s. get_run st j = Some s \<longrightarrow> sessionId s = sessionId r \<longrightarrow> status s \<noteq> Running)"
proof -
  note vals = jvals_get_run [OF run_inv_jwf [OF assms(1)]]
  from assms(2) have r: "r \<in> set (jvals (rs_runs st))" "status r = Pending"
    and free: "\<not> sessionUnavailable st (sessionId r) now"
    by (auto simp: pendingRuns_def)
  from r(1) have "get_run st (run_id r) = Some r"
    unfolding vals using assms(1) by (auto dest: run_invD(1))
  moreover have "\<forall>s \<in> set (jvals (rs_runs st)). sessionId s = sessionId r \<longrightarrow> status s \<noteq> Running"
    using free by (auto simp: sessionUnavailable_def)
  ultimately show ?thesis using r(2) vals by blast
qed

lemma lease_inv:
  assumes "run_inv st" and "r \<in> set (pendingRuns st now)"
  shows "run_inv (fst (lease st r worker ttl tok t1 t2))"
proof -
  note mem = pendingRuns_mem [OF assms]
  then have wf: "run_wf r" using assms(1) by (auto dest: run_invD(2))
  let ?r = "r\<lparr>status := Running, leaseToken := Some tok, leaseExpiresAt := Some (t1 + ttl),
              workerId := Some worker, attempts := attempts r + 1,
              startedAt := Some (or_else (startedAt r) t2)\<rparr>"
  have "run_inv (put_run (st\<lparr>rs_retryAfter := jdel (rs_retryAfter st) (run_id r)\<rparr>) ?r)"
    using assms(1) mem wf
    by (intro put_run_inv [where i = "run_id r" and r = r])
       (auto simp: run_wf_def isTerminal_def)
  then show ?thesis by (simp add: lease_def Let_def)
qed

lemma claim_inv: "run_inv st \<Longrightarrow> run_inv (fst (claim st w ttl tok now t1 t2))"
  by (auto simp: claim_def split: option.split intro: lease_inv dest: first_Some)

lemma find_mem: "find P xs = Some x \<Longrightarrow> x \<in> set xs \<and> P x"
  by (induction xs) (auto split: if_splits)

lemma claimById_pending:
  assumes "run_inv st" and "get_run st rid = Some r"
    and "map_option run_id (find (\<lambda>p. sessionId p = sessionId r) (pendingRuns st now)) = Some rid"
  shows "r \<in> set (pendingRuns st now)"
proof -
  from assms(3) obtain p where "p \<in> set (pendingRuns st now)" "run_id p = rid"
    by (auto dest: find_mem)
  with assms(1,2) show ?thesis by (auto dest: pendingRuns_mem)
qed

lemma claimById_inv: "run_inv st \<Longrightarrow> run_inv (fst (claimById st rid w ttl tok now t1 t2))"
  by (auto simp: claimById_def split: option.split intro: lease_inv claimById_pending)

lemma claimForSession_inv:
  "run_inv st \<Longrightarrow> run_inv (fst (claimForSession st sid w ttl tok now t1 t2))"
  by (auto simp: claimForSession_def split: option.split intro: lease_inv dest: find_mem)

lemma heartbeat_inv:
  assumes "run_inv st"
  shows "run_inv (fst (heartbeat st rid tok ttl now))"
proof (cases "get_run st rid")
  case (Some r)
  have "run_inv (put_run st (r\<lparr>leaseExpiresAt := Some (now + ttl)\<rparr>))" if "status r = Running"
    by (rule edit_run_inv [OF assms Some]) (use that in \<open>auto simp: run_wf_def isTerminal_def\<close>)
  with assms Some show ?thesis by (auto simp: heartbeat_def)
qed (use assms in \<open>simp add: heartbeat_def\<close>)


lemma releaseLease_inv:
  assumes "run_inv st"
  shows "run_inv (fst (releaseLease st rid tok))"
proof (cases "get_run st rid")
  case (Some r)
  have "run_inv (put_run st (r\<lparr>status := Pending, leaseToken := None, leaseExpiresAt := None, workerId := None\<rparr>))" if "status r = Running"
    by (rule edit_run_inv [OF assms Some]) (use that in \<open>auto simp: run_wf_def isTerminal_def\<close>)
  with assms Some show ?thesis by (auto simp: releaseLease_def)
qed (use assms in \<open>simp add: releaseLease_def\<close>)


lemma complete_inv:
  assumes inv: "run_inv st"
  shows "run_inv (fst (complete st rid tok res now))"
proof (cases "get_run st rid")
  case None
  with inv show ?thesis by (simp add: complete_def)
next
  case (Some r)
  note wf = run_invD [OF inv Some]
  show ?thesis
  proof (cases "leaseToken r = Some tok")
    case False
    with inv Some show ?thesis by (simp add: complete_def)
  next
    case True
    then have running: "status r = Running"
      using run_inv_running [OF inv Some] by simp
    define r1 where "r1 = r\<lparr>status := Done, result := Some res, leaseToken := None,
      leaseExpiresAt := None, finishedAt := Some now\<rparr>"
    have keep: "run_inv (settle (put_run (st\<lparr>rs_byKey := b\<rparr>) r2) r2)"
      if "r2 = r1 \<or> r2 = r1\<lparr>dedupKey := None\<rparr>" for b r2
      by (rule settle_run_inv [where i = rid and r = r])
        (use inv Some wf running that in \<open>auto simp: r1_def run_wf_def isTerminal_def\<close>)
    show ?thesis
      using Some True keep [of r1 "rs_byKey st"] keep [of "r1\<lparr>dedupKey := None\<rparr>"]
      by (simp add: complete_def Let_def r1_def)
  qed
qed

text \<open>What \<open>retire\<close> does to the store: nothing, requeue the run, or settle it as failed.\<close>

definition retired :: "run \<Rightarrow> run \<Rightarrow> bool" where
  "retired r r' \<longleftrightarrow>
     run_id r' = run_id r \<and> sessionId r' = sessionId r \<and> leaseToken r' = None \<and>
     leaseExpiresAt r' = None \<and> workerId r' = None \<and> attempts r' = attempts r \<and>
     startedAt r' = startedAt r \<and> errorAttempts r' \<le> errorAttempts r + 1 \<and>
     (status r' = Pending \<and> result r' = result r \<and> finishedAt r' = finishedAt r \<or>
      status r' = Failed \<and> result r' \<noteq> None \<and> finishedAt r' \<noteq> None)"

lemma retire_shape:
  "fst (retire st r err retry opts now) = st \<or>
   status r = Running \<and>
   (\<exists>r'. retired r r' \<and>
      (status r' = Pending \<and>
         (\<exists>m. fst (retire st r err retry opts now) = put_run (st\<lparr>rs_retryAfter := m\<rparr>) r') \<or>
       status r' = Failed \<and>
         fst (retire st r err retry opts now) = settle (put_run st r') r'))"
proof (cases "fst (retire st r err retry opts now) = st")
  case False
  define r1 where "r1 = r\<lparr>leaseToken := None, leaseExpiresAt := None, workerId := None,
    errorAttempts := (if ro_countsAsError opts then errorAttempts r + 1 else errorAttempts r)\<rparr>"
  have run: "status r = Running"
    by (rule ccontr) (use False in \<open>simp add: retire_def\<close>)
  have p: "retired r (r1\<lparr>status := Pending\<rparr>)"
    and f: "retired r (r1\<lparr>status := Failed, result := Some x, finishedAt := Some now\<rparr>)" for x
    by (simp_all add: retired_def r1_def)
  have "fst (retire st r err retry opts now) \<in>
      {st} \<union> range (\<lambda>m. put_run (st\<lparr>rs_retryAfter := m\<rparr>) (r1\<lparr>status := Pending\<rparr>)) \<union>
      range (\<lambda>x. settle
        (put_run st (r1\<lparr>status := Failed, result := Some x, finishedAt := Some now\<rparr>))
        (r1\<lparr>status := Failed, result := Some x, finishedAt := Some now\<rparr>))"
    unfolding retire_def Let_def r1_def [symmetric] by simp
  with False p f run show ?thesis by fastforce
qed simp

lemma retire_inv:
  assumes inv: "run_inv st" and old: "get_run st i = Some r"
  shows "run_inv (fst (retire st r err retry opts now))"
proof -
  note wf = run_invD [OF inv old]
  have a: "run_inv (put_run (st\<lparr>rs_retryAfter := m\<rparr>) r')"
    if "retired r r'" "status r' = Pending" "status r = Running" for r' m
    by (rule edit_run_inv [where i = i and r = r])
      (use inv old that in \<open>auto simp: retired_def run_wf_def isTerminal_def\<close>)
  have b: "run_inv (settle (put_run st r') r')"
    if "retired r r'" "status r' = Failed" "status r = Running" for r'
    by (rule settle_run_inv [where i = i and r = r])
      (use inv old wf that in \<open>auto simp: retired_def run_wf_def isTerminal_def\<close>)
  from retire_shape [of st r err retry opts now] inv a b show ?thesis by metis
qed


lemma fail_inv:
  assumes "run_inv st"
  shows "run_inv (fst (fail_run st rid tok err rt ra now))"
proof (cases "get_run st rid")
  case (Some r)
  obtain st' a b where "retire st r err (rt \<noteq> Some False) (fail_opts ra) now = (st', a, b)"
    by (metis prod_cases3)
  with assms retire_inv [OF assms Some, of err "rt \<noteq> Some False" "fail_opts ra" now] Some
  show ?thesis by (simp add: fail_run_def)
qed (use assms in \<open>simp add: fail_run_def\<close>)


lemma noteTurnUserSeq_inv:
  assumes "run_inv st"
  shows "run_inv (fst (noteTurnUserSeq st rid sq))"
proof (cases "get_run st rid")
  case (Some r)
  have "run_inv (put_run st (r\<lparr>turnUserSeq := Some sq\<rparr>))" if "turnUserSeq r = None"
    by (rule edit_run_inv [OF assms Some]) (use that in \<open>auto simp: run_wf_def isTerminal_def\<close>)
  with assms Some show ?thesis by (auto simp: noteTurnUserSeq_def)
qed (use assms in \<open>simp add: noteTurnUserSeq_def\<close>)


lemma setDeliveryState_inv:
  assumes "run_inv st"
  shows "run_inv (fst (setDeliveryState st rid tok ds))"
proof (cases "get_run st rid")
  case (Some r)
  have "run_inv (put_run st (r\<lparr>deliveryState := Some ds\<rparr>))" if True
    by (rule edit_run_inv [OF assms Some]) (use that in \<open>auto simp: run_wf_def isTerminal_def\<close>)
  with assms Some show ?thesis by (auto simp: setDeliveryState_def)
qed (use assms in \<open>simp add: setDeliveryState_def\<close>)


lemma editPendingText_inv:
  assumes "run_inv st"
  shows "run_inv (fst (editPendingText st rid tx ex))"
proof (cases "get_run st rid")
  case (Some r)
  have "run_inv (put_run st (r\<lparr>request := (request r)\<lparr>rq_text := tx, rq_displayText := Some tx\<rparr>\<rparr>))" if "status r = Pending"
    by (rule edit_run_inv [OF assms Some]) (use that in \<open>auto simp: run_wf_def isTerminal_def\<close>)
  with assms Some show ?thesis by (auto simp: editPendingText_def)
qed (use assms in \<open>simp add: editPendingText_def\<close>)


lemma withdraw_inv: "run_inv st \<Longrightarrow> run_inv (fst (withdraw st rid))"
proof -
  assume inv: "run_inv st"
  have "run_inv (st\<lparr>rs_runs := jdel (rs_runs st) rid, rs_retryAfter := m\<rparr>)"
    if "get_run st rid = Some r" "status r = Pending" for r m
    using del_run_inv [OF inv that(1)] that(2) by (simp add: isTerminal_def)
  with inv show ?thesis
    by (auto simp: withdraw_def split: option.split)
qed

lemma markReturned_inv: "run_inv st \<Longrightarrow> run_inv (markReturned st rid)"
  by (simp add: markReturned_def)

lemma waitFor_inv: "run_inv st \<Longrightarrow> run_inv (waitFor st w rid)"
  by (simp add: waitFor_def split: option.split)

lemma waitTimeout_inv: "run_inv st \<Longrightarrow> run_inv (waitTimeout st w)"
  by (simp add: waitTimeout_def)

lemma steer_finish_inv: "run_inv st \<Longrightarrow> run_inv (steer_finish st q tid)"
proof -
  assume inv: "run_inv st"
  have "run_inv (put_run st (t\<lparr>deliveryState := d\<rparr>))" if "get_run st tid = Some t" for t d
    using inv that run_invD [OF inv that]
    by (intro put_run_inv [where i = tid and r = t]) (auto simp: run_wf_def)
  with inv show ?thesis
    by (auto simp: steer_finish_def Let_def split: option.split)
qed

text \<open>
  What may happen while \<open>steerQueued\<close> awaits the send: any operations that keep the
  invariant and do not recreate the removed run.
\<close>

definition send_ok :: "run_store \<Rightarrow> ident \<Rightarrow> (run_store \<Rightarrow> run_store \<times> bool) \<Rightarrow> bool" where
  "send_ok st qid send \<longleftrightarrow>
     (let st1 = st\<lparr>rs_runs := jdel (rs_runs st) qid\<rparr>
      in run_inv st1 \<longrightarrow> run_inv (fst (send st1)) \<and> get_run (fst (send st1)) qid = None)"

lemma steerQueued_inv:
  assumes inv: "run_inv st" and ok: "send_ok st qid send"
  shows "run_inv (fst (steerQueued st qid tid tx send))"
proof (cases "steer_guard st qid tid tx")
  case False
  with inv show ?thesis by (simp add: steerQueued_def)
next
  case True
  then obtain queued where q: "get_run st qid = Some queued" "status queued = Pending"
    by (auto simp: steer_guard_def split: option.splits)
  note wf = run_invD [OF inv q(1)]
  let ?st1 = "st\<lparr>rs_runs := jdel (rs_runs st) qid\<rparr>"
  have "run_inv ?st1"
    using inv q by (intro del_run_inv) (auto simp: isTerminal_def)
  with ok have s: "run_inv (fst (send ?st1))" "get_run (fst (send ?st1)) qid = None"
    unfolding send_ok_def Let_def by blast+
  then have "run_inv (put_run (fst (send ?st1)) queued)"
    using wf q(2) by (intro add_run_inv) auto
  with s True q(1) show ?thesis
    by (auto simp: steerQueued_def Let_def split: prod.split intro: steer_finish_inv)
qed

text \<open>What may happen while the reaper awaits \<open>onRetired\<close>.\<close>

definition retired_ok :: "(string \<Rightarrow> run_store \<Rightarrow> run_store \<times> bool) \<Rightarrow> bool" where
  "retired_ok onRetired \<longleftrightarrow> (\<forall>sid st. run_inv st \<longrightarrow> run_inv (fst (onRetired sid st)))"

lemma reap_one_inv:
  assumes inv: "run_inv st" and ok: "retired_ok cb"
  shows "run_inv (fst (reap_one now age tok clk cb rid (st, acc)))"
proof (cases "get_run st rid")
  case None
  with inv show ?thesis by (simp add: reap_one_def)
next
  case (Some r)
  note wf = run_invD [OF inv Some]
  let ?f = "r\<lparr>leaseToken := Some (tok rid), leaseExpiresAt := Some (now + FENCE_HOLD_MS)\<rparr>"
  show ?thesis
  proof (cases "leaseLapsed r now")
    case False
    with inv Some show ?thesis by (simp add: reap_one_def)
  next
    case True
    have "run_inv (put_run st ?f)"
      using inv Some wf True
      by (intro put_run_inv [where i = rid and r = r]) (auto simp: run_wf_def leaseLapsed_def)
    with ok have "run_inv (fst (cb (sessionId r) (put_run st ?f)))"
      by (simp add: retired_ok_def)
    moreover obtain st1 ok where c: "cb (sessionId r) (put_run st ?f) = (st1, ok)"
      by (cases "cb (sessionId r) (put_run st ?f)")
    ultimately have inv1: "run_inv st1" by simp
    have "run_inv st2" if "get_run st1 rid = Some r1" "retire st1 r1 e b opts t = (st2, x, y)"
      for r1 e b opts t st2 x y
      using retire_inv [OF inv1 that(1), of e b opts t] that(2) by simp
    with inv1 Some True c show ?thesis
      by (simp add: reap_one_def Let_def split: prod.split option.split)
  qed
qed

lemma reap_loop_inv:
  "run_inv st \<Longrightarrow> retired_ok cb \<Longrightarrow> run_inv (fst (reap_loop now age tok clk cb rids st acc))"
proof (induction rids arbitrary: st acc)
  case Nil
  then show ?case by simp
next
  case (Cons rid rids)
  from reap_one_inv [OF Cons.prems, of now age tok clk rid acc] Cons show ?case
    by (auto split: prod.split option.split)
qed

lemma reapExpired_inv:
  "run_inv st \<Longrightarrow> retired_ok cb \<Longrightarrow> run_inv (fst (reapExpired now age tok clk cb st))"
  by (simp add: reapExpired_def reap_loop_inv)

end
