(* ===== verification/RunStoreProps.thy ===== *)
theory RunStoreProps
  imports RunStoreInv
begin

section \<open>What the run store guarantees\<close>

text \<open>
  The operations as one alphabet, so that the invariant holds along every sequence of them;
  then the functional behaviour of claiming, failing and reaping, and deduplication.
\<close>

datatype run_op =
    OpEnqueue ident enqueue_input time
  | OpClaim string time string time time time
  | OpClaimById ident string time string time time time
  | OpClaimForSession string string time string time time time
  | OpHeartbeat ident string time time
  | OpRelease ident string
  | OpComplete ident string turn_result time
  | OpFail ident string string "bool option" "time option" time
  | OpNoteSeq ident nat
  | OpDeliveryState ident "string option" delivery_state
  | OpMarkReturned ident
  | OpEditText ident string string
  | OpWithdraw ident
  | OpSteer ident ident "string option" "run_store \<Rightarrow> run_store \<times> bool"
  | OpReap time "time option" "ident \<Rightarrow> string" "ident \<Rightarrow> time"
      "string \<Rightarrow> run_store \<Rightarrow> run_store \<times> bool"
  | OpWait nat ident
  | OpWaitTimeout nat

fun run_step :: "run_store \<Rightarrow> run_op \<Rightarrow> run_store" where
  "run_step st (OpEnqueue i inp now) = fst (enqueue st i inp now)"
| "run_step st (OpClaim w ttl tok now t1 t2) = fst (claim st w ttl tok now t1 t2)"
| "run_step st (OpClaimById i w ttl tok now t1 t2) = fst (claimById st i w ttl tok now t1 t2)"
| "run_step st (OpClaimForSession sid w ttl tok now t1 t2) =
     fst (claimForSession st sid w ttl tok now t1 t2)"
| "run_step st (OpHeartbeat i tok ttl now) = fst (heartbeat st i tok ttl now)"
| "run_step st (OpRelease i tok) = fst (releaseLease st i tok)"
| "run_step st (OpComplete i tok res now) = fst (complete st i tok res now)"
| "run_step st (OpFail i tok e rt ra now) = fst (fail_run st i tok e rt ra now)"
| "run_step st (OpNoteSeq i sq) = fst (noteTurnUserSeq st i sq)"
| "run_step st (OpDeliveryState i tok ds) = fst (setDeliveryState st i tok ds)"
| "run_step st (OpMarkReturned i) = markReturned st i"
| "run_step st (OpEditText i tx ex) = fst (editPendingText st i tx ex)"
| "run_step st (OpWithdraw i) = fst (withdraw st i)"
| "run_step st (OpSteer q t tx send) = fst (steerQueued st q t tx send)"
| "run_step st (OpReap now age tok clk cb) = fst (reapExpired now age tok clk cb st)"
| "run_step st (OpWait w i) = waitFor st w i"
| "run_step st (OpWaitTimeout w) = waitTimeout st w"

text \<open>
  The inputs: \<open>randomUUID()\<close> gives an identifier no run has, and whatever interleaves at an
  await is itself a sequence of store operations.
\<close>

fun run_ok :: "run_store \<Rightarrow> run_op \<Rightarrow> bool" where
  "run_ok st (OpEnqueue i inp now) = (get_run st i = None)"
| "run_ok st (OpSteer q t tx send) = send_ok st q send"
| "run_ok st (OpReap now age tok clk cb) = retired_ok cb"
| "run_ok st _ = True"

lemmas run_op_invs =
  enqueue_inv claim_inv claimById_inv claimForSession_inv heartbeat_inv releaseLease_inv
  complete_inv fail_inv noteTurnUserSeq_inv setDeliveryState_inv markReturned_inv
  editPendingText_inv withdraw_inv steerQueued_inv reapExpired_inv waitFor_inv waitTimeout_inv

interpretation runs: op_invariant run_step run_ok run_inv
proof
  fix st x
  assume "run_inv st" "run_ok st x"
  then show "run_inv (run_step st x)"
    by (cases x) (simp_all add: run_op_invs)
qed

text \<open>
  C12. Whatever sequence of operations is applied to a fresh store, whatever interleaves at its
  awaits, the invariant holds: a session never has two running runs, a run holds a lease
  exactly while it runs, and every terminal run was handed to the listeners exactly once.
\<close>

theorem run_store_invariant:
  assumes "ok_run run_step run_ok (createMemoryRunStore m) ops"
  shows "run_inv (foldl run_step (createMemoryRunStore m) ops)"
  by (rule runs.run_keeps [OF init_inv assms])

definition sample_request :: run_request where
  "sample_request =
     \<lparr>rq_text = ''hi'', rq_displayText = None, rq_private = False, rq_editRef = None,
      rq_payload = []\<rparr>"

definition sample_input :: "string \<Rightarrow> string option \<Rightarrow> enqueue_input" where
  "sample_input sid key =
     \<lparr>eq_sessionId = sid, eq_request = sample_request, eq_dedupKey = key, eq_maxAttempts = None\<rparr>"

lemma retired_ok_id: "retired_ok (\<lambda>_ st. (st, b))"
  by (simp add: retired_ok_def)

definition sample_ops :: "run_op list" where
  "sample_ops =
     [OpEnqueue ''r1'' (sample_input ''s'' None) 0, OpEnqueue ''r2'' (sample_input ''s'' None) 1,
      OpClaim ''w'' 10 ''t1'' 2 2 2, OpClaim ''w'' 10 ''t2'' 3 3 3,
      OpReap 20 None (\<lambda>_. ''f'') (\<lambda>_. 20) (\<lambda>_ st. (st, True)), OpClaim ''w'' 10 ''t3'' 21 21 21]"

lemma sample_ops_ok: "ok_run run_step run_ok (createMemoryRunStore None) sample_ops"
  by (simp add: sample_ops_def retired_ok_id createMemoryRunStore_def enqueue_def
      existing_for_key_def sample_input_def get_run_def put_run_def new_run_def Let_def)

theorem run_store_invariant_witness:
  "run_inv (foldl run_step (createMemoryRunStore None) sample_ops)"
  by (rule run_store_invariant [OF sample_ops_ok])

subsection \<open>Claiming\<close>

definition claimable :: "run_store \<Rightarrow> time \<Rightarrow> run \<Rightarrow> bool" where
  "claimable st now r \<longleftrightarrow>
     get_run st (run_id r) = Some r \<and> status r = Pending \<and>
     (\<forall>j s. get_run st j = Some s \<longrightarrow> sessionId s = sessionId r \<longrightarrow>
        status s \<noteq> Running \<and>
        (status s = Pending \<longrightarrow> or_else (jget (rs_retryAfter st) j) 0 \<le> now))"

lemma pendingRuns_iff:
  assumes "run_inv st"
  shows "r \<in> set (pendingRuns st now) \<longleftrightarrow> claimable st now r"
proof -
  note vals = jvals_get_run [OF run_inv_jwf [OF assms]]
  note ids = run_invD(1) [OF assms]
  have mem: "r \<in> set (jvals (rs_runs st)) \<longleftrightarrow> get_run st (run_id r) = Some r"
    unfolding vals using ids by metis
  have "sessionUnavailable st sid now \<longleftrightarrow>
      (\<exists>j s. get_run st j = Some s \<and> sessionId s = sid \<and>
        (status s = Running \<or> (status s = Pending \<and> or_else (jget (rs_retryAfter st) j) 0 > now)))"
    for sid
  proof -
    have "sessionUnavailable st sid now \<longleftrightarrow>
      (\<exists>j s. get_run st j = Some s \<and> sessionId s = sid \<and>
        (status s = Running \<or>
         (status s = Pending \<and> or_else (jget (rs_retryAfter st) (run_id s)) 0 > now)))"
      unfolding sessionUnavailable_def Bex_def vals by blast
    also have "\<dots> \<longleftrightarrow> (\<exists>j s. get_run st j = Some s \<and> sessionId s = sid \<and>
        (status s = Running \<or> (status s = Pending \<and> or_else (jget (rs_retryAfter st) j) 0 > now)))"
      by (intro ex_cong1) (use ids in auto)
    finally show ?thesis .
  qed
  then have "\<not> sessionUnavailable st sid now \<longleftrightarrow>
      (\<forall>j s. get_run st j = Some s \<longrightarrow> sessionId s = sid \<longrightarrow>
        status s \<noteq> Running \<and> (status s = Pending \<longrightarrow> or_else (jget (rs_retryAfter st) j) 0 \<le> now))"
    for sid
    by (simp only: not_less [symmetric]) blast
  with mem show ?thesis
    unfolding pendingRuns_def claimable_def by (auto simp del: set_map)
qed

text \<open>
  C13. \<open>claim\<close> hands out the oldest pending run of a session that has nothing running and no
  retry waiting, marks it running under the given token, and returns nothing exactly when
  there is no such run.
\<close>

theorem claim_oldest:
  assumes inv: "run_inv st"
  shows "case claim st w ttl tok now te ts of
     (st', None) \<Rightarrow> st' = st \<and> (\<forall>r. \<not> claimable st now r)
   | (st', Some r') \<Rightarrow>
       (\<exists>r. claimable st now r \<and> (\<forall>s. claimable st now s \<longrightarrow> createdAt r \<le> createdAt s) \<and>
          r' = r\<lparr>status := Running, leaseToken := Some tok, leaseExpiresAt := Some (te + ttl),
                 workerId := Some w, attempts := attempts r + 1,
                 startedAt := Some (or_else (startedAt r) ts)\<rparr> \<and>
          get_run st' (run_id r) = Some r' \<and>
          (\<forall>j. j \<noteq> run_id r \<longrightarrow> get_run st' j = get_run st j))"
proof (cases "first (pendingRuns st now)")
  case None
  then have "\<forall>r. \<not> claimable st now r"
    using pendingRuns_iff [OF inv, of _ now] by fastforce
  with None show ?thesis by (simp add: claim_def)
next
  case (Some r)
  then have r: "r \<in> set (pendingRuns st now)"
    and old: "\<forall>s \<in> set (pendingRuns st now). createdAt r \<le> createdAt s"
    using first_sort_key [of createdAt _ r] first_Some [OF Some]
    by (auto simp: pendingRuns_def)
  with Some pendingRuns_iff [OF inv] show ?thesis
    by (auto simp: claim_def lease_def Let_def intro!: exI [of _ r])
qed

definition sample_store :: run_store where
  "sample_store =
     fst (enqueue (fst (enqueue (createMemoryRunStore None) ''r2'' (sample_input ''s'' (Some ''k'')) 5))
        ''r1'' (sample_input ''s'' None) 3)"

lemma sample_store_inv: "run_inv sample_store"
  unfolding sample_store_def
  by (intro enqueue_inv init_inv)
    (simp_all add: enqueue_def existing_for_key_def sample_input_def new_run_def
      createMemoryRunStore_def get_run_def put_run_def Let_def)

theorem claim_oldest_witness:
  "run_inv sample_store \<and>
   (case claim sample_store ''w'' 10 ''t'' 9 9 9 of
     (st', None) \<Rightarrow> st' = sample_store \<and> (\<forall>r. \<not> claimable sample_store 9 r)
   | (st', Some r') \<Rightarrow>
       (\<exists>r. claimable sample_store 9 r \<and>
          (\<forall>s. claimable sample_store 9 s \<longrightarrow> createdAt r \<le> createdAt s) \<and>
          r' = r\<lparr>status := Running, leaseToken := Some ''t'', leaseExpiresAt := Some (9 + 10),
                 workerId := Some ''w'', attempts := attempts r + 1,
                 startedAt := Some (or_else (startedAt r) 9)\<rparr> \<and>
          get_run st' (run_id r) = Some r' \<and>
          (\<forall>j. j \<noteq> run_id r \<longrightarrow> get_run st' j = get_run sample_store j)))"
  using claim_oldest [OF sample_store_inv, where w = "''w''" and ttl = 10 and tok = "''t''"
      and now = 9 and te = 9 and ts = 9] sample_store_inv by blast

subsection \<open>Failure and the retry budget\<close>







subsection \<open>Reaping\<close>








subsection \<open>Deduplication\<close>

text \<open>
  The index agrees with the runs: every entry names a run that has the key, and every run
  with a (non-empty) key is the one its key names.
\<close>

definition norm_key :: "string option \<Rightarrow> string option" where
  "norm_key x = (if truthy x then x else None)"

definition key_of :: "run_store \<Rightarrow> ident \<Rightarrow> string option" where
  "key_of st i = Option.bind (get_run st i) (\<lambda>r. norm_key (dedupKey r))"

definition key_inv :: "run_store \<Rightarrow> bool" where
  "key_inv st \<longleftrightarrow>
     get_run st [] = None \<and> (\<forall>k i. jget (rs_byKey st) k = Some i \<longleftrightarrow> key_of st i = Some k)"

lemma norm_key_simps [simp]:
  "norm_key None = None" "norm_key (Some k) = (if k = [] then None else Some k)"
  "norm_key x = Some k \<longleftrightarrow> x = Some k \<and> k \<noteq> []"
  by (auto simp: norm_key_def elim: truthyE)

lemma key_of_put [simp]:
  "key_of (put_run st r) i = (if i = run_id r then norm_key (dedupKey r) else key_of st i)"
  by (simp add: key_of_def)

lemma key_of_frame [simp]:
  "key_of (st\<lparr>rs_retryAfter := a\<rparr>) i = key_of st i"
  "key_of (st\<lparr>rs_byKey := b\<rparr>) i = key_of st i"
  "key_of (st\<lparr>rs_returned := c\<rparr>) i = key_of st i"
  "key_of (st\<lparr>rs_waiters := e\<rparr>) i = key_of st i"
  "key_of (st\<lparr>rs_resolved := f\<rparr>) i = key_of st i"
  "key_of (st\<lparr>rs_rejected := g\<rparr>) i = key_of st i"
  "key_of (settle st r) i = key_of st i"
  "key_of (drop_key st x) i = key_of st i"
  "key_of (st\<lparr>rs_runs := jdel (rs_runs st) d\<rparr>) i = (if i = d then None else key_of st i)"
  by (simp_all add: key_of_def)

lemma key_of_get: "get_run st i = Some r \<Longrightarrow> key_of st i = norm_key (dedupKey r)"
  by (simp add: key_of_def)

lemma byKey_drop_key [simp]:
  "jget (rs_byKey (drop_key st x)) k = (if norm_key x = Some k then None else jget (rs_byKey st) k)"
  by (cases x) (simp_all add: drop_key_def)

lemma key_invD: "key_inv st \<Longrightarrow> jget (rs_byKey st) k = Some i \<longleftrightarrow> key_of st i = Some k"
  by (simp add: key_inv_def)

lemma key_of_inj: "key_inv st \<Longrightarrow> key_of st i = Some k \<Longrightarrow> key_of st j = Some k \<Longrightarrow> i = j"
  by (metis key_invD option.inject)

lemma key_inv_frame [simp]:
  "key_inv (st\<lparr>rs_retryAfter := a\<rparr>) = key_inv st"
  "key_inv (st\<lparr>rs_returned := c\<rparr>) = key_inv st"
  "key_inv (st\<lparr>rs_waiters := e\<rparr>) = key_inv st"
  "key_inv (st\<lparr>rs_resolved := f\<rparr>) = key_inv st"
  "key_inv (st\<lparr>rs_rejected := g\<rparr>) = key_inv st"
  "key_inv (settle st r) = key_inv st"
  by (simp_all add: key_inv_def)

lemma key_inv_drop_frame [simp]:
  "key_inv (drop_key (st\<lparr>rs_retryAfter := m\<rparr>) k) = key_inv (drop_key st k)"
  by (simp add: key_inv_def)

lemma drop_key_put: "drop_key (put_run st r) k = put_run (drop_key st k) r"
  by (simp add: drop_key_def put_run_def)

lemma key_put:
  assumes "key_inv st" and "get_run st i = Some r" and "run_id r' = i" and "dedupKey r' = dedupKey r"
  shows "key_inv (put_run st r')"
proof -
  have "i \<noteq> []" using assms by (auto simp: key_inv_def)
  moreover have "key_of (put_run st r') j = key_of st j" for j
    using assms by (simp add: key_of_get)
  ultimately show ?thesis
    using assms by (simp add: key_inv_def del: key_of_put)
qed

text \<open>Removing a run together with its key.\<close>

lemma key_del:
  assumes inv: "key_inv st" and r: "get_run st i = Some r"
  shows "key_inv (drop_key (st\<lparr>rs_runs := jdel (rs_runs st) i\<rparr>) (dedupKey r))"
proof -
  let ?st = "drop_key (st\<lparr>rs_runs := jdel (rs_runs st) i\<rparr>) (dedupKey r)"
  have "jget (rs_byKey ?st) k = Some j \<longleftrightarrow> key_of ?st j = Some k" for k j
    using key_invD [OF inv] key_of_get [OF r] key_of_inj [OF inv, of i k j]
    by (cases "j = i") auto
  moreover have "get_run ?st [] = None" using inv by (simp add: key_inv_def)
  ultimately show ?thesis unfolding key_inv_def by blast
qed

text \<open>Clearing the key of a run, as a \<open>session_busy\<close> refusal does.\<close>

lemma key_clear:
  assumes inv: "key_inv st" and r: "get_run st i = Some r" "dedupKey r = Some k"
    and r': "run_id r' = i" "dedupKey r' = None"
  shows "key_inv (put_run (st\<lparr>rs_byKey := jdel (rs_byKey st) k\<rparr>) r')"
proof -
  let ?st = "put_run (st\<lparr>rs_byKey := jdel (rs_byKey st) k\<rparr>) r'"
  have "jget (rs_byKey ?st) k' = Some j \<longleftrightarrow> key_of ?st j = Some k'" if "k \<noteq> []" for k' j
    using key_invD [OF inv] key_of_get [OF r(1)] key_of_inj [OF inv, of i k' j] r r' that
    by (cases "j = i") auto
  moreover have "jget (rs_byKey ?st) k' = Some j \<longleftrightarrow> key_of ?st j = Some k'" if "k = []" for k' j
    using key_invD [OF inv] key_of_get [OF r(1)] r r' that
    by (cases "j = i") (auto simp: key_of_def bind_eq_Some_conv)
  moreover have "get_run ?st [] = None" using inv r(1) r' by (auto simp: key_inv_def)
  ultimately show ?thesis unfolding key_inv_def by blast
qed

lemma lease_key:
  assumes "run_inv st" "key_inv st" "r \<in> set (pendingRuns st now)"
  shows "key_inv (fst (lease st r w ttl tok t1 t2))"
  using pendingRuns_mem [OF assms(1,3)] assms(2)
  by (auto simp: lease_def Let_def intro: key_put)

lemma retire_key:
  assumes "run_inv st" "key_inv st" "get_run st i = Some r"
  shows "key_inv (fst (retire st r e rt opts t))"
  using assms run_invD(1) [OF assms(1,3)]
  by (auto simp: retire_def Let_def intro: key_put)

lemma existing_for_key_iff:
  assumes inv: "key_inv st"
  shows "existing_for_key st x = Some r \<longleftrightarrow>
    (\<exists>k i. x = Some k \<and> key_of st i = Some k \<and> get_run st i = Some r)"
proof -
  have nonempty: "key_of st i = Some k \<Longrightarrow> k \<noteq> [] \<and> i \<noteq> []" for i k
    using inv by (auto simp: key_of_def key_inv_def bind_eq_Some_conv)
  show ?thesis
  proof (cases x)
    case (Some k)
    show ?thesis
    proof (cases "jget (rs_byKey st) k")
      case None
      then have "key_of st i \<noteq> Some k" for i using key_invD [OF inv, of k i] by simp
      with Some None show ?thesis by (simp add: existing_for_key_def)
    next
      case (Some j)
      then have j: "key_of st j = Some k" using key_invD [OF inv] by simp
      then have "(\<exists>i. key_of st i = Some k \<and> get_run st i = Some r) \<longleftrightarrow> get_run st j = Some r"
        using key_of_inj [OF inv] by blast
      with Some \<open>x = Some k\<close> nonempty [OF j] show ?thesis by (simp add: existing_for_key_def)
    qed
  qed (simp add: existing_for_key_def)
qed

lemma enqueue_key:
  assumes inv: "key_inv st" and i: "get_run st i = None" "i \<noteq> []"
  shows "key_inv (fst (enqueue st i inp now))"
proof (cases "existing_for_key st (eq_dedupKey inp)")
  case (Some r)
  with inv show ?thesis by (simp add: enqueue_def)
next
  case None
  let ?x = "eq_dedupKey inp" and ?st = "fst (enqueue st i inp now)"
  have absent: "key_of st i = None" using i by (simp add: key_of_def)
  have fresh: "key_of st j \<noteq> Some k" if "?x = Some k" for j k
  proof
    assume "key_of st j = Some k"
    moreover from this obtain r where "get_run st j = Some r"
      by (auto simp: key_of_def bind_eq_Some_conv)
    ultimately show False using None existing_for_key_iff [OF inv, of ?x r] that by auto
  qed
  have "jget (rs_byKey ?st) k = Some j \<longleftrightarrow> key_of ?st j = Some k" for k j
    using None key_invD [OF inv] absent fresh
    by (cases ?x; cases "j = i") (auto simp: enqueue_def Let_def new_run_def)
  moreover have "get_run ?st [] = None"
    using None inv i by (simp add: enqueue_def Let_def new_run_def key_inv_def)
  ultimately show ?thesis unfolding key_inv_def by blast
qed

lemma complete_key:
  assumes "run_inv st" "key_inv st"
  shows "key_inv (fst (complete st i tok res now))"
proof (cases "get_run st i")
  case (Some r)
  note id = run_invD(1) [OF assms(1) Some]
  show ?thesis
  proof (cases "releasesDedupKey res \<and> truthy (dedupKey r)")
    case True
    then obtain k where "dedupKey r = Some k" "k \<noteq> []" by (auto elim: truthyE)
    with True Some assms(2) id show ?thesis
      by (auto simp: complete_def Let_def intro!: key_clear [OF assms(2) Some])
  next
    case False
    then have "\<not> (releasesDedupKey res \<and> truthy (dedupKey r))" .
    with Some assms(2) id show ?thesis
      by (auto simp: complete_def Let_def intro!: key_put [OF assms(2) Some])
  qed
qed (use assms in \<open>simp add: complete_def\<close>)

text \<open>
  The alphabet without interleavings: the awaited callbacks leave the store alone, and the
  identifiers drawn are new and not empty.
\<close>

fun run_quiet :: "run_store \<Rightarrow> run_op \<Rightarrow> bool" where
  "run_quiet st (OpEnqueue i inp now) = (get_run st i = None \<and> i \<noteq> [])"
| "run_quiet st (OpSteer q t tx send) = (\<forall>s. fst (send s) = s)"
| "run_quiet st (OpReap now age tok clk cb) = (\<forall>sid s. fst (cb sid s) = s)"
| "run_quiet st _ = True"

lemma run_quiet_ok: "run_inv st \<Longrightarrow> run_quiet st x \<Longrightarrow> run_ok st x"
  by (cases x) (auto simp: send_ok_def retired_ok_def Let_def)

lemma steer_key:
  assumes inv: "run_inv st" "key_inv st" and quiet: "\<forall>s. fst (send s) = s"
  shows "key_inv (fst (steerQueued st q t tx send))"
proof (cases "steer_guard st q t tx")
  case True
  then obtain r a where r: "get_run st q = Some r" and a: "get_run st t = Some a" and ne: "q \<noteq> t"
    by (auto simp: steer_guard_def split: option.splits)
  let ?st1 = "st\<lparr>rs_runs := jdel (rs_runs st) q\<rparr>"
  note ids = run_invD(1) [OF inv(1) r] run_invD(1) [OF inv(1) a]
  have "snd (send ?st1) \<or> \<not> snd (send ?st1)" by blast
  moreover have "send ?st1 = (?st1, snd (send ?st1))"
    using quiet by (metis prod.collapse)
  moreover have "key_inv (put_run ?st1 r)"
  proof -
    have "key_of (put_run ?st1 r) j = key_of st j" for j
      using ids r by (simp add: key_of_get)
    with inv(2) r ids show ?thesis by (auto simp: key_inv_def simp del: key_of_put)
  qed
  moreover have "key_inv (steer_finish ?st1 r t)"
  proof -
    have base: "key_inv (drop_key (st\<lparr>rs_runs := jdel (rs_runs st) q\<rparr>) (dedupKey r))"
      by (rule key_del [OF inv(2) r])
    have "key_inv (drop_key (put_run ?st1 (a\<lparr>deliveryState := d\<rparr>)) (dedupKey r))" for d
      unfolding drop_key_put using a ne ids by (intro key_put [OF base]) auto
    with base a ne show ?thesis
      by (auto simp: steer_finish_def Let_def)
  qed
  ultimately show ?thesis
    using True r by (auto simp: steerQueued_def Let_def split: prod.split)
qed (use assms in \<open>simp add: steerQueued_def\<close>)

lemma reap_one_key:
  assumes inv: "run_inv st" "key_inv st" and quiet: "\<forall>sid s. fst (cb sid s) = s"
  shows "key_inv (fst (reap_one now age tok clk cb rid (st, acc)))"
proof (cases "get_run st rid")
  case (Some r)
  note id = run_invD [OF inv(1) Some]
  let ?f = "r\<lparr>leaseToken := Some (tok rid), leaseExpiresAt := Some (now + FENCE_HOLD_MS)\<rparr>"
  show ?thesis
  proof (cases "leaseLapsed r now")
    case True
    have "run_inv (put_run st ?f)"
      using inv Some id True
      by (intro edit_run_inv [OF inv(1) Some]) (auto simp: run_wf_def leaseLapsed_def)
    moreover have "key_inv (put_run st ?f)"
      using id by (intro key_put [OF inv(2) Some]) auto
    moreover have "cb (sessionId r) (put_run st ?f) = (put_run st ?f, snd (cb (sessionId r) (put_run st ?f)))"
      using quiet by (metis prod.collapse)
    moreover have "key_inv st2" if "retire (put_run st ?f) r1 e b opts t = (st2, x, y)"
        "get_run (put_run st ?f) rid = Some r1" for r1 e b opts t st2 x y
      using retire_key [OF calculation(1,2) that(2), of e b opts t] that(1) by simp
    ultimately show ?thesis
      unfolding reap_one_def prod.case Some option.case Let_def
      using True by (auto split: prod.split option.split)
  qed (use inv Some in \<open>simp add: reap_one_def\<close>)
qed (use inv in \<open>simp add: reap_one_def\<close>)

lemma reap_loop_key:
  assumes "run_inv st" "key_inv st" and quiet: "\<forall>sid s. fst (cb sid s) = s"
  shows "key_inv (fst (reap_loop now age tok clk cb rids st acc))"
  using assms(1,2)
proof (induction rids arbitrary: st acc)
  case (Cons rid rids)
  have ok: "retired_ok cb" using quiet by (simp add: retired_ok_def)
  from reap_one_inv [OF Cons.prems(1) ok, of now age tok clk rid acc]
    reap_one_key [OF Cons.prems quiet, of now age tok clk rid acc] Cons
  show ?case by (auto split: prod.split option.split)
qed simp

definition run_key_inv :: "run_store \<Rightarrow> bool" where
  "run_key_inv st \<longleftrightarrow> run_inv st \<and> key_inv st"

interpretation keyed_runs: op_invariant run_step run_quiet run_key_inv
proof
  fix st x
  assume a: "run_key_inv st" "run_quiet st x"
  then have inv: "run_inv st" "key_inv st" by (simp_all add: run_key_inv_def)
  have "run_inv (run_step st x)"
    using runs.step_keeps [OF inv(1) run_quiet_ok [OF inv(1) a(2)]] .
  moreover have "key_inv (run_step st x)"
  proof (cases x)
    case (OpWithdraw i)
    have "st\<lparr>rs_runs := a, rs_retryAfter := b\<rparr> = st\<lparr>rs_runs := a\<rparr>\<lparr>rs_retryAfter := b\<rparr>" for a b
      by simp
    with inv key_del [OF inv(2), of i] OpWithdraw show ?thesis
      by (simp add: withdraw_def split: option.split del: key_inv_frame)
  next
    case (OpFail i tok e rt ra now)
    show ?thesis
    proof (cases "get_run st i")
      case (Some r)
      obtain st' a b where "retire st r e (rt \<noteq> Some False) (fail_opts ra) now = (st', a, b)"
        by (metis prod_cases3)
      with retire_key [OF inv Some, of e "rt \<noteq> Some False" "fail_opts ra" now] inv(2) show ?thesis
        by (simp add: OpFail fail_run_def Some)
    qed (use inv OpFail in \<open>simp add: fail_run_def\<close>)
  qed (use a(2) inv in \<open>auto simp: claim_def claimById_def claimForSession_def heartbeat_def
        releaseLease_def noteTurnUserSeq_def setDeliveryState_def editPendingText_def withdraw_def
        markReturned_def waitFor_def waitTimeout_def reapExpired_def split: option.split
        intro: enqueue_key complete_key steer_key reap_loop_key lease_key [OF inv] claimById_pending
        key_put dest: first_Some find_mem run_invD(1)\<close>)
  ultimately show "run_key_inv (run_step st x)"
    by (simp add: run_key_inv_def)
qed

lemma init_key_inv: "run_key_inv (createMemoryRunStore m)"
  by (simp add: run_key_inv_def init_inv key_inv_def)
    (simp add: createMemoryRunStore_def key_of_def get_run_def)

text \<open>
  C17. As long as nothing interleaves at the awaits, a non-empty deduplication key belongs to at
  most one run, the key finds that run, and enqueueing under it again changes nothing and
  returns that run, whatever the new request and identifier are.
\<close>

theorem enqueue_deduplicates:
  assumes ops: "ok_run run_step run_quiet (createMemoryRunStore m) ops"
    and st: "st = foldl run_step (createMemoryRunStore m) ops"
    and r: "get_run st i = Some r" "dedupKey r = Some k" "k \<noteq> []"
    and inp: "eq_dedupKey inp = Some k"
  shows "enqueue st uuid inp now = (st, r, True) \<and> getByDedupKey st k = Some r \<and>
    (\<forall>j s. get_run st j = Some s \<and> dedupKey s = Some k \<longrightarrow> j = i)"
proof -
  have inv: "key_inv st"
    using keyed_runs.run_keeps [OF init_key_inv ops] st by (simp add: run_key_inv_def)
  have key: "key_of st i = Some k" using r by (simp add: key_of_get)
  have "existing_for_key st (Some k) = Some r"
    using existing_for_key_iff [OF inv] key r(1) by blast
  moreover have "getByDedupKey st k = existing_for_key st (Some k)"
    using r(3) by (simp add: getByDedupKey_def existing_for_key_def)
  moreover have "j = i" if "get_run st j = Some s" "dedupKey s = Some k" for j s
    using key_of_inj [OF inv, of j k i] key that r(3) by (simp add: key_of_get)
  ultimately show ?thesis by (auto simp: enqueue_def inp)
qed

definition keyed_ops :: "run_op list" where
  "keyed_ops =
     [OpEnqueue ''q'' (sample_input ''s'' (Some ''k'')) 0, OpClaim ''w'' 10 ''t1'' 2 2 2]"

lemma keyed_ops_quiet: "ok_run run_step run_quiet (createMemoryRunStore None) keyed_ops"
  by (simp add: keyed_ops_def createMemoryRunStore_def get_run_def)

theorem enqueue_deduplicates_witness:
  "\<exists>r. dedupKey r = Some ''k'' \<and>
     snd (enqueue (foldl run_step (createMemoryRunStore None) keyed_ops) ''z''
       (sample_input ''s2'' (Some ''k'')) 7) = (r, True)"
proof -
  have "map_option dedupKey (get_run (foldl run_step (createMemoryRunStore None) keyed_ops) ''q'') =
      Some (Some ''k'')"
    by code_simp
  then obtain r where r: "get_run (foldl run_step (createMemoryRunStore None) keyed_ops) ''q'' = Some r"
    "dedupKey r = Some ''k''" by auto
  have "eq_dedupKey (sample_input ''s2'' (Some ''k'')) = Some ''k''"
    by (simp add: sample_input_def)
  from enqueue_deduplicates [OF keyed_ops_quiet refl r _ this, of "''z''" 7] r show ?thesis
    by auto
qed



subsection \<open>The ledger of tool calls\<close>

lemma append_sep_inject:
  assumes "x \<notin> set ys" and "x \<notin> set ys'"
  shows "xs @ x # ys = xs' @ x # ys' \<longleftrightarrow> xs = xs' \<and> ys = ys'"
proof
  assume eq: "xs @ x # ys = xs' @ x # ys'"
  have "rev ys @ x # rev xs = rev ys' @ x # rev xs'"
    using arg_cong [OF eq, of rev] by simp
  then have "takeWhile (\<lambda>c. c \<noteq> x) (rev ys @ x # rev xs) = takeWhile (\<lambda>c. c \<noteq> x) (rev ys' @ x # rev xs')"
    by simp
  moreover have "takeWhile (\<lambda>c. c \<noteq> x) (rev ys @ x # rev xs) = rev ys"
    using assms(1) by (subst takeWhile_append2) auto
  moreover have "takeWhile (\<lambda>c. c \<noteq> x) (rev ys' @ x # rev xs') = rev ys'"
    using assms(2) by (subst takeWhile_append2) auto
  ultimately have "ys = ys'" by simp
  with eq show "xs = xs' \<and> ys = ys'" by simp
qed simp

lemma ledger_key_inject:
  "ledger_key rid a c = ledger_key rid' a' c' \<longleftrightarrow> rid = rid' \<and> a = a' \<and> c = c'"
proof -
  have "ledger_key rid a c = (rid @ '':'' @ show_nat a) @ CHR '':'' # show_nat c" for rid a c
    by (simp add: ledger_key_def)
  then show ?thesis
    by (simp add: append_sep_inject del: append_assoc append_Cons)
      (simp add: append_sep_inject)
qed

text \<open>
  C16. A tool call's recorded output is what a replay of the same call of the same attempt
  reads back, and recording it hides or invents no other call's output, whatever characters
  the run identifiers hold.
\<close>

theorem ledger_roundtrip:
  "ledger_begin (ledger_record l rid a c out) rid' a' c' =
     (if rid' = rid \<and> a' = a \<and> c' = c then Some out else ledger_begin l rid' a' c')"
  by (auto simp: ledger_begin_def ledger_record_def ledger_key_inject)

end
