(* ===== verification/DurableMap.thy ===== *)
theory DurableMap
  imports Prelude
begin

section \<open>Durable maps and canonical JSON\<close>

text \<open>
  The storage interface most components are written against
  (\<open>src/src/persistence/durable-map.ts\<close>): its laws as a locale, the in-memory implementation
  that the program and its tests run on, and the canonical JSON of \<open>src/src/util/objects.ts\<close>.
\<close>

subsection \<open>JSON values\<close>

datatype json =
  JNull | JBool bool | JNum int | JStr string | JArr "json list" | JObj "(string \<times> json) list"

text \<open>
  \<open>canonicalJson\<close> serialises a value with the keys of every object sorted. The program only
  compares the results, so the canonical value stands for its text.
\<close>

primrec canonicalJson :: "json \<Rightarrow> json" where
  "canonicalJson JNull = JNull"
| "canonicalJson (JBool b) = JBool b"
| "canonicalJson (JNum n) = JNum n"
| "canonicalJson (JStr s) = JStr s"
| "canonicalJson (JArr vs) = JArr (map canonicalJson vs)"
| "canonicalJson (JObj fs) = JObj (sort_key fst (map (map_prod id canonicalJson) fs))"

lemma insort_key_map_prod:
  "insort_key fst (map_prod id f x) (map (map_prod id f) ys) = map (map_prod id f) (insort_key fst x ys)"
  by (induction ys) auto

lemma sort_key_map_prod: "sort_key fst (map (map_prod id f) xs) = map (map_prod id f) (sort_key fst xs)"
proof (induction xs)
  case (Cons x xs)
  then show ?case using insort_key_map_prod [of f x "sort_key fst xs"]
    by (simp add: id_def)
qed simp

lemma canonicalJson_idem: "canonicalJson (canonicalJson v) = canonicalJson v"
proof (induction v)
  case (JObj fs)
  have "map (map_prod id canonicalJson \<circ> map_prod id canonicalJson) fs = map (map_prod id canonicalJson) fs"
    using JObj by (auto simp: prod.map_comp)
  then have "map (map_prod id canonicalJson) (map (map_prod id canonicalJson) fs) =
      map (map_prod id canonicalJson) fs" by simp
  then show ?case
    by (simp only: canonicalJson.simps sort_key_map_prod [symmetric]) (simp add: sort_key_map_prod [symmetric] sort_key_id_if_sorted)
qed auto

subsection \<open>The interface\<close>

text \<open>
  What a client may rely on. \<open>update\<close> and \<open>insertIfAbsent\<close> are atomic: the function given to
  \<open>update\<close> sees the stored value and nothing interleaves.
\<close>

locale durable_map =
  fixes get :: "'m \<Rightarrow> ident \<Rightarrow> 't option"
    and all_values :: "'m \<Rightarrow> 't list"
    and put :: "'m \<Rightarrow> ident \<Rightarrow> 't \<Rightarrow> 'm"
    and putIfAbsent :: "'m \<Rightarrow> ident \<Rightarrow> 't \<Rightarrow> 'm \<times> 't"
    and insertIfAbsent :: "'m \<Rightarrow> ident \<Rightarrow> 't \<Rightarrow> 'm \<times> bool"
    and update :: "'m \<Rightarrow> ident \<Rightarrow> ('t \<Rightarrow> 't) \<Rightarrow> 'm \<times> 't option"
    and delete :: "'m \<Rightarrow> ident \<Rightarrow> 'm"
    and invar :: "'m \<Rightarrow> bool"
  assumes get_put: "get (put m i v) j = (if j = i then Some v else get m j)"
    and putIfAbsent_new: "get m i = None \<Longrightarrow> putIfAbsent m i v = (put m i v, v)"
    and putIfAbsent_old: "get m i = Some w \<Longrightarrow> putIfAbsent m i v = (m, w)"
    and insert_new: "get m i = None \<Longrightarrow> insertIfAbsent m i v = (put m i v, True)"
    and insert_old: "get m i = Some w \<Longrightarrow> insertIfAbsent m i v = (m, False)"
    and update_absent: "get m i = None \<Longrightarrow> update m i f = (m, None)"
    and update_present: "get m i = Some w \<Longrightarrow> update m i f = (put m i (f w), Some (f w))"
    and get_delete: "get (delete m i) j = (if j = i then None else get m j)"
    and all_iff: "invar m \<Longrightarrow> v \<in> set (all_values m) \<longleftrightarrow> (\<exists>i. get m i = Some v)"
    and invar_put: "invar m \<Longrightarrow> invar (put m i v)"
    and invar_delete: "invar m \<Longrightarrow> invar (delete m i)"
begin

lemma insert_once: "snd (insertIfAbsent (fst (insertIfAbsent m i v)) i w) = False"
  by (cases "get m i") (simp_all add: insert_new insert_old get_put)

lemma putIfAbsent_twice:
  "putIfAbsent (fst (putIfAbsent m i v)) i w = (fst (putIfAbsent m i v), snd (putIfAbsent m i v))"
  by (cases "get m i") (simp_all add: putIfAbsent_new putIfAbsent_old get_put)

lemma update_get:
  "get (fst (update m i f)) j = (if j = i then map_option f (get m i) else get m j)"
  by (cases "get m i") (simp_all add: update_absent update_present get_put)

lemma update_result: "snd (update m i f) = map_option f (get m i)"
  by (cases "get m i") (simp_all add: update_absent update_present)

lemma invar_update: "invar m \<Longrightarrow> invar (fst (update m i f))"
  by (cases "get m i") (simp_all add: update_absent update_present invar_put)

lemma invar_insert: "invar m \<Longrightarrow> invar (fst (insertIfAbsent m i v))"
  by (cases "get m i") (simp_all add: insert_new insert_old invar_put)

lemma invar_putIfAbsent: "invar m \<Longrightarrow> invar (fst (putIfAbsent m i v))"
  by (cases "get m i") (simp_all add: putIfAbsent_new putIfAbsent_old invar_put)

text \<open>Deleting a list of identifiers one by one.\<close>

lemma get_delete_all: "get (foldl delete m is) j = (if j \<in> set is then None else get m j)"
  by (induction "is" arbitrary: m) (auto simp: get_delete)

lemma invar_delete_all: "invar m \<Longrightarrow> invar (foldl delete m is)"
  by (induction "is" arbitrary: m) (auto intro: invar_delete)

end

subsection \<open>The in-memory implementation\<close>

definition mm_entries :: "(ident, 't) jmap \<Rightarrow> (ident \<times> 't) list" where
  "mm_entries m = sort_key fst m"

definition mm_all :: "(ident, 't) jmap \<Rightarrow> 't list" where
  "mm_all m = map snd (mm_entries m)"

definition mm_get :: "(ident, 't) jmap \<Rightarrow> ident \<Rightarrow> 't option" where
  "mm_get m i = jget m i"

definition mm_put :: "(ident, 't) jmap \<Rightarrow> ident \<Rightarrow> 't \<Rightarrow> (ident, 't) jmap" where
  "mm_put m i v = jset m i v"

definition mm_putIfAbsent :: "(ident, 't) jmap \<Rightarrow> ident \<Rightarrow> 't \<Rightarrow> (ident, 't) jmap \<times> 't" where
  "mm_putIfAbsent m i v =
     (case jget m i of Some existing \<Rightarrow> (m, existing) | None \<Rightarrow> (jset m i v, v))"

definition mm_insertIfAbsent :: "(ident, 't) jmap \<Rightarrow> ident \<Rightarrow> 't \<Rightarrow> (ident, 't) jmap \<times> bool" where
  "mm_insertIfAbsent m i v = (if jget m i \<noteq> None then (m, False) else (jset m i v, True))"

text \<open>\<open>applyPatch\<close> on an object: a field patched with \<open>undefined\<close> is removed.\<close>

definition applyPatch :: "(string, 'f) jmap \<Rightarrow> (string \<times> 'f option) list \<Rightarrow> (string, 'f) jmap" where
  "applyPatch value patch =
     foldl (\<lambda>next (k, v). case v of None \<Rightarrow> jdel next k | Some w \<Rightarrow> jset next k w) value patch"

definition mm_merge ::
  "(ident, (string, 'f) jmap) jmap \<Rightarrow> ident \<Rightarrow> (string \<times> 'f option) list
     \<Rightarrow> (ident, (string, 'f) jmap) jmap \<times> (string, 'f) jmap option" where
  "mm_merge m i patch =
     (case jget m i of
        None \<Rightarrow> (m, None)
      | Some v \<Rightarrow> (jset m i (applyPatch v patch), Some (applyPatch v patch)))"

definition mm_update :: "(ident, 't) jmap \<Rightarrow> ident \<Rightarrow> ('t \<Rightarrow> 't) \<Rightarrow> (ident, 't) jmap \<times> 't option" where
  "mm_update m i f =
     (case jget m i of None \<Rightarrow> (m, None) | Some v \<Rightarrow> (jset m i (f v), Some (f v)))"

definition mm_deleteIf :: "(ident, 't) jmap \<Rightarrow> ident \<Rightarrow> ('t \<Rightarrow> bool) \<Rightarrow> (ident, 't) jmap \<times> bool" where
  "mm_deleteIf m i p =
     (case jget m i of
        None \<Rightarrow> (m, False)
      | Some v \<Rightarrow> if \<not> p v then (m, False) else (jdel m i, True))"

definition mm_delete :: "(ident, 't) jmap \<Rightarrow> ident \<Rightarrow> (ident, 't) jmap" where
  "mm_delete m i = jdel m i"

definition mm_take :: "(ident, 't) jmap \<Rightarrow> ident \<Rightarrow> (ident, 't) jmap \<times> 't option" where
  "mm_take m i = (jdel m i, jget m i)"

lemma mm_all_iff: "jwf m \<Longrightarrow> v \<in> set (mm_all m) \<longleftrightarrow> (\<exists>i. mm_get m i = Some v)"
  by (force simp: mm_all_def mm_entries_def mm_get_def jwf_in_iff [symmetric])

interpretation mm: durable_map mm_get mm_all mm_put mm_putIfAbsent mm_insertIfAbsent mm_update
  mm_delete jwf
  by unfold_locales
    (auto simp: mm_get_def mm_put_def mm_putIfAbsent_def mm_insertIfAbsent_def mm_update_def
      mm_delete_def mm_all_iff [unfolded mm_get_def])

lemmas mm_defs = mm_get_def mm_put_def mm_putIfAbsent_def mm_insertIfAbsent_def mm_update_def
  mm_delete_def

subsection \<open>Selecting with a projection, a filter and a limit\<close>

text \<open>
  \<open>select\<close> walks the sorted values. \<open>field\<close> is the text of the filtered field (\<open>None\<close> when it is
  null), \<open>lower\<close> the language's \<open>toLowerCase\<close>, \<open>omit\<close> the removal of the omitted fields.
  A non-ASCII text always passes the filter (its case folding is left to the caller).
\<close>

definition isAscii :: "string \<Rightarrow> bool" where
  "isAscii s = list_all (\<lambda>c. of_char c \<le> (127 :: nat)) s"

definition select_passes ::
  "(string \<Rightarrow> string) \<Rightarrow> (('t \<Rightarrow> string option) \<times> string list) option \<Rightarrow> 't \<Rightarrow> bool" where
  "select_passes lower wh v =
     (case wh of
        None \<Rightarrow> True
      | Some (field, anyOfFold) \<Rightarrow>
          (case field v of
             None \<Rightarrow> False
           | Some text \<Rightarrow> lower text \<in> set (map lower anyOfFold) \<or> \<not> isAscii text))"

fun select_loop ::
  "('t \<Rightarrow> bool) \<Rightarrow> ('t \<Rightarrow> 'u) \<Rightarrow> int option \<Rightarrow> 'u list \<Rightarrow> 't list \<Rightarrow> 'u list" where
  "select_loop pass omit limit out [] = out"
| "select_loop pass omit limit out (v # vs) =
     (if (case limit of None \<Rightarrow> False | Some n \<Rightarrow> int (length out) \<ge> n) then out
      else if \<not> pass v then select_loop pass omit limit out vs
      else select_loop pass omit limit (out @ [omit v]) vs)"

definition selectValues ::
  "(string \<Rightarrow> string) \<Rightarrow> ('t \<Rightarrow> 'u) \<Rightarrow> (('t \<Rightarrow> string option) \<times> string list) option \<Rightarrow> int option
     \<Rightarrow> 't list \<Rightarrow> 'u list" where
  "selectValues lower omit wh limit vs = select_loop (select_passes lower wh) omit limit [] vs"

definition mm_select ::
  "(string \<Rightarrow> string) \<Rightarrow> ('t \<Rightarrow> 'u) \<Rightarrow> (('t \<Rightarrow> string option) \<times> string list) option \<Rightarrow> int option
     \<Rightarrow> ident option \<Rightarrow> (ident, 't) jmap \<Rightarrow> 'u list" where
  "mm_select lower omit wh limit afterId m =
     selectValues lower omit wh limit
       (map snd (filter (\<lambda>(i, _). case afterId of None \<Rightarrow> True | Some a \<Rightarrow> i > a) (mm_entries m)))"

lemma select_loop_eq:
  "select_loop pass omit limit out vs =
     (case limit of
        None \<Rightarrow> out @ map omit (filter pass vs)
      | Some n \<Rightarrow> out @ take (nat n - length out) (map omit (filter pass vs)))"
proof (induction vs arbitrary: out)
  case (Cons v vs)
  show ?case
  proof (cases limit)
    case (Some n)
    show ?thesis
    proof (cases "int (length out) \<ge> n")
      case False
      then have "nat n - length out = Suc (nat n - Suc (length out))" by linarith
      with False Some Cons.IH show ?thesis by auto
    qed (use Some in auto)
  qed (use Cons.IH in auto)
qed (auto split: option.split)

lemma mm_entries_sorted: "sorted (map fst (mm_entries m))"
  by (simp add: mm_entries_def)

lemma mm_entries_get: "jwf m \<Longrightarrow> (i, v) \<in> set (mm_entries m) \<longleftrightarrow> mm_get m i = Some v"
  by (simp add: mm_entries_def mm_get_def jwf_in_iff)

text \<open>
  A page of \<open>select\<close> is the first \<open>limit\<close> values, in identifier order, of the entries past
  the cursor that pass the filter, each with the omitted fields removed.
\<close>

theorem select_page:
  assumes "jwf m" and "0 \<le> n"
  shows "\<exists>es. mm_select lower omit wh (Some n) afterId m = take (nat n) (map (omit \<circ> snd) es) \<and>
     sorted_wrt (<) (map fst es) \<and>
     (\<forall>i v. (i, v) \<in> set es \<longleftrightarrow>
        mm_get m i = Some v \<and> select_passes lower wh v \<and> (\<forall>a. afterId = Some a \<longrightarrow> i > a))"
proof -
  let ?after = "\<lambda>(i, _ :: 'a). case afterId of None \<Rightarrow> True | Some a \<Rightarrow> i > a"
  let ?es = "filter (select_passes lower wh \<circ> snd) (filter ?after (mm_entries m))"
  have "distinct (map fst (mm_entries m))"
    using assms(1) by (simp add: mm_entries_def jwf_def) (metis distinct_map distinct_sort set_sort)
  then have "sorted_wrt (<) (map fst (mm_entries m))"
    using mm_entries_sorted by (simp add: strict_sorted_iff)
  then have "sorted_wrt (<) (map fst ?es)"
    by (simp add: sorted_wrt_map sorted_wrt_filter)
  moreover have "(i, v) \<in> set ?es \<longleftrightarrow>
        mm_get m i = Some v \<and> select_passes lower wh v \<and> (\<forall>a. afterId = Some a \<longrightarrow> i > a)" for i v
    using mm_entries_get [OF assms(1)] by (auto split: option.splits)
  moreover have "mm_select lower omit wh (Some n) afterId m = take (nat n) (map (omit \<circ> snd) ?es)"
    by (simp add: mm_select_def selectValues_def select_loop_eq filter_map)
  ultimately show ?thesis by blast
qed

theorem select_page_witness:
  "\<exists>es. mm_select (\<lambda>s. s) (\<lambda>v. v) None (Some 1) (Some ''a'') [(''b'', 2 :: nat), (''a'', 1), (''c'', 3)] =
      take (nat 1) (map ((\<lambda>v. v) \<circ> snd) es) \<and>
    sorted_wrt (<) (map fst es) \<and>
    (\<forall>i v. (i, v) \<in> set es \<longleftrightarrow>
       mm_get [(''b'', 2), (''a'', 1), (''c'', 3)] i = Some v \<and> select_passes (\<lambda>s. s) None v \<and>
       (\<forall>a. Some ''a'' = Some a \<longrightarrow> i > a))"
proof -
  have wf: "jwf [(''b'', 2 :: nat), (''a'', 1), (''c'', 3)]" by (simp add: jwf_def)
  show ?thesis by (rule select_page [OF wf zero_le_one])
qed

end
