(* ===== verification/LoopLedger.thy ===== *)
theory LoopLedger
  imports DurableMap
begin

section \<open>The work items of a loop\<close>

text \<open>
  The ledger of a loop's work items (\<open>src/src/loops/item-ledger.ts\<close>, with the predicates of
  \<open>src/src/loops/ledger-view.ts\<close> and the types of \<open>src/src/types.ts\<close>) over the in-memory
  durable map: intake from sources, proposals and their history, the claim lease of a worker,
  the lease of a human decision, and pruning.

  An operation's function passed to \<open>update\<close> is atomic. The events handed to \<open>onEvent\<close> are
  collected in the state. \<open>hash\<close> is the digest an identifier is made of, \<open>mention_keys\<close> the
  wire mentions of a draft's text.
\<close>

datatype loop_item_status = Queued | InProgress | Ready | Shipped | ItemFailed | Skipped

datatype author = ByAgent | ByHuman

datatype role = HumanRole | AgentRole | SystemRole

type_synonym payload = "(string, json) jmap"

text \<open>A proposal without its time, as callers give it, and the stored one.\<close>

record proposal_input =
  lp_data :: payload
  lp_summary :: "string option"
  lp_by :: author
  lp_sessionId :: "string option"

record loop_proposal = proposal_input +
  lp_at :: time

record thread_input =
  tm_role :: role
  tm_text :: string
  tm_actorId :: "string option"

record loop_thread_message = thread_input +
  tm_id :: ident
  tm_at :: time

record loop_item =
  li_id :: ident
  li_loopId :: ident
  li_sourceKey :: string
  li_sourceSummary :: "string option"
  li_source :: "string option"
  li_sourcePayload :: "payload option"
  li_sourceAt :: "time option"
  li_proposal :: "loop_proposal option"
  li_agentDrafts :: "loop_proposal list option"
  li_agentMentionKeys :: "string list option"
  li_thread :: "loop_thread_message list option"
  li_status :: loop_item_status
  li_attempts :: nat
  li_runIds :: "ident list"
  li_outputIds :: "ident list"
  li_parkedReason :: "string option"
  li_guidance :: "string option"
  li_actedAt :: "time option"
  li_actionKind :: "string option"
  li_actionResult :: "string option"
  li_claimedAt :: "time option"
  li_claimToken :: "string option"
  li_decisionAt :: "time option"
  li_decisionToken :: "string option"
  li_createdAt :: time
  li_updatedAt :: time

subsection \<open>The view\<close>

datatype ledger_state = LsPending | LsProcessed | LsHeld | LsActioned | LsDismissed | LsFailed

definition ledgerState :: "loop_item \<Rightarrow> ledger_state" where
  "ledgerState it = (case li_status it of
     Queued \<Rightarrow> LsPending | InProgress \<Rightarrow> LsProcessed | Ready \<Rightarrow> LsHeld
   | Shipped \<Rightarrow> LsActioned | Skipped \<Rightarrow> LsDismissed | ItemFailed \<Rightarrow> LsFailed)"

definition isResolved :: "loop_item \<Rightarrow> bool" where
  "isResolved it \<longleftrightarrow> ledgerState it = LsActioned \<or> ledgerState it = LsDismissed"

lemma isResolved_iff: "isResolved it \<longleftrightarrow> li_status it \<in> {Shipped, Skipped}"
  by (cases "li_status it") (simp_all add: isResolved_def ledgerState_def)

text \<open>
  The two-level comparator of \<open>sortLedgerItems\<close>: open items first, the newest first among
  equals. A stable sort by the second key and then by the first is a sort by both.
\<close>

definition sortLedgerItems :: "loop_item list \<Rightarrow> loop_item list" where
  "sortLedgerItems items =
     sort_key (\<lambda>it. if isResolved it then 1 else 0 :: nat)
       (sort_key (\<lambda>it. - or_else (li_sourceAt it) (li_createdAt it)) items)"

subsection \<open>Identifiers, drafts\<close>

definition contentPart :: "json \<Rightarrow> json" where
  "contentPart v = canonicalJson v"

definition loopItemId :: "(json list \<Rightarrow> ident) \<Rightarrow> ident \<Rightarrow> string \<Rightarrow> ident" where
  "loopItemId hash loopId sourceKey = hash [contentPart (JStr loopId), contentPart (JStr sourceKey)]"

definition CLAIM_LEASE_MS :: time where "CLAIM_LEASE_MS = 600000"
definition LEDGER_THREAD_MAX :: nat where "LEDGER_THREAD_MAX = 200"
definition DECISION_LEASE_MS :: time where "DECISION_LEASE_MS = 300000"
definition AGENT_DRAFT_HISTORY :: nat where "AGENT_DRAFT_HISTORY = 10"

definition stamp :: "proposal_input \<Rightarrow> time \<Rightarrow> loop_proposal" where
  "stamp p now = proposal_input.extend p (loop_proposal.fields now)"

definition nextIngestStatus :: "loop_item \<Rightarrow> loop_proposal option \<Rightarrow> loop_item_status" where
  "nextIngestStatus it proposal =
     (if li_status it = InProgress then InProgress
      else if proposal \<noteq> None then Ready
      else if isResolved it then Queued else li_status it)"

definition sameDraft :: "loop_proposal option \<Rightarrow> loop_proposal \<Rightarrow> bool" where
  "sameDraft a b = (case a of
     None \<Rightarrow> False
   | Some d \<Rightarrow> canonicalJson (JObj (lp_data d)) = canonicalJson (JObj (lp_data b)))"

definition last_opt :: "'a list \<Rightarrow> 'a option" where
  "last_opt xs = (if xs = [] then None else Some (last xs))"

definition agentDraftsOf :: "loop_proposal option \<Rightarrow> loop_proposal list option \<Rightarrow> loop_proposal list" where
  "agentDraftsOf proposal drafts =
     (let kept = or_else drafts [] in
      case proposal of
        None \<Rightarrow> kept
      | Some p \<Rightarrow> if lp_by p \<noteq> ByAgent \<or> sameDraft (last_opt kept) p then kept else kept @ [p])"

definition agentDraftOf :: "loop_item \<Rightarrow> loop_proposal option" where
  "agentDraftOf it = last_opt (agentDraftsOf (li_proposal it) (li_agentDrafts it))"

text \<open>\<open>withAgentDraft\<close> returns the new \<open>agentDrafts\<close> and \<open>agentMentionKeys\<close>.\<close>

definition withAgentDraft ::
  "(json \<Rightarrow> string list) \<Rightarrow> loop_proposal option \<Rightarrow> loop_proposal list option \<Rightarrow> string list option
     \<Rightarrow> loop_proposal option \<Rightarrow> loop_proposal list \<times> string list" where
  "withAgentDraft mention_keys old_proposal old_drafts old_keys proposal =
     (let drafts = agentDraftsOf old_proposal old_drafts;
          next = (case proposal of
                    None \<Rightarrow> drafts
                  | Some p \<Rightarrow> if lp_by p = ByAgent \<and> \<not> sameDraft (last_opt drafts) p
                              then drafts @ [p] else drafts);
          keys = foldl sadd (uniq (or_else old_keys []))
                   (concat (map (\<lambda>d. mention_keys (canonicalJson (JObj (lp_data d)))) next))
      in (last_n AGENT_DRAFT_HISTORY next, keys))"

definition add_draft ::
  "(json \<Rightarrow> string list) \<Rightarrow> loop_item \<Rightarrow> loop_proposal option \<Rightarrow> loop_item \<Rightarrow> loop_item" where
  "add_draft mention_keys old proposal it =
     (let (drafts, keys) = withAgentDraft mention_keys (li_proposal old) (li_agentDrafts old)
                             (li_agentMentionKeys old) proposal
      in it\<lparr>li_agentDrafts := Some drafts, li_agentMentionKeys := Some keys\<rparr>)"

subsection \<open>Merging an entry of a source into an item\<close>

record ingest_entry =
  ie_loopId :: ident
  ie_dedupeKey :: string
  ie_source :: "string option"
  ie_summary :: "string option"
  ie_sourcePayload :: payload
  ie_sourceAt :: "time option"
  ie_proposal :: "proposal_input option"

definition newerSource :: "loop_item \<Rightarrow> ingest_entry \<Rightarrow> bool" where
  "newerSource it e = (case ie_sourceAt e of
     None \<Rightarrow> False | Some t \<Rightarrow> t > or_else (li_sourceAt it) 0)"

definition merged_proposal :: "loop_item \<Rightarrow> ingest_entry \<Rightarrow> time \<Rightarrow> loop_proposal option" where
  "merged_proposal it e now =
     (let keepHumanProposal = (case li_proposal it of
            None \<Rightarrow> False | Some p \<Rightarrow> lp_by p = ByHuman \<and> \<not> newerSource it e);
          incoming = (case ie_proposal e of None \<Rightarrow> li_proposal it | Some p \<Rightarrow> Some (stamp p now));
          unchanged = (case (incoming, li_proposal it) of
            (Some i, Some p) \<Rightarrow> lp_by p = ByAgent \<and> sameDraft (Some p) i | _ \<Rightarrow> False)
      in if keepHumanProposal \<or> unchanged then li_proposal it else incoming)"

definition mergeIngest ::
  "(json \<Rightarrow> string list) \<Rightarrow> loop_item \<Rightarrow> ingest_entry \<Rightarrow> time \<Rightarrow> loop_item option" where
  "mergeIngest mention_keys it e now =
     (if isResolved it \<and> \<not> newerSource it e then None
      else if \<not> isResolved it \<and> \<not> newerSource it e \<and> ie_proposal e = None then None
      else
        let proposal = merged_proposal it e now
        in Some (add_draft mention_keys it proposal
             (it\<lparr>li_status := nextIngestStatus it proposal,
                 li_sourcePayload := Some (ie_sourcePayload e),
                 li_sourceAt := (case ie_sourceAt e of None \<Rightarrow> li_sourceAt it | Some t \<Rightarrow> Some t),
                 li_actedAt := None, li_actionKind := None, li_actionResult := None,
                 li_parkedReason := None, li_updatedAt := now,
                 li_source := (case ie_source e of None \<Rightarrow> li_source it | Some s \<Rightarrow> Some s),
                 li_sourceSummary :=
                   (case ie_summary e of None \<Rightarrow> li_sourceSummary it | Some s \<Rightarrow> Some s),
                 li_proposal := proposal\<rparr>)))"

subsection \<open>The ledger\<close>

datatype ledger_event_op =
  EvIngest | EvProposal | EvAnnotate | EvThread | EvAction | EvReopen | EvReady | EvShipped |
  EvReturned | EvParked | EvSkipped

record ledger_event =
  le_loopId :: ident
  le_itemId :: ident
  le_op :: ledger_event_op
  le_at :: time

record item_ledger =
  il_items :: "(ident, loop_item) jmap"
  il_events :: "ledger_event list"

definition emit :: "item_ledger \<Rightarrow> loop_item option \<Rightarrow> ledger_event_op \<Rightarrow> time \<Rightarrow> item_ledger" where
  "emit st item evop at = (case item of
     None \<Rightarrow> st
   | Some it \<Rightarrow> st\<lparr>il_events := il_events st @
       [\<lparr>le_loopId = li_loopId it, le_itemId = li_id it, le_op = evop, le_at = at\<rparr>]\<rparr>)"

text \<open>
  The idiom of every change: \<open>update\<close> with a function that returns the item itself when a guard
  fails and sets the flag \<open>applied\<close> otherwise; the result is null unless applied. \<open>change\<close> is
  \<open>None\<close> where the code returns the item.
\<close>

definition update_applied ::
  "item_ledger \<Rightarrow> ident \<Rightarrow> (loop_item \<Rightarrow> loop_item option) \<Rightarrow> item_ledger \<times> loop_item option" where
  "update_applied st i change =
     (let applied = (case mm_get (il_items st) i of None \<Rightarrow> False | Some it \<Rightarrow> change it \<noteq> None);
          (items, after) = mm_update (il_items st) i (\<lambda>it. or_else (change it) it)
      in (st\<lparr>il_items := items\<rparr>, if applied then after else None))"

definition update_emit ::
  "item_ledger \<Rightarrow> ident \<Rightarrow> ledger_event_op \<Rightarrow> time \<Rightarrow> (loop_item \<Rightarrow> loop_item option)
     \<Rightarrow> item_ledger \<times> loop_item option" where
  "update_emit st i evop at change =
     (let (st', after) = update_applied st i change in (emit st' after evop at, after))"

definition transition_change ::
  "loop_item_status list \<Rightarrow> string option \<Rightarrow> (loop_item \<Rightarrow> loop_item) \<Rightarrow> loop_item \<Rightarrow> loop_item option" where
  "transition_change allowed token change it =
     (if li_status it \<notin> set allowed then None
      else if li_status it = InProgress \<and> li_claimToken it \<noteq> token then None
      else Some (change it))"

definition transition ::
  "item_ledger \<Rightarrow> ident \<Rightarrow> loop_item_status list \<Rightarrow> (loop_item \<Rightarrow> loop_item) \<Rightarrow> string option
     \<Rightarrow> ledger_event_op option \<Rightarrow> time \<Rightarrow> item_ledger \<times> loop_item option" where
  "transition st i allowed change token evop at =
     (case evop of
        None \<Rightarrow> update_applied st i (transition_change allowed token change)
      | Some ev \<Rightarrow> update_emit st i ev at (transition_change allowed token change))"

definition forLoop :: "item_ledger \<Rightarrow> ident \<Rightarrow> loop_item list" where
  "forLoop st loopId = filter (\<lambda>it. li_loopId it = loopId) (mm_all (il_items st))"

subsection \<open>Intake\<close>

definition blank_item :: "ident \<Rightarrow> ident \<Rightarrow> string \<Rightarrow> time \<Rightarrow> loop_item" where
  "blank_item i loopId sourceKey now =
     \<lparr>li_id = i, li_loopId = loopId, li_sourceKey = sourceKey, li_sourceSummary = None,
      li_source = None, li_sourcePayload = None, li_sourceAt = None, li_proposal = None,
      li_agentDrafts = None, li_agentMentionKeys = None, li_thread = None, li_status = Queued,
      li_attempts = 0, li_runIds = [], li_outputIds = [], li_parkedReason = None,
      li_guidance = None, li_actedAt = None, li_actionKind = None, li_actionResult = None,
      li_claimedAt = None, li_claimToken = None, li_decisionAt = None, li_decisionToken = None,
      li_createdAt = now, li_updatedAt = now\<rparr>"

definition enqueue_item ::
  "(json list \<Rightarrow> ident) \<Rightarrow> item_ledger \<Rightarrow> ident \<Rightarrow> string \<Rightarrow> string option \<Rightarrow> time
     \<Rightarrow> item_ledger \<times> loop_item \<times> bool" where
  "enqueue_item hash st loopId sourceKey summary now =
     (let i = loopItemId hash loopId sourceKey;
          candidate = (blank_item i loopId sourceKey now)\<lparr>li_sourceSummary := summary\<rparr>;
          (items, created) = mm_insertIfAbsent (il_items st) i candidate
      in (st\<lparr>il_items := items\<rparr>,
          if created then candidate else or_else (mm_get items i) candidate, created))"

record ingest_outcome =
  io_created :: nat
  io_updated :: nat
  io_skipped :: nat

definition ingest_candidate ::
  "(json list \<Rightarrow> ident) \<Rightarrow> (json \<Rightarrow> string list) \<Rightarrow> ingest_entry \<Rightarrow> time \<Rightarrow> loop_item" where
  "ingest_candidate hash mention_keys e now =
     (let i = loopItemId hash (ie_loopId e) (ie_dedupeKey e);
          proposal = map_option (\<lambda>p. stamp p now) (ie_proposal e);
          (drafts, keys) = withAgentDraft mention_keys None (Some []) None proposal
      in (blank_item i (ie_loopId e) (ie_dedupeKey e) now)
           \<lparr>li_status := (if ie_proposal e \<noteq> None then Ready else Queued),
            li_sourcePayload := Some (ie_sourcePayload e), li_source := ie_source e,
            li_sourceSummary := ie_summary e, li_sourceAt := ie_sourceAt e,
            li_proposal := proposal, li_agentDrafts := Some drafts,
            li_agentMentionKeys := Some keys\<rparr>)"

text \<open>One entry: \<open>now\<close>, \<open>t_merge\<close> and \<open>at\<close> are the three readings of the clock.\<close>

definition ingest_one ::
  "(json list \<Rightarrow> ident) \<Rightarrow> (json \<Rightarrow> string list) \<Rightarrow> item_ledger \<times> ingest_outcome
     \<Rightarrow> ingest_entry \<times> time \<times> time \<times> time \<Rightarrow> item_ledger \<times> ingest_outcome" where
  "ingest_one hash mention_keys acc x =
     (let (st, out) = acc;
          (e, now, t_merge, at) = x;
          candidate = ingest_candidate hash mention_keys e now;
          i = loopItemId hash (ie_loopId e) (ie_dedupeKey e);
          (items, inserted) = mm_insertIfAbsent (il_items st) i candidate
      in if inserted
         then (emit (st\<lparr>il_items := items\<rparr>) (Some candidate) EvIngest at,
               out\<lparr>io_created := io_created out + 1\<rparr>)
         else
           let (st', after) = update_emit st i EvIngest at (\<lambda>it. mergeIngest mention_keys it e t_merge)
           in (st', if after \<noteq> None then out\<lparr>io_updated := io_updated out + 1\<rparr>
                    else out\<lparr>io_skipped := io_skipped out + 1\<rparr>))"

definition ingest ::
  "(json list \<Rightarrow> ident) \<Rightarrow> (json \<Rightarrow> string list) \<Rightarrow> item_ledger
     \<Rightarrow> (ingest_entry \<times> time \<times> time \<times> time) list \<Rightarrow> item_ledger \<times> ingest_outcome" where
  "ingest hash mention_keys st entries =
     foldl (ingest_one hash mention_keys)
       (st, \<lparr>io_created = 0, io_updated = 0, io_skipped = 0\<rparr>) entries"

subsection \<open>Changes of an item\<close>

definition setProposal ::
  "(json \<Rightarrow> string list) \<Rightarrow> item_ledger \<Rightarrow> ident \<Rightarrow> proposal_input \<Rightarrow> time option \<Rightarrow> time \<Rightarrow> time
     \<Rightarrow> item_ledger \<times> loop_item option" where
  "setProposal mention_keys st i p expectedAt now at =
     update_emit st i EvProposal at (\<lambda>it.
       if li_status it = Shipped then None
       else if expectedAt \<noteq> None \<and> map_option lp_at (li_proposal it) \<noteq> expectedAt then None
       else Some (add_draft mention_keys it (Some (stamp p now))
         (it\<lparr>li_proposal := Some (stamp p now),
             li_status := (if li_status it = Queued then Ready else li_status it),
             li_updatedAt := now\<rparr>)))"

definition annotate ::
  "item_ledger \<Rightarrow> ident \<Rightarrow> payload \<Rightarrow> string option \<Rightarrow> time \<Rightarrow> time \<Rightarrow> item_ledger \<times> loop_item option" where
  "annotate st i patch summary now at =
     update_emit st i EvAnnotate at (\<lambda>it. Some (it
       \<lparr>li_sourcePayload := Some (foldl (\<lambda>m (k, v). jset m k v) (or_else (li_sourcePayload it) []) patch),
        li_sourceSummary := (case summary of None \<Rightarrow> li_sourceSummary it | Some s \<Rightarrow> Some s),
        li_updatedAt := now\<rparr>))"

text \<open>The messages of \<open>appendThread\<close> come paired with the \<open>randomUUID()\<close> each one gets.\<close>

definition appendThread ::
  "item_ledger \<Rightarrow> ident \<Rightarrow> (thread_input \<times> ident) list \<Rightarrow> time \<Rightarrow> time
     \<Rightarrow> item_ledger \<times> loop_item option" where
  "appendThread st i messages now at =
     (if messages = [] then (st, mm_get (il_items st) i)
      else update_emit st i EvThread at (\<lambda>it.
        let added = map (\<lambda>(m, u). thread_input.extend m (loop_thread_message.fields u now)) messages;
            thread = or_else (li_thread it) [] @ added
        in Some (it\<lparr>li_thread := Some (if length thread > LEDGER_THREAD_MAX
                                         then drop (length thread - LEDGER_THREAD_MAX) thread
                                         else thread),
                    li_updatedAt := now\<rparr>)))"

datatype action_outcome = Actioned | Dismissed

definition recordAction ::
  "item_ledger \<Rightarrow> ident \<Rightarrow> string \<Rightarrow> string option \<Rightarrow> action_outcome \<Rightarrow> time \<Rightarrow> time
     \<Rightarrow> item_ledger \<times> loop_item option" where
  "recordAction st i kind result outcome now at =
     update_emit st i EvAction at (\<lambda>it.
       if li_status it = Shipped then None
       else Some (it\<lparr>li_status := (if outcome = Actioned then Shipped else Skipped),
                     li_actionKind := Some kind, li_actedAt := Some now, li_claimedAt := None,
                     li_claimToken := None, li_parkedReason := None, li_updatedAt := now,
                     li_actionResult :=
                       (case result of None \<Rightarrow> li_actionResult it | Some r \<Rightarrow> Some r)\<rparr>))"

definition isSentReply :: "loop_item \<Rightarrow> bool option \<Rightarrow> bool" where
  "isSentReply it sentReply \<longleftrightarrow>
     sentReply = Some True \<and> li_source it = Some ''gmail'' \<and>
     (case li_sourcePayload it of
        None \<Rightarrow> False | Some pl \<Rightarrow> jget pl ''sentChat'' = Some (JBool True))"

definition reopen ::
  "item_ledger \<Rightarrow> ident \<Rightarrow> bool option \<Rightarrow> time \<Rightarrow> time \<Rightarrow> item_ledger \<times> loop_item option" where
  "reopen st i sentReply now at =
     update_emit st i EvReopen at (\<lambda>it.
       let sent = isSentReply it sentReply in
       if li_status it \<noteq> Skipped \<and> li_status it \<noteq> ItemFailed \<and> \<not> (sent \<and> li_status it = Shipped)
       then None
       else Some (it
         \<lparr>li_status := (if sent \<or> li_proposal it \<noteq> None then Ready else Queued),
          li_proposal :=
            (if sent
             then Some \<lparr>lp_data = [(''body'', JStr [])], lp_summary = None, lp_by = ByHuman,
                        lp_sessionId = None,
                        lp_at = max now (or_else (map_option lp_at (li_proposal it)) 0 + 1)\<rparr>
             else li_proposal it),
          li_actedAt := None, li_actionKind := None, li_actionResult := None,
          li_parkedReason := None, li_updatedAt := now\<rparr>))"

subsection \<open>Leases\<close>

definition claimStale :: "loop_item \<Rightarrow> time \<Rightarrow> bool" where
  "claimStale it now \<longleftrightarrow>
     li_status it = InProgress \<and> or_else (li_claimedAt it) 0 + CLAIM_LEASE_MS \<le> now"

definition claim_item ::
  "item_ledger \<Rightarrow> ident \<Rightarrow> string \<Rightarrow> time \<Rightarrow> item_ledger \<times> loop_item option" where
  "claim_item st i token now =
     update_applied st i (\<lambda>it.
       if li_status it \<noteq> Queued \<and> \<not> claimStale it now then None
       else Some (it\<lparr>li_status := InProgress, li_attempts := li_attempts it + 1,
                     li_claimedAt := Some now, li_claimToken := Some token,
                     li_parkedReason := None, li_updatedAt := now\<rparr>))"

definition decisionActive :: "loop_item \<Rightarrow> time \<Rightarrow> bool" where
  "decisionActive it t \<longleftrightarrow>
     truthy (li_decisionToken it) \<and> or_else (li_decisionAt it) 0 + DECISION_LEASE_MS > t"

definition acquireDecision ::
  "item_ledger \<Rightarrow> ident \<Rightarrow> string \<Rightarrow> time \<Rightarrow> item_ledger \<times> string option" where
  "acquireDecision st i token decisionAt =
     (let (st', after) = update_applied st i (\<lambda>it.
            if decisionActive it decisionAt then None
            else Some (it\<lparr>li_decisionAt := Some decisionAt, li_decisionToken := Some token,
                          li_updatedAt := decisionAt\<rparr>))
      in (st', if after \<noteq> None then Some token else None))"

definition releaseDecision ::
  "item_ledger \<Rightarrow> ident \<Rightarrow> string \<Rightarrow> time \<Rightarrow> item_ledger \<times> bool" where
  "releaseDecision st i token now =
     (let (st', after) = update_applied st i (\<lambda>it.
            if li_decisionToken it \<noteq> Some token then None
            else Some (it\<lparr>li_decisionAt := None, li_decisionToken := None, li_updatedAt := now\<rparr>))
      in (st', after \<noteq> None))"

subsection \<open>The transitions of a worker\<close>

definition recordRun ::
  "item_ledger \<Rightarrow> ident \<Rightarrow> ident \<Rightarrow> string \<Rightarrow> time \<Rightarrow> item_ledger \<times> loop_item option" where
  "recordRun st i runId token now =
     transition st i [InProgress]
       (\<lambda>it. it\<lparr>li_runIds := uniq (li_runIds it @ [runId]), li_updatedAt := now\<rparr>)
       (Some token) None now"

definition markReady ::
  "item_ledger \<Rightarrow> ident \<Rightarrow> ident list \<Rightarrow> string \<Rightarrow> time \<Rightarrow> time \<Rightarrow> item_ledger \<times> loop_item option" where
  "markReady st i outputIds token now at =
     transition st i [InProgress]
       (\<lambda>it. it\<lparr>li_status := Ready, li_outputIds := uniq (li_outputIds it @ outputIds),
                li_claimedAt := None, li_claimToken := None, li_updatedAt := now\<rparr>)
       (Some token) (Some EvReady) at"

definition markShipped ::
  "item_ledger \<Rightarrow> ident \<Rightarrow> string option \<Rightarrow> time \<Rightarrow> time \<Rightarrow> item_ledger \<times> loop_item option" where
  "markShipped st i token now at =
     transition st i [Ready, InProgress]
       (\<lambda>it. it\<lparr>li_status := Shipped, li_claimedAt := None, li_claimToken := None,
                li_updatedAt := now\<rparr>)
       token (Some EvShipped) at"

definition returnToWork ::
  "item_ledger \<Rightarrow> ident \<Rightarrow> string \<Rightarrow> string option \<Rightarrow> time \<Rightarrow> time \<Rightarrow> item_ledger \<times> loop_item option" where
  "returnToWork st i guidance token now at =
     transition st i [Ready, InProgress]
       (\<lambda>it. it\<lparr>li_status := Queued, li_guidance := Some guidance, li_claimedAt := None,
                li_claimToken := None, li_updatedAt := now\<rparr>)
       token (Some EvReturned) at"

definition park ::
  "item_ledger \<Rightarrow> ident \<Rightarrow> string \<Rightarrow> string option \<Rightarrow> time \<Rightarrow> time \<Rightarrow> item_ledger \<times> loop_item option" where
  "park st i reason token now at =
     transition st i [Queued, InProgress, Ready]
       (\<lambda>it. it\<lparr>li_status := (if li_status it = Ready then Ready else ItemFailed),
                li_parkedReason := Some reason, li_claimedAt := None, li_claimToken := None,
                li_updatedAt := now\<rparr>)
       token (Some EvParked) at"

definition skip ::
  "item_ledger \<Rightarrow> ident \<Rightarrow> string \<Rightarrow> time \<Rightarrow> time \<Rightarrow> item_ledger \<times> loop_item option" where
  "skip st i reason now at =
     transition st i [Queued, InProgress]
       (\<lambda>it. it\<lparr>li_status := Skipped, li_parkedReason := Some reason, li_claimedAt := None,
                li_updatedAt := now\<rparr>)
       None (Some EvSkipped) at"

subsection \<open>Reading, pruning\<close>

definition queued_items :: "item_ledger \<Rightarrow> ident \<Rightarrow> int option \<Rightarrow> loop_item list" where
  "queued_items st loopId limit =
     (let queued = sort_key li_createdAt
            (filter (\<lambda>it. li_status it = Queued) (forLoop st loopId))
      in case limit of None \<Rightarrow> queued | Some n \<Rightarrow> slice0 n queued)"

definition settled_at :: "loop_item \<Rightarrow> time" where
  "settled_at it = or_else (li_actedAt it) (li_updatedAt it)"

definition prune_doomed :: "loop_item list \<Rightarrow> int \<Rightarrow> time \<Rightarrow> time \<Rightarrow> (ident, loop_item) jmap" where
  "prune_doomed items maxItems retentionMs now =
     (let expired = filter (\<lambda>it. isResolved it \<and> now - settled_at it \<ge> retentionMs) items;
          doomed = foldl (\<lambda>m it. jset m (li_id it) it) [] expired;
          surviving = filter (\<lambda>it. jget doomed (li_id it) = None) items
      in if int (length surviving) > maxItems
         then foldl (\<lambda>m it. jset m (li_id it) it) doomed
                (slice0 (int (length surviving) - maxItems)
                   (sort_key settled_at (filter isResolved surviving)))
         else doomed)"

definition prune ::
  "item_ledger \<Rightarrow> ident \<Rightarrow> int \<Rightarrow> time \<Rightarrow> time \<Rightarrow> item_ledger \<times> nat" where
  "prune st loopId maxItems retentionMs now =
     (let doomed = prune_doomed (forLoop st loopId) maxItems retentionMs now
      in (st\<lparr>il_items := foldl mm_delete (il_items st) (jkeys doomed)\<rparr>, length doomed))"

record loop_queue_stats =
  qs_queued :: nat
  qs_inProgress :: nat
  qs_ready :: nat
  qs_failed :: nat
  qs_oldestQueuedAgeMs :: "time option"

definition oldest_created :: "loop_item list \<Rightarrow> time option" where
  "oldest_created items = foldl (\<lambda>acc it. case acc of
       None \<Rightarrow> Some (li_createdAt it)
     | Some t \<Rightarrow> if li_createdAt it < t then Some (li_createdAt it) else acc) None items"

definition ledger_stats :: "item_ledger \<Rightarrow> ident \<Rightarrow> time \<Rightarrow> loop_queue_stats" where
  "ledger_stats st loopId now =
     (let items = forLoop st loopId;
          count = (\<lambda>s. length (filter (\<lambda>it. li_status it = s) items))
      in \<lparr>qs_queued = count Queued, qs_inProgress = count InProgress, qs_ready = count Ready,
          qs_failed = count ItemFailed,
          qs_oldestQueuedAgeMs = map_option (\<lambda>t. max 0 (now - t))
            (oldest_created (filter (\<lambda>it. li_status it = Queued) items))\<rparr>)"

definition deleteByLoop :: "item_ledger \<Rightarrow> ident \<Rightarrow> item_ledger" where
  "deleteByLoop st loopId =
     st\<lparr>il_items := foldl mm_delete (il_items st) (map li_id (forLoop st loopId))\<rparr>"

end
