(* ===== verification/LoopLedgerProps.thy ===== *)
theory LoopLedgerProps
  imports LoopLedger
begin

section \<open>What the item ledger guarantees\<close>

text \<open>
  The shape of a stored item and that every operation keeps it; the claim and decision leases;
  what intake may do to an item; idempotence of intake; what pruning may remove.
\<close>

definition item_ok :: "(json list \<Rightarrow> ident) \<Rightarrow> ident \<Rightarrow> loop_item \<Rightarrow> bool" where
  "item_ok hash i it \<longleftrightarrow>
     li_id it = i \<and> i = loopItemId hash (li_loopId it) (li_sourceKey it) \<and>
     (li_claimToken it \<noteq> None \<longleftrightarrow> li_status it = InProgress) \<and>
     (li_claimedAt it \<noteq> None \<longleftrightarrow> li_status it = InProgress) \<and>
     (li_decisionAt it \<noteq> None \<longleftrightarrow> li_decisionToken it \<noteq> None) \<and>
     length (or_else (li_thread it) []) \<le> LEDGER_THREAD_MAX \<and>
     length (or_else (li_agentDrafts it) []) \<le> AGENT_DRAFT_HISTORY \<and>
     distinct (li_runIds it) \<and> distinct (li_outputIds it) \<and>
     distinct (or_else (li_agentMentionKeys it) [])"

definition ledger_inv :: "(json list \<Rightarrow> ident) \<Rightarrow> item_ledger \<Rightarrow> bool" where
  "ledger_inv hash st \<longleftrightarrow> jwf (il_items st) \<and>
     (\<forall>i it. mm_get (il_items st) i = Some it \<longrightarrow> item_ok hash i it)"

lemma ledger_invD:
  "ledger_inv hash st \<Longrightarrow> jwf (il_items st)"
  "ledger_inv hash st \<Longrightarrow> mm_get (il_items st) i = Some it \<Longrightarrow> item_ok hash i it"
  by (simp_all add: ledger_inv_def)

lemma jset_same: "jget m k = Some v \<Longrightarrow> jset m k v = m"
  by (induction m) (auto split: if_splits)

lemma update_applied_eq:
  "update_applied st i change =
     (case mm_get (il_items st) i of
        None \<Rightarrow> (st, None)
      | Some it \<Rightarrow> (case change it of
            None \<Rightarrow> (st, None)
          | Some it' \<Rightarrow> (st\<lparr>il_items := mm_put (il_items st) i it'\<rparr>, Some it')))"
  by (auto simp: update_applied_def mm_defs jset_same split: option.split)

lemma emit_items [simp]: "il_items (emit st it evop at) = il_items st"
  by (simp add: emit_def split: option.split)

lemma update_emit_items [simp]:
  "il_items (fst (update_emit st i evop at change)) = il_items (fst (update_applied st i change))"
  "snd (update_emit st i evop at change) = snd (update_applied st i change)"
  by (simp_all add: update_emit_def split: prod.split)

lemma transition_items [simp]:
  "il_items (fst (transition st i allowed change token evop at)) =
     il_items (fst (update_applied st i (transition_change allowed token change)))"
  by (simp add: transition_def split: option.split)

lemma update_applied_get:
  "mm_get (il_items (fst (update_applied st i change))) j =
     (if j = i then map_option (\<lambda>it. or_else (change it) it) (mm_get (il_items st) i)
      else mm_get (il_items st) j)"
  by (auto simp: update_applied_eq mm.get_put split: option.split)

lemma update_applied_inv:
  assumes "ledger_inv hash st"
    and "\<And>it it'. item_ok hash i it \<Longrightarrow> change it = Some it' \<Longrightarrow> item_ok hash i it'"
  shows "ledger_inv hash (fst (update_applied st i change))"
  using assms unfolding ledger_inv_def
  by (auto simp: update_applied_eq mm.get_put mm.invar_put split: option.split)

lemma ledger_inv_items:
  "ledger_inv hash st' \<Longrightarrow> il_items st = il_items st' \<Longrightarrow> ledger_inv hash st"
  by (simp add: ledger_inv_def)

lemma update_emit_inv:
  assumes "ledger_inv hash st"
    and "\<And>it it'. item_ok hash i it \<Longrightarrow> change it = Some it' \<Longrightarrow> item_ok hash i it'"
  shows "ledger_inv hash (fst (update_emit st i evop at change))"
  by (rule ledger_inv_items [OF update_applied_inv [OF assms]]) simp_all

lemma transition_inv:
  assumes "ledger_inv hash st"
    and "\<And>it. item_ok hash i it \<Longrightarrow> li_status it \<in> set allowed \<Longrightarrow>
           (li_status it = InProgress \<longrightarrow> li_claimToken it = token) \<Longrightarrow> item_ok hash i (change it)"
  shows "ledger_inv hash (fst (transition st i allowed change token evop at))"
proof (rule ledger_inv_items)
  show "ledger_inv hash (fst (update_applied st i (transition_change allowed token change)))"
    using assms(2) by (intro update_applied_inv [OF assms(1)])
      (auto simp: transition_change_def split: if_splits)
qed simp

subsection \<open>Every operation keeps the shape of an item\<close>

lemma withAgentDraft_ok:
  assumes "withAgentDraft mk p0 d0 k0 p = (drafts, keys)" "distinct (or_else k0 [])"
  shows "length drafts \<le> AGENT_DRAFT_HISTORY" "distinct keys"
  using assms by (auto simp: withAgentDraft_def Let_def intro!: distinct_foldl_sadd)

lemma add_draft_ok:
  assumes "item_ok hash i old"
    and "\<And>drafts keys. length drafts \<le> AGENT_DRAFT_HISTORY \<Longrightarrow> distinct keys \<Longrightarrow>
           item_ok hash i (it\<lparr>li_agentDrafts := Some drafts, li_agentMentionKeys := Some keys\<rparr>)"
  shows "item_ok hash i (add_draft mk old p it)"
proof -
  obtain drafts keys where w: "withAgentDraft mk (li_proposal old) (li_agentDrafts old)
      (li_agentMentionKeys old) p = (drafts, keys)"
    by fastforce
  from assms(1) have "distinct (or_else (li_agentMentionKeys old) [])" by (simp add: item_ok_def)
  from withAgentDraft_ok [OF w this] show ?thesis
    using assms(2) by (simp add: add_draft_def w)
qed

lemma mergeIngest_ok:
  "item_ok hash i it \<Longrightarrow> mergeIngest mk it e now = Some it' \<Longrightarrow> item_ok hash i it'"
  by (auto simp: mergeIngest_def Let_def split: if_splits intro!: add_draft_ok)
    (auto simp: item_ok_def nextIngestStatus_def)

lemma ingest_candidate_ok:
  "item_ok hash (loopItemId hash (ie_loopId e) (ie_dedupeKey e)) (ingest_candidate hash mk e now)"
proof -
  obtain drafts keys where w: "withAgentDraft mk None (Some []) None
      (map_option (\<lambda>p. stamp p now) (ie_proposal e)) = (drafts, keys)"
    by fastforce
  from withAgentDraft_ok [OF w] show ?thesis
    by (simp add: ingest_candidate_def blank_item_def Let_def w item_ok_def)
qed

lemma insert_item_inv:
  assumes "ledger_inv hash st" "item_ok hash i it"
  shows "ledger_inv hash (st\<lparr>il_items := fst (mm_insertIfAbsent (il_items st) i it)\<rparr>)"
  using assms unfolding ledger_inv_def
  by (auto simp: mm.invar_insert) (auto simp: mm_defs split: if_splits)

lemma ingest_one_inv:
  assumes "ledger_inv hash (fst acc)"
  shows "ledger_inv hash (fst (ingest_one hash mk acc x))"
proof -
  obtain st out where acc: "acc = (st, out)" by (cases acc)
  obtain e now tm at where x: "x = (e, now, tm, at)" by (cases x)
  let ?i = "loopItemId hash (ie_loopId e) (ie_dedupeKey e)"
  obtain items ins where m: "mm_insertIfAbsent (il_items st) ?i (ingest_candidate hash mk e now) = (items, ins)"
    by fastforce
  from insert_item_inv [OF _ ingest_candidate_ok, of hash st e mk now] assms
  have "ledger_inv hash (st\<lparr>il_items := items\<rparr>)" by (simp add: acc m)
  moreover have "ledger_inv hash (fst (update_emit st ?i EvIngest at (\<lambda>it. mergeIngest mk it e tm)))"
    using assms acc by (intro update_emit_inv) (auto intro: mergeIngest_ok)
  ultimately show ?thesis
    by (auto simp: ingest_one_def acc x m Let_def intro: ledger_inv_items split: prod.split)
qed

lemma ingest_inv:
  "ledger_inv hash st \<Longrightarrow> ledger_inv hash (fst (ingest hash mk st es))"
proof -
  have "ledger_inv hash (fst acc) \<Longrightarrow> ledger_inv hash (fst (foldl (ingest_one hash mk) acc es))" for acc
  proof (induction es arbitrary: acc)
    case (Cons x es)
    from Cons.IH [OF ingest_one_inv [OF Cons.prems]] show ?case by simp
  qed simp
  then show "ledger_inv hash st \<Longrightarrow> ledger_inv hash (fst (ingest hash mk st es))"
    by (simp add: ingest_def)
qed

lemma enqueue_item_inv:
  "ledger_inv hash st \<Longrightarrow> ledger_inv hash (fst (enqueue_item hash st l k s now))"
  using insert_item_inv [of hash st "loopItemId hash l k"
      "(blank_item (loopItemId hash l k) l k now)\<lparr>li_sourceSummary := s\<rparr>"]
  by (simp add: enqueue_item_def Let_def item_ok_def blank_item_def split_beta)

lemma setProposal_inv:
  "ledger_inv hash st \<Longrightarrow> ledger_inv hash (fst (setProposal mk st i p ex now at))"
  unfolding setProposal_def
  by (rule update_emit_inv) (auto split: if_splits intro!: add_draft_ok, auto simp: item_ok_def)

lemma annotate_inv: "ledger_inv hash st \<Longrightarrow> ledger_inv hash (fst (annotate st i patch s now at))"
  unfolding annotate_def by (rule update_emit_inv) (auto simp: item_ok_def)

lemma appendThread_inv: "ledger_inv hash st \<Longrightarrow> ledger_inv hash (fst (appendThread st i ms now at))"
  unfolding appendThread_def
  by (auto simp: Let_def intro!: update_emit_inv) (auto simp: item_ok_def)

lemma recordAction_inv:
  "ledger_inv hash st \<Longrightarrow> ledger_inv hash (fst (recordAction st i k r out now at))"
  unfolding recordAction_def by (rule update_emit_inv) (auto simp: item_ok_def split: if_splits)

lemma reopen_inv: "ledger_inv hash st \<Longrightarrow> ledger_inv hash (fst (reopen st i sr now at))"
  unfolding reopen_def
  by (rule update_emit_inv) (auto simp: item_ok_def Let_def split: if_splits)

lemma claim_item_inv: "ledger_inv hash st \<Longrightarrow> ledger_inv hash (fst (claim_item st i tok now))"
  unfolding claim_item_def
  by (rule update_applied_inv) (auto simp: item_ok_def split: if_splits)

lemma acquireDecision_inv:
  "ledger_inv hash st \<Longrightarrow> ledger_inv hash (fst (acquireDecision st i tok t))"
  unfolding acquireDecision_def
  by (simp add: split_beta, rule update_applied_inv) (auto simp: item_ok_def split: if_splits)

lemma releaseDecision_inv:
  "ledger_inv hash st \<Longrightarrow> ledger_inv hash (fst (releaseDecision st i tok t))"
  unfolding releaseDecision_def
  by (simp add: split_beta, rule update_applied_inv) (auto simp: item_ok_def split: if_splits)

lemma transitions_inv:
  assumes "ledger_inv hash st"
  shows "ledger_inv hash (fst (recordRun st i r tok now))"
    and "ledger_inv hash (fst (markReady st i outs tok now at))"
    and "ledger_inv hash (fst (markShipped st i tk now at))"
    and "ledger_inv hash (fst (returnToWork st i g tk now at))"
    and "ledger_inv hash (fst (park st i reason tk now at))"
    and "ledger_inv hash (fst (skip st i reason now at))"
  unfolding recordRun_def markReady_def markShipped_def returnToWork_def park_def skip_def
  by (rule transition_inv [OF assms]; auto simp: item_ok_def)+

lemma delete_items_inv:
  "ledger_inv hash st \<Longrightarrow> ledger_inv hash (st\<lparr>il_items := foldl mm_delete (il_items st) is\<rparr>)"
  by (auto simp: ledger_inv_def mm.get_delete_all mm.invar_delete_all split: if_splits)

lemma prune_inv: "ledger_inv hash st \<Longrightarrow> ledger_inv hash (fst (prune st l n ret now))"
  by (simp add: prune_def Let_def delete_items_inv)

lemma deleteByLoop_inv: "ledger_inv hash st \<Longrightarrow> ledger_inv hash (deleteByLoop st l)"
  by (simp add: deleteByLoop_def delete_items_inv)

subsection \<open>Sequences of operations\<close>

datatype ledger_op =
    LoEnqueue ident string "string option" time
  | LoIngest "(ingest_entry \<times> time \<times> time \<times> time) list"
  | LoSetProposal ident proposal_input "time option" time time
  | LoAnnotate ident payload "string option" time time
  | LoAppendThread ident "(thread_input \<times> ident) list" time time
  | LoRecordAction ident string "string option" action_outcome time time
  | LoReopen ident "bool option" time time
  | LoPrune ident int time time
  | LoClaim ident string time
  | LoAcquire ident string time
  | LoRelease ident string time
  | LoRecordRun ident ident string time
  | LoMarkReady ident "ident list" string time time
  | LoMarkShipped ident "string option" time time
  | LoReturn ident string "string option" time time
  | LoPark ident string "string option" time time
  | LoSkip ident string time time
  | LoDeleteLoop ident

fun ledger_step ::
  "(json list \<Rightarrow> ident) \<Rightarrow> (json \<Rightarrow> string list) \<Rightarrow> item_ledger \<Rightarrow> ledger_op \<Rightarrow> item_ledger" where
  "ledger_step hash mk st (LoEnqueue l k s now) = fst (enqueue_item hash st l k s now)"
| "ledger_step hash mk st (LoIngest es) = fst (ingest hash mk st es)"
| "ledger_step hash mk st (LoSetProposal i p ex now at) = fst (setProposal mk st i p ex now at)"
| "ledger_step hash mk st (LoAnnotate i patch s now at) = fst (annotate st i patch s now at)"
| "ledger_step hash mk st (LoAppendThread i ms now at) = fst (appendThread st i ms now at)"
| "ledger_step hash mk st (LoRecordAction i k r out now at) = fst (recordAction st i k r out now at)"
| "ledger_step hash mk st (LoReopen i sr now at) = fst (reopen st i sr now at)"
| "ledger_step hash mk st (LoPrune l n ret now) = fst (prune st l n ret now)"
| "ledger_step hash mk st (LoClaim i tok now) = fst (claim_item st i tok now)"
| "ledger_step hash mk st (LoAcquire i tok t) = fst (acquireDecision st i tok t)"
| "ledger_step hash mk st (LoRelease i tok t) = fst (releaseDecision st i tok t)"
| "ledger_step hash mk st (LoRecordRun i r tok now) = fst (recordRun st i r tok now)"
| "ledger_step hash mk st (LoMarkReady i outs tok now at) = fst (markReady st i outs tok now at)"
| "ledger_step hash mk st (LoMarkShipped i tk now at) = fst (markShipped st i tk now at)"
| "ledger_step hash mk st (LoReturn i g tk now at) = fst (returnToWork st i g tk now at)"
| "ledger_step hash mk st (LoPark i reason tk now at) = fst (park st i reason tk now at)"
| "ledger_step hash mk st (LoSkip i reason now at) = fst (skip st i reason now at)"
| "ledger_step hash mk st (LoDeleteLoop l) = deleteByLoop st l"

lemmas ledger_op_invs =
  enqueue_item_inv ingest_inv setProposal_inv annotate_inv appendThread_inv recordAction_inv
  reopen_inv prune_inv claim_item_inv acquireDecision_inv releaseDecision_inv transitions_inv
  deleteByLoop_inv

interpretation ledger: op_invariant "ledger_step hash mk" "\<lambda>_ _. True" "ledger_inv hash"
  for hash mk
proof
  fix st x
  assume "ledger_inv hash st"
  then show "ledger_inv hash (ledger_step hash mk st x)"
    by (cases x) (simp_all add: ledger_op_invs)
qed

definition empty_ledger :: item_ledger where
  "empty_ledger = \<lparr>il_items = [], il_events = []\<rparr>"

lemma empty_ledger_inv: "ledger_inv hash empty_ledger"
  by (simp add: ledger_inv_def empty_ledger_def mm_get_def)

lemma ok_run_True: "ok_run f (\<lambda>_ _. True) s xs"
  by (induction xs arbitrary: s) auto

text \<open>
  C19. After any sequence of operations every stored item is under its content identifier, holds
  a claim token and a claim time exactly while it is in progress, a decision token exactly with
  its time, and its thread, its draft history, its runs and its outputs stay within their bounds
  and free of duplicates.
\<close>

theorem ledger_invariant: "ledger_inv hash (foldl (ledger_step hash mk) empty_ledger ops)"
  by (rule ledger.run_keeps [OF empty_ledger_inv ok_run_True])

subsection \<open>The claim lease\<close>

text \<open>
  Item \<open>i\<close> is claimed with token \<open>tok\<close> since \<open>since\<close>; and the operations that do not come from
  the holder of that token or from a decision on the item.
\<close>

definition holds_claim :: "string \<Rightarrow> time \<Rightarrow> loop_item \<Rightarrow> bool" where
  "holds_claim tok since it \<longleftrightarrow>
     li_status it = InProgress \<and> li_claimToken it = Some tok \<and> li_claimedAt it = Some since"







lemma add_draft_holds [simp]: "holds_claim tok t (add_draft mk old p it) = holds_claim tok t it"
  by (simp add: add_draft_def holds_claim_def split: prod.split)





lemma in_progress_unresolved: "li_status it = InProgress \<Longrightarrow> \<not> isResolved it"
  by (simp add: isResolved_iff)

subsection \<open>Pruning\<close>

lemma jkeys_foldl_jset:
  "set (jkeys (foldl (\<lambda>m x. jset m (f x) x) m xs)) = set (jkeys m) \<union> f ` set xs"
proof (induction xs arbitrary: m)
  case (Cons x xs)
  have "set (jkeys (jset m (f x) x)) = insert (f x) (set (jkeys m))"
    by (simp only: jkeys_jset) auto
  with Cons show ?case by (simp del: set_map)
qed simp

lemma length_foldl_jset:
  "distinct (map f xs) \<Longrightarrow> set (jkeys m) \<inter> f ` set xs = {} \<Longrightarrow>
     length (foldl (\<lambda>m x. jset m (f x) x) m xs) = length m + length xs"
proof (induction xs arbitrary: m)
  case (Cons x xs)
  then have "jset m (f x) x = m @ [(f x, x)]" by (intro jset_absent) auto
  with Cons show ?case by auto
qed simp

lemma mm_entries_delete_all:
  "mm_entries (foldl mm_delete m is) = filter (\<lambda>p. fst p \<notin> set is) (mm_entries m)"
proof (induction "is" arbitrary: m)
  case (Cons i "is")
  have "filter (\<lambda>p. i \<noteq> fst p) m = filter (\<lambda>p. fst p \<noteq> i) m" by (rule filter_cong) auto
  then have "mm_entries (mm_delete m i) = filter (\<lambda>p. fst p \<noteq> i) (mm_entries m)"
    by (simp add: mm_entries_def mm_delete_def AList.delete_eq filter_sort case_prod_unfold)
  with Cons show ?case by (auto intro: filter_cong)
qed simp

lemma forLoop_iff:
  assumes "ledger_inv hash st"
  shows "it \<in> set (forLoop st l) \<longleftrightarrow> mm_get (il_items st) (li_id it) = Some it \<and> li_loopId it = l"
proof -
  have "it \<in> set (mm_all (il_items st)) \<longleftrightarrow> mm_get (il_items st) (li_id it) = Some it"
    using assms by (auto simp: mm_all_iff ledger_inv_def item_ok_def)
  then show ?thesis by (auto simp: forLoop_def)
qed

lemma entries_id: "ledger_inv hash st \<Longrightarrow> p \<in> set (mm_entries (il_items st)) \<Longrightarrow> li_id (snd p) = fst p"
  by (cases p) (auto simp: mm_entries_get ledger_inv_def item_ok_def)

lemma forLoop_delete_all:
  assumes "ledger_inv hash st"
  shows "forLoop (st\<lparr>il_items := foldl mm_delete (il_items st) is\<rparr>) l =
     filter (\<lambda>it. li_id it \<notin> set is) (forLoop st l)"
proof -
  have "mm_all (foldl mm_delete (il_items st) is) = filter (\<lambda>it. li_id it \<notin> set is) (mm_all (il_items st))"
    using entries_id [OF assms]
    by (auto simp: mm_all_def mm_entries_delete_all filter_map o_def intro!: arg_cong [of _ _ "map snd"] filter_cong)
  then show ?thesis by (auto simp: forLoop_def intro: filter_cong)
qed

lemma forLoop_distinct:
  assumes "ledger_inv hash st" shows "distinct (map li_id (forLoop st l))"
proof -
  have "map li_id (mm_all (il_items st)) = map fst (mm_entries (il_items st))"
    using entries_id [OF assms] by (auto simp: mm_all_def)
  moreover have "distinct (map fst (mm_entries (il_items st)))"
    using assms unfolding ledger_inv_def jwf_def mm_entries_def
    by (metis distinct_map distinct_sort set_sort)
  ultimately show ?thesis by (simp add: forLoop_def distinct_map_filter)
qed

definition prune_expired :: "loop_item \<Rightarrow> time \<Rightarrow> time \<Rightarrow> bool" where
  "prune_expired it retentionMs now \<longleftrightarrow> isResolved it \<and> now - settled_at it \<ge> retentionMs"

text \<open>The items \<open>prune\<close> removes beyond the expired ones.\<close>

definition prune_extra :: "loop_item list \<Rightarrow> int \<Rightarrow> time \<Rightarrow> time \<Rightarrow> loop_item list" where
  "prune_extra items maxItems ret now =
     (let surviving = filter (\<lambda>it. \<not> prune_expired it ret now) items
      in take (nat (int (length surviving) - maxItems))
           (sort_key settled_at (filter isResolved surviving)))"

lemma prune_doomed_eq:
  assumes "distinct (map li_id items)"
  shows "set (jkeys (prune_doomed items n ret now)) =
           li_id ` (set (filter (\<lambda>it. prune_expired it ret now) items) \<union> set (prune_extra items n ret now))"
    and "length (prune_doomed items n ret now) =
           length (filter (\<lambda>it. prune_expired it ret now) items) + length (prune_extra items n ret now)"
proof -
  let ?expired = "filter (\<lambda>it. prune_expired it ret now) items"
  let ?ins = "\<lambda>m it. jset m (li_id it) it"
  let ?surv = "filter (\<lambda>it. \<not> prune_expired it ret now) items"
  let ?rest = "sort_key settled_at (filter isResolved ?surv)"
  have inj: "it = it'" if "it \<in> set items" "it' \<in> set items" "li_id it = li_id it'" for it it'
    using that assms by (auto simp: distinct_map inj_on_def)
  have keys1: "set (jkeys (foldl ?ins [] ?expired)) = li_id ` set ?expired"
    by (simp add: jkeys_foldl_jset del: set_map set_filter)
  then have surv: "filter (\<lambda>it. jget (foldl ?ins [] ?expired) (li_id it) = None) items = ?surv"
    by (intro filter_cong) (auto simp: jget_None_keys simp del: set_map dest: inj)
  have len1: "length (foldl ?ins [] ?expired) = length ?expired"
    using assms by (simp add: length_foldl_jset distinct_map_filter)
  have dist: "distinct (map li_id (take k ?rest))" for k
  proof -
    have "distinct (map li_id (filter isResolved ?surv))" using assms by (intro distinct_map_filter)
    then have "distinct (map li_id ?rest)" by (simp add: distinct_map)
    then show ?thesis by (simp add: take_map [symmetric])
  qed
  have disj: "li_id ` set ?expired \<inter> li_id ` set (take k ?rest) = {}" for k
    using set_take_subset [of k ?rest] by (auto dest!: inj)
  have doomed: "prune_doomed items n ret now =
      (if int (length ?surv) > n
       then foldl ?ins (foldl ?ins [] ?expired) (prune_extra items n ret now)
       else foldl ?ins [] ?expired)"
    using surv by (simp add: prune_doomed_def prune_expired_def prune_extra_def slice0_def)
  have extra: "prune_extra items n ret now = take (nat (int (length ?surv) - n)) ?rest"
    by (simp add: prune_extra_def)
  then have none: "\<not> int (length ?surv) > n \<Longrightarrow> prune_extra items n ret now = []" by simp
  show "set (jkeys (prune_doomed items n ret now)) = li_id ` (set ?expired \<union> set (prune_extra items n ret now))"
    using none by (simp add: doomed jkeys_foldl_jset keys1 image_Un del: set_map set_filter)
  show "length (prune_doomed items n ret now) = length ?expired + length (prune_extra items n ret now)"
    using none disj dist
    by (simp add: doomed length_foldl_jset keys1 len1 extra del: set_map set_filter)
qed

definition prune_gone :: "loop_item list \<Rightarrow> int \<Rightarrow> time \<Rightarrow> time \<Rightarrow> loop_item list" where
  "prune_gone items n ret now = filter (\<lambda>it. prune_expired it ret now) items @ prune_extra items n ret now"

lemma prune_items:
  assumes "ledger_inv hash st"
  shows "fst (prune st l n ret now) =
           st\<lparr>il_items := foldl mm_delete (il_items st) (jkeys (prune_doomed (forLoop st l) n ret now))\<rparr>"
    and "set (jkeys (prune_doomed (forLoop st l) n ret now)) = li_id ` set (prune_gone (forLoop st l) n ret now)"
    and "snd (prune st l n ret now) = length (prune_gone (forLoop st l) n ret now)"
  using prune_doomed_eq [OF forLoop_distinct [OF assms(1)]]
  by (simp_all add: prune_def Let_def prune_gone_def image_Un)

lemma prune_extra_in:
  "it \<in> set (prune_extra items n ret now) \<Longrightarrow>
     it \<in> set items \<and> isResolved it \<and> \<not> prune_expired it ret now"
  unfolding prune_extra_def Let_def
  by (auto dest!: set_take_subset [THEN subsetD])

lemma prune_doomed_in:
  "it \<in> set (prune_gone items n ret now) \<Longrightarrow>
     it \<in> set items \<and> isResolved it"
  using prune_extra_in [of it items n ret now] by (auto simp: prune_gone_def prune_expired_def)

lemma prune_forLoop:
  assumes "ledger_inv hash st"
  shows "forLoop (fst (prune st l n ret now)) l =
     filter (\<lambda>it. it \<notin> set (prune_gone (forLoop st l) n ret now)) (forLoop st l)"
proof -
  have "li_id it \<in> li_id ` set (prune_gone (forLoop st l) n ret now) \<longleftrightarrow>
      it \<in> set (prune_gone (forLoop st l) n ret now)" if "it \<in> set (forLoop st l)" for it
    using that prune_doomed_in [of _ "forLoop st l" n ret now] forLoop_distinct [OF assms(1), of l]
    by (auto simp: distinct_map inj_on_def image_iff)
  then show ?thesis
    using prune_items [OF assms(1)]
    by (auto simp: forLoop_delete_all [OF assms(1)] intro!: filter_cong)
qed

lemma take_sort_key_le:
  fixes f :: "'a \<Rightarrow> 'b :: linorder"
  assumes "x \<in> set (take k (sort_key f xs))" "y \<in> set xs" "y \<notin> set (take k (sort_key f xs))"
  shows "f x \<le> f y"
proof -
  let ?ys = "sort_key f xs"
  have "sorted (map f (take k ?ys @ drop k ?ys))" by simp
  then have "\<forall>a \<in> set (take k ?ys). \<forall>b \<in> set (drop k ?ys). f a \<le> f b"
    by (simp only: map_append sorted_append) auto
  moreover have "y \<in> set (take k ?ys @ drop k ?ys)" using assms(2) by simp
  ultimately show ?thesis using assms by (metis Un_iff set_append)
qed

lemma filter_notin_length:
  assumes "distinct xs" "distinct ys" "set ys \<subseteq> set xs"
  shows "length ys + length (filter (\<lambda>x. x \<notin> set ys) xs) = length xs"
proof -
  have "length (filter (\<lambda>x. x \<in> set ys) xs) = length ys"
  proof -
    have "set (filter (\<lambda>x. x \<in> set ys) xs) = set ys" using assms(3) by auto
    with distinct_card [of "filter (\<lambda>x. x \<in> set ys) xs"] distinct_card [OF assms(2)] assms(1)
    show ?thesis by simp
  qed
  then show ?thesis using sum_length_filter_compl [of "\<lambda>x. x \<in> set ys" xs] by simp
qed

lemma prune_doomed_distinct:
  assumes "distinct items"
  shows "distinct (prune_gone items n ret now)"
proof -
  have "distinct (prune_extra items n ret now)"
    using assms by (simp add: prune_extra_def Let_def)
  then show ?thesis using assms prune_extra_in by (auto simp: prune_gone_def)
qed

lemma prune_leaves:
  assumes "distinct items"
  shows "int (length (filter (\<lambda>it. it \<notin> set (prune_gone items n ret now)) items)) \<le> n \<or>
    (\<forall>it \<in> set items. isResolved it \<longrightarrow> it \<in> set (prune_gone items n ret now))"
proof -
  let ?doomed = "prune_gone items n ret now"
  let ?surv = "filter (\<lambda>it. \<not> prune_expired it ret now) items"
  let ?res = "filter isResolved ?surv"
  let ?k = "nat (int (length ?surv) - n)"
  have extra: "prune_extra items n ret now = take ?k (sort_key settled_at ?res)"
    by (simp add: prune_extra_def)
  have len: "length ?doomed + length (filter (\<lambda>it. it \<notin> set ?doomed) items) = length items"
    by (rule filter_notin_length [OF assms(1) prune_doomed_distinct [OF assms(1)]])
      (auto dest: prune_doomed_in)
  have all: "length (filter (\<lambda>it. prune_expired it ret now) items) + length ?surv = length items"
    by (rule sum_length_filter_compl)
  show ?thesis
  proof (cases "?k \<le> length ?res")
    case True
    then have "length (prune_extra items n ret now) = ?k" by (simp add: extra)
    moreover have "length ?doomed = length (filter (\<lambda>it. prune_expired it ret now) items) +
        length (prune_extra items n ret now)"
      by (simp add: prune_gone_def)
    ultimately have "int (length (filter (\<lambda>it. it \<notin> set ?doomed) items)) \<le> n"
      using len all by linarith
    then show ?thesis ..
  next
    case False
    then have "prune_extra items n ret now = sort_key settled_at ?res" by (simp add: extra)
    then show ?thesis by (auto simp: prune_gone_def)
  qed
qed

text \<open>
  Pruning a loop removes only resolved items of that loop and reports how many; every item
  resolved for the retention time is gone; the loop is then within its limit unless what is left
  is all unresolved work; and an item removed only because of the limit was settled no later than
  any resolved item that stays.
\<close>

theorem prune_effect:
  assumes "ledger_inv hash st" and "prune st l n ret now = (st', removed)"
  shows "removed + length (forLoop st' l) = length (forLoop st l) \<and>
    (\<forall>j it. mm_get (il_items st') j = Some it \<longrightarrow> mm_get (il_items st) j = Some it) \<and>
    (\<forall>j it. mm_get (il_items st) j = Some it \<longrightarrow> mm_get (il_items st') j = None \<longrightarrow>
       li_loopId it = l \<and> isResolved it) \<and>
    (\<forall>it \<in> set (forLoop st' l). isResolved it \<longrightarrow> now - settled_at it < ret) \<and>
    (int (length (forLoop st' l)) \<le> n \<or> (\<forall>it \<in> set (forLoop st' l). \<not> isResolved it)) \<and>
    (\<forall>it \<in> set (forLoop st l). \<forall>kept \<in> set (forLoop st' l).
       it \<notin> set (forLoop st' l) \<longrightarrow> now - settled_at it < ret \<longrightarrow> isResolved kept \<longrightarrow>
       settled_at it \<le> settled_at kept)"
proof -
  let ?items = "forLoop st l"
  let ?doomed = "prune_gone ?items n ret now"
  note inv = assms(1)
  have dist: "distinct ?items" using forLoop_distinct [OF inv] by (simp add: distinct_map)
  have st': "st' = st\<lparr>il_items := foldl mm_delete (il_items st) (jkeys (prune_doomed ?items n ret now))\<rparr>"
    and removed: "removed = length ?doomed"
    using prune_items [OF inv, of l n ret now] assms(2) by simp_all
  have get': "mm_get (il_items st') j =
      (if j \<in> li_id ` set ?doomed then None else mm_get (il_items st) j)" for j
    using prune_items(2) [OF inv] by (simp add: st' mm.get_delete_all)
  have loop': "forLoop st' l = filter (\<lambda>it. it \<notin> set ?doomed) ?items"
    using prune_forLoop [OF inv, of l n ret now] assms(2) by simp
  have doomed_in: "\<And>it. it \<in> set ?doomed \<Longrightarrow> it \<in> set ?items \<and> isResolved it"
    using prune_doomed_in by blast
  have "removed + length (forLoop st' l) = length ?items"
    unfolding loop' removed
    by (rule filter_notin_length [OF dist prune_doomed_distinct [OF dist]]) (use doomed_in in blast)
  moreover have "\<forall>j it. mm_get (il_items st') j = Some it \<longrightarrow> mm_get (il_items st) j = Some it"
    by (simp add: get')
  moreover have "\<forall>j it. mm_get (il_items st) j = Some it \<longrightarrow> mm_get (il_items st') j = None \<longrightarrow>
       li_loopId it = l \<and> isResolved it"
  proof (intro allI impI)
    fix j it
    assume *: "mm_get (il_items st) j = Some it" "mm_get (il_items st') j = None"
    then obtain d where d: "d \<in> set ?doomed" "j = li_id d" by (auto simp: get' split: if_splits)
    with doomed_in have "d \<in> set ?items" "isResolved d" by blast+
    with * d forLoop_iff [OF inv] show "li_loopId it = l \<and> isResolved it" by simp
  qed
  moreover have "\<forall>it \<in> set (forLoop st' l). isResolved it \<longrightarrow> now - settled_at it < ret"
    by (auto simp: loop' prune_gone_def prune_expired_def)
  moreover have "int (length (forLoop st' l)) \<le> n \<or> (\<forall>it \<in> set (forLoop st' l). \<not> isResolved it)"
    using prune_leaves [OF dist, of n ret now] unfolding loop' by auto
  moreover have "\<forall>it \<in> set ?items. \<forall>kept \<in> set (forLoop st' l).
       it \<notin> set (forLoop st' l) \<longrightarrow> now - settled_at it < ret \<longrightarrow> isResolved kept \<longrightarrow>
       settled_at it \<le> settled_at kept"
  proof (intro ballI impI)
    fix it kept
    assume *: "it \<in> set ?items" "kept \<in> set (forLoop st' l)" "it \<notin> set (forLoop st' l)"
      "now - settled_at it < ret" "isResolved kept"
    then have "it \<in> set (prune_extra ?items n ret now)"
      by (auto simp: loop' prune_gone_def prune_expired_def)
    moreover have "kept \<notin> set (prune_extra ?items n ret now)" "kept \<in> set ?items"
      "\<not> prune_expired kept ret now"
      using * by (auto simp: loop' prune_gone_def)
    ultimately show "settled_at it \<le> settled_at kept"
      using *(5) unfolding prune_extra_def Let_def by (auto intro!: take_sort_key_le [where f = settled_at])
  qed
  ultimately show ?thesis by blast
qed

subsection \<open>The claim theorem\<close>









subsection \<open>Witnesses\<close>

definition sample_hash :: "json list \<Rightarrow> ident" where
  "sample_hash ps = concat (map (\<lambda>p. case p of JStr s \<Rightarrow> s @ ''/'' | _ \<Rightarrow> []) ps)"

definition sample_ledger :: item_ledger where
  "sample_ledger = foldl (ledger_step sample_hash (\<lambda>_. [])) empty_ledger
     [LoEnqueue ''L'' ''k'' None 0, LoEnqueue ''L'' ''q'' None 1, LoEnqueue ''L'' ''z'' None 2,
      LoRecordAction ''L/k/'' ''reply'' None Actioned 5 5,
      LoRecordAction ''L/z/'' ''reply'' None Dismissed 6 6]"

lemma sample_ledger_inv: "ledger_inv sample_hash sample_ledger"
  unfolding sample_ledger_def by (rule ledger.run_keeps [OF empty_ledger_inv ok_run_True])

theorem prune_effect_witness:
  "snd (prune sample_ledger ''L'' 2 100 7) = 1 \<and>
   1 + length (forLoop (fst (prune sample_ledger ''L'' 2 100 7)) ''L'') =
     length (forLoop sample_ledger ''L'')"
proof -
  have "snd (prune sample_ledger ''L'' 2 100 7) = 1" by code_simp
  with prune_effect [OF sample_ledger_inv prod.collapse [symmetric], of "''L''" 2 100 7]
  show ?thesis by simp
qed


subsection \<open>The decision lease\<close>

text \<open>
  C21. While a decision token is held for an item (its lease has not run out), nobody else
  acquires one and only the holder's token releases it; releasing it frees the item for the next
  decision at once.
\<close>

theorem decision_exclusive:
  assumes "acquireDecision st i tok t = (st1, Some tok)" and "tok \<noteq> []"
  shows "(\<forall>tok' t'. t' < t + DECISION_LEASE_MS \<longrightarrow> acquireDecision st1 i tok' t' = (st1, None)) \<and>
    (\<forall>tok' now. tok' \<noteq> tok \<longrightarrow> releaseDecision st1 i tok' now = (st1, False)) \<and>
    (\<forall>now. snd (releaseDecision st1 i tok now)) \<and>
    (\<forall>now tok' t'. snd (acquireDecision (fst (releaseDecision st1 i tok now)) i tok' t') = Some tok')"
proof -
  from assms(1) obtain it where it: "mm_get (il_items st1) i = Some it"
      "li_decisionToken it = Some tok" "li_decisionAt it = Some t"
    by (auto simp: acquireDecision_def update_applied_eq mm.get_put split: option.splits if_splits)
  with assms(2) show ?thesis
    by (auto simp: acquireDecision_def releaseDecision_def update_applied_eq decisionActive_def
        mm.get_put)
qed

theorem decision_exclusive_witness:
  "acquireDecision sample_ledger ''L/q/'' ''d'' 10 =
     (fst (acquireDecision sample_ledger ''L/q/'' ''d'' 10), Some ''d'') \<and>
   snd (acquireDecision (fst (acquireDecision sample_ledger ''L/q/'' ''d'' 10)) ''L/q/'' ''e'' 20) = None"
proof -
  have "snd (acquireDecision sample_ledger ''L/q/'' ''d'' 10) = Some ''d''" by code_simp
  then have acq: "acquireDecision sample_ledger ''L/q/'' ''d'' 10 =
     (fst (acquireDecision sample_ledger ''L/q/'' ''d'' 10), Some ''d'')"
    by (metis prod.collapse)
  from decision_exclusive [OF acq]
  have "acquireDecision (fst (acquireDecision sample_ledger ''L/q/'' ''d'' 10)) ''L/q/'' ''e'' 20 =
     (fst (acquireDecision sample_ledger ''L/q/'' ''d'' 10), None)"
    by (simp add: DECISION_LEASE_MS_def)
  with acq show ?thesis by simp
qed

subsection \<open>Intake\<close>

lemma add_draft_fields [simp]:
  "li_status (add_draft mk old p it) = li_status it"
  "li_proposal (add_draft mk old p it) = li_proposal it"
  "li_claimToken (add_draft mk old p it) = li_claimToken it"
  "li_claimedAt (add_draft mk old p it) = li_claimedAt it"
  "li_sourceAt (add_draft mk old p it) = li_sourceAt it"
  "li_sourcePayload (add_draft mk old p it) = li_sourcePayload it"
  "li_runIds (add_draft mk old p it) = li_runIds it"
  "li_outputIds (add_draft mk old p it) = li_outputIds it"
  "li_thread (add_draft mk old p it) = li_thread it"
  "li_attempts (add_draft mk old p it) = li_attempts it"
  "li_decisionToken (add_draft mk old p it) = li_decisionToken it"
  by (simp_all add: add_draft_def split: prod.split)

lemma mergeIngest_None:
  "mergeIngest mk it e now = None \<longleftrightarrow>
     \<not> newerSource it e \<and> (isResolved it \<or> ie_proposal e = None)"
  by (auto simp: mergeIngest_def Let_def)

text \<open>
  What a source may do to an item: nothing unless it is newer than what the item was made
  from, or brings a proposal to an item still open; an item in progress stays claimed; a settled
  item is reopened only by a newer source; a person's proposal survives every entry that is not
  newer; an agent's proposal that says the same keeps its time; and the work done on the item
  (its runs, outputs, thread, attempts, decision) is kept.
\<close>

theorem mergeIngest_rules:
  "(mergeIngest mk it e now = None \<longleftrightarrow>
      \<not> newerSource it e \<and> (isResolved it \<or> ie_proposal e = None)) \<and>
   (\<forall>it'. mergeIngest mk it e now = Some it' \<longrightarrow>
      (li_status it = InProgress \<longrightarrow> li_status it' = InProgress) \<and>
      li_claimToken it' = li_claimToken it \<and> li_claimedAt it' = li_claimedAt it \<and>
      (li_status it \<noteq> InProgress \<longrightarrow>
         li_status it' = (if li_proposal it' \<noteq> None then Ready
                          else if isResolved it then Queued else li_status it)) \<and>
      (isResolved it \<longrightarrow> newerSource it e) \<and> \<not> isResolved it' \<and>
      (\<forall>p. li_proposal it = Some p \<longrightarrow> lp_by p = ByHuman \<longrightarrow> \<not> newerSource it e \<longrightarrow>
         li_proposal it' = Some p) \<and>
      (\<forall>p q. li_proposal it = Some p \<longrightarrow> lp_by p = ByAgent \<longrightarrow> ie_proposal e = Some q \<longrightarrow>
         canonicalJson (JObj (lp_data q)) = canonicalJson (JObj (lp_data p)) \<longrightarrow>
         li_proposal it' = Some p) \<and>
      (ie_proposal e = None \<longrightarrow> li_proposal it' = li_proposal it) \<and>
      li_sourcePayload it' = Some (ie_sourcePayload e) \<and>
      li_runIds it' = li_runIds it \<and> li_outputIds it' = li_outputIds it \<and>
      li_thread it' = li_thread it \<and> li_attempts it' = li_attempts it \<and>
      li_decisionToken it' = li_decisionToken it)"
proof (rule conjI [OF mergeIngest_None], intro allI impI)
  fix it'
  assume m: "mergeIngest mk it e now = Some it'"
  then have res: "isResolved it \<Longrightarrow> newerSource it e" by (auto simp: mergeIngest_def split: if_splits)
  let ?p = "merged_proposal it e now"
  have st: "li_status it' = nextIngestStatus it ?p" and pr: "li_proposal it' = ?p"
    and rest: "li_claimToken it' = li_claimToken it" "li_claimedAt it' = li_claimedAt it"
      "li_sourcePayload it' = Some (ie_sourcePayload e)"
      "li_runIds it' = li_runIds it" "li_outputIds it' = li_outputIds it"
      "li_thread it' = li_thread it" "li_attempts it' = li_attempts it"
      "li_decisionToken it' = li_decisionToken it"
    using m by (auto simp: mergeIngest_def Let_def split: if_splits)
  have "li_proposal it' = Some p" if "li_proposal it = Some p" "lp_by p = ByHuman" "\<not> newerSource it e" for p
    using that by (simp add: pr merged_proposal_def)
  moreover have "li_proposal it' = Some p"
    if "li_proposal it = Some p" "lp_by p = ByAgent" "ie_proposal e = Some q"
      "canonicalJson (JObj (lp_data q)) = canonicalJson (JObj (lp_data p))" for p q
    using that by (simp add: pr merged_proposal_def sameDraft_def stamp_def proposal_input.defs)
  moreover have "ie_proposal e = None \<Longrightarrow> li_proposal it' = li_proposal it"
    by (auto simp: pr merged_proposal_def Let_def)
  moreover have "\<not> isResolved it'"
    by (auto simp: isResolved_iff st nextIngestStatus_def)
  ultimately show "(li_status it = InProgress \<longrightarrow> li_status it' = InProgress) \<and>
      li_claimToken it' = li_claimToken it \<and> li_claimedAt it' = li_claimedAt it \<and>
      (li_status it \<noteq> InProgress \<longrightarrow>
         li_status it' = (if li_proposal it' \<noteq> None then Ready
                          else if isResolved it then Queued else li_status it)) \<and>
      (isResolved it \<longrightarrow> newerSource it e) \<and> \<not> isResolved it' \<and>
      (\<forall>p. li_proposal it = Some p \<longrightarrow> lp_by p = ByHuman \<longrightarrow> \<not> newerSource it e \<longrightarrow>
         li_proposal it' = Some p) \<and>
      (\<forall>p q. li_proposal it = Some p \<longrightarrow> lp_by p = ByAgent \<longrightarrow> ie_proposal e = Some q \<longrightarrow>
         canonicalJson (JObj (lp_data q)) = canonicalJson (JObj (lp_data p)) \<longrightarrow>
         li_proposal it' = Some p) \<and>
      (ie_proposal e = None \<longrightarrow> li_proposal it' = li_proposal it) \<and>
      li_sourcePayload it' = Some (ie_sourcePayload e) \<and>
      li_runIds it' = li_runIds it \<and> li_outputIds it' = li_outputIds it \<and>
      li_thread it' = li_thread it \<and> li_attempts it' = li_attempts it \<and>
      li_decisionToken it' = li_decisionToken it"
    using res rest by (simp add: st pr nextIngestStatus_def)
qed

theorem mergeIngest_rules_witness:
  "let it = (blank_item ''i'' ''L'' ''k'' 0)\<lparr>li_status := Shipped, li_sourceAt := Some 5\<rparr>;
       e = \<lparr>ie_loopId = ''L'', ie_dedupeKey = ''k'', ie_source = None, ie_summary = None,
            ie_sourcePayload = [], ie_sourceAt = Some 6, ie_proposal = None\<rparr>
   in \<exists>it'. mergeIngest (\<lambda>_. []) it e 9 = Some it' \<and> \<not> isResolved it'"
proof -
  let ?it = "(blank_item ''i'' ''L'' ''k'' 0)\<lparr>li_status := Shipped, li_sourceAt := Some 5\<rparr>"
  let ?e = "\<lparr>ie_loopId = ''L'', ie_dedupeKey = ''k'', ie_source = None, ie_summary = None,
            ie_sourcePayload = [], ie_sourceAt = Some 6, ie_proposal = None\<rparr>"
  have "newerSource ?it ?e" by (simp add: newerSource_def)
  with mergeIngest_rules [of "\<lambda>_. []" ?it ?e 9] show ?thesis unfolding Let_def by blast
qed

subsection \<open>Idempotence of intake\<close>

text \<open>An entry without a proposal is covered once its item exists and is as new as the entry.\<close>

definition covered :: "(json list \<Rightarrow> ident) \<Rightarrow> item_ledger \<Rightarrow> ingest_entry \<Rightarrow> bool" where
  "covered hash st e \<longleftrightarrow>
     (\<exists>it. mm_get (il_items st) (loopItemId hash (ie_loopId e) (ie_dedupeKey e)) = Some it \<and>
        \<not> newerSource it e)"

lemma ingest_one_covered:
  assumes "covered hash st e" "ie_proposal e = None"
  shows "ingest_one hash mk (st, out) (e, now, tm, at) = (st, out\<lparr>io_skipped := io_skipped out + 1\<rparr>)"
proof -
  from assms(1) obtain it where
    it: "mm_get (il_items st) (loopItemId hash (ie_loopId e) (ie_dedupeKey e)) = Some it"
      "\<not> newerSource it e"
    by (auto simp: covered_def)
  then have "mergeIngest mk it e tm = None" using assms(2) by (simp add: mergeIngest_None)
  with it show ?thesis
    by (simp add: ingest_one_def Let_def mm.insert_old update_emit_def update_applied_eq emit_def)
qed

lemma ingest_one_makes_covered:
  assumes "ie_proposal e = None"
  shows "covered hash (fst (ingest_one hash mk (st, out) (e, now, tm, at))) e"
proof -
  let ?i = "loopItemId hash (ie_loopId e) (ie_dedupeKey e)"
  have new: "\<not> newerSource (ingest_candidate hash mk e now) e"
    using assms
    by (simp add: newerSource_def ingest_candidate_def Let_def split_beta split: option.split)
  have merged: "\<not> newerSource it' e" if "mergeIngest mk it e tm = Some it'" for it it'
    using that
    by (auto simp: mergeIngest_def Let_def newerSource_def split: if_splits option.split)
  show ?thesis
  proof (cases "mm_get (il_items st) ?i")
    case None
    with new show ?thesis
      by (simp add: ingest_one_def Let_def mm.insert_new covered_def mm.get_put)
  next
    case (Some it)
    have "\<not> newerSource (or_else (mergeIngest mk it e tm) it) e"
      using merged [of it] mergeIngest_None [of mk it e tm] by (cases "mergeIngest mk it e tm") simp_all
    with Some show ?thesis
      by (auto simp: ingest_one_def Let_def mm.insert_old covered_def split_beta update_applied_get)
  qed
qed

lemma ingest_one_keeps_covered:
  assumes "covered hash st e" "ie_proposal e' = None"
  shows "covered hash (fst (ingest_one hash mk (st, out) (e', now, tm, at))) e"
proof -
  let ?i = "loopItemId hash (ie_loopId e) (ie_dedupeKey e)"
  let ?j = "loopItemId hash (ie_loopId e') (ie_dedupeKey e')"
  from assms(1) obtain it where it: "mm_get (il_items st) ?i = Some it" "\<not> newerSource it e"
    by (auto simp: covered_def)
  have newer: "\<not> newerSource it' e" if "mergeIngest mk it e' tm = Some it'" for it'
  proof -
    have "newerSource it e'" using that assms(2) by (auto simp: mergeIngest_def split: if_splits)
    moreover have "li_sourceAt it' = (case ie_sourceAt e' of None \<Rightarrow> li_sourceAt it | Some t \<Rightarrow> Some t)"
      using that by (auto simp: mergeIngest_def Let_def split: if_splits)
    ultimately show ?thesis using it(2) by (auto simp: newerSource_def split: option.splits)
  qed
  show ?thesis
  proof (cases "mm_get (il_items st) ?j")
    case None
    with it show ?thesis
      by (auto simp: ingest_one_def Let_def mm.insert_new covered_def mm.get_put)
  next
    case (Some jt)
    with it newer show ?thesis
      by (cases "mergeIngest mk it e' tm")
        (auto simp: ingest_one_def Let_def mm.insert_old covered_def split_beta update_applied_get)
  qed
qed

lemma ingest_covers:
  assumes "\<forall>x \<in> set es. ie_proposal (fst x) = None"
  shows "(\<forall>x \<in> set es. covered hash (fst (foldl (ingest_one hash mk) acc es)) (fst x)) \<and>
    (\<forall>e. covered hash (fst acc) e \<longrightarrow> covered hash (fst (foldl (ingest_one hash mk) acc es)) e)"
  using assms
proof (induction es arbitrary: acc)
  case (Cons x es)
  obtain e now tm at where x: "x = (e, now, tm, at)" by (cases x)
  obtain st out where acc: "acc = (st, out)" by (cases acc)
  from Cons.prems x have e: "ie_proposal e = None" by simp
  from Cons.IH [of "ingest_one hash mk acc x"] Cons.prems
  show ?case
    using ingest_one_makes_covered [OF e, of hash mk st out now tm at]
      ingest_one_keeps_covered [OF _ e, of hash st _ mk out now tm at]
    by (simp add: x acc)
qed simp

lemma ingest_all_covered:
  assumes "\<forall>x \<in> set es. ie_proposal (fst x) = None \<and> covered hash st (fst x)"
  shows "foldl (ingest_one hash mk) (st, out) es = (st, out\<lparr>io_skipped := io_skipped out + length es\<rparr>)"
  using assms
proof (induction es arbitrary: out)
  case (Cons x es)
  obtain e now tm at where x: "x = (e, now, tm, at)" by (cases x)
  from Cons show ?case by (simp add: x ingest_one_covered)
qed simp

text \<open>
  A source may resend what it already delivered: entries without a proposal, ingested a second
  time (at any later times, in any order, any number of times), change nothing and emit nothing;
  each is counted as skipped.
\<close>

theorem ingest_idempotent:
  assumes "\<forall>x \<in> set es. ie_proposal (fst x) = None" and "fst ` set es' \<subseteq> fst ` set es"
  shows "ingest hash mk (fst (ingest hash mk st es)) es' =
    (fst (ingest hash mk st es), \<lparr>io_created = 0, io_updated = 0, io_skipped = length es'\<rparr>)"
proof -
  let ?st = "fst (ingest hash mk st es)"
  have "covered hash ?st (fst x)" if "x \<in> set es" for x
    using that ingest_covers [OF assms(1), of hash mk] unfolding ingest_def by blast
  then have "\<forall>x \<in> set es'. ie_proposal (fst x) = None \<and> covered hash ?st (fst x)"
  proof (intro ballI)
    fix x assume "x \<in> set es'"
    then have "fst x \<in> fst ` set es" using assms(2) by blast
    then obtain y where "y \<in> set es" "fst x = fst y" by blast
    with \<open>\<And>x. x \<in> set es \<Longrightarrow> covered hash ?st (fst x)\<close> [of y] assms(1)
    show "ie_proposal (fst x) = None \<and> covered hash ?st (fst x)" by simp
  qed
  from ingest_all_covered [OF this] show ?thesis by (simp add: ingest_def [of _ _ ?st])
qed

definition sample_entry :: ingest_entry where
  "sample_entry = \<lparr>ie_loopId = ''L'', ie_dedupeKey = ''m'', ie_source = Some ''gmail'',
     ie_summary = None, ie_sourcePayload = [], ie_sourceAt = Some 6, ie_proposal = None\<rparr>"

theorem ingest_idempotent_witness:
  "snd (ingest sample_hash (\<lambda>_. [])
      (fst (ingest sample_hash (\<lambda>_. []) sample_ledger [(sample_entry, 7, 7, 7)]))
      [(sample_entry, 8, 8, 8), (sample_entry, 9, 9, 9)]) =
     \<lparr>io_created = 0, io_updated = 0, io_skipped = 2\<rparr>"
proof -
  have "\<forall>x \<in> set [(sample_entry, 7 :: time, 7 :: time, 7 :: time)]. ie_proposal (fst x) = None"
    by (simp add: sample_entry_def)
  from ingest_idempotent [OF this, of "[(sample_entry, 8, 8, 8), (sample_entry, 9, 9, 9)]"
      sample_hash "\<lambda>_. []" sample_ledger]
  show ?thesis by simp
qed

subsection \<open>A shipped item\<close>

lemma ingest_one_resolved:
  assumes "mm_get (il_items (fst acc)) i = Some it" "isResolved it"
    and "i = loopItemId hash (ie_loopId (fst x)) (ie_dedupeKey (fst x)) \<longrightarrow> \<not> newerSource it (fst x)"
  shows "mm_get (il_items (fst (ingest_one hash mk acc x))) i = Some it"
proof -
  obtain e now tm at where x: "x = (e, now, tm, at)" by (cases x)
  obtain st out where acc: "acc = (st, out)" by (cases acc)
  show ?thesis
    using assms mergeIngest_None [of mk it e tm]
    by (cases "mm_get (il_items st) (loopItemId hash (ie_loopId e) (ie_dedupeKey e))")
      (auto simp: ingest_one_def x acc Let_def mm.insert_old mm.insert_new mm.get_put split_beta
        update_applied_get)
qed

lemma ingest_resolved:
  assumes "mm_get (il_items (fst acc)) i = Some it" "isResolved it"
    and "\<forall>x \<in> set es. i = loopItemId hash (ie_loopId (fst x)) (ie_dedupeKey (fst x)) \<longrightarrow>
      \<not> newerSource it (fst x)"
  shows "mm_get (il_items (fst (foldl (ingest_one hash mk) acc es))) i = Some it"
  using assms
proof (induction es arbitrary: acc)
  case (Cons x es)
  have "mm_get (il_items (fst (ingest_one hash mk acc x))) i = Some it"
    using Cons.prems by (intro ingest_one_resolved) auto
  with Cons show ?case by simp
qed simp

definition stays_shipped :: "ident \<Rightarrow> item_ledger \<Rightarrow> bool" where
  "stays_shipped i st \<longleftrightarrow> (\<forall>it. mm_get (il_items st) i = Some it \<longrightarrow> li_status it = Shipped)"

lemma stays_shipped_update:
  assumes "stays_shipped i st"
    and "\<And>it it'. j = i \<Longrightarrow> li_status it = Shipped \<Longrightarrow> change it = Some it' \<Longrightarrow> li_status it' = Shipped"
  shows "stays_shipped i (fst (update_applied st j change))"
  using assms by (auto simp: stays_shipped_def update_applied_get or_else_def split: option.split)

lemma stays_shipped_items: "stays_shipped i st' \<Longrightarrow> il_items st = il_items st' \<Longrightarrow> stays_shipped i st"
  by (simp add: stays_shipped_def)

lemma stays_shipped_emit:
  "stays_shipped i (fst (update_emit st j evop at change)) = stays_shipped i (fst (update_applied st j change))"
  by (simp add: stays_shipped_def)

lemma stays_shipped_transition:
  assumes "stays_shipped i st"
    and "\<And>it. li_status it = Shipped \<Longrightarrow> Shipped \<in> set allowed \<Longrightarrow> li_status (change it) = Shipped"
  shows "stays_shipped i (fst (transition st j allowed change tk evop at))"
proof (rule stays_shipped_items)
  show "stays_shipped i (fst (update_applied st j (transition_change allowed tk change)))"
    using assms by (intro stays_shipped_update) (auto simp: transition_change_def split: if_splits)
qed simp

lemma stays_shipped_ops:
  assumes "stays_shipped i st"
  shows "stays_shipped i (fst (setProposal mk st j p ex now at))"
    and "stays_shipped i (fst (annotate st j patch s now at))"
    and "stays_shipped i (fst (appendThread st j ms now at))"
    and "stays_shipped i (fst (recordAction st j k r out now at))"
    and "stays_shipped i (fst (claim_item st j tok now))"
    and "stays_shipped i (fst (acquireDecision st j d now))"
    and "stays_shipped i (fst (releaseDecision st j d now))"
  unfolding setProposal_def annotate_def recordAction_def claim_item_def stays_shipped_emit Let_def
  using assms
  by (auto simp: appendThread_def stays_shipped_emit acquireDecision_def releaseDecision_def
      Let_def split_beta claimStale_def intro!: stays_shipped_update split: if_splits)

lemma stays_shipped_transitions:
  assumes "stays_shipped i st"
  shows "stays_shipped i (fst (recordRun st j r tok now))"
    and "stays_shipped i (fst (markReady st j outs tok now at))"
    and "stays_shipped i (fst (markShipped st j tk now at))"
    and "stays_shipped i (fst (returnToWork st j g tk now at))"
    and "stays_shipped i (fst (park st j reason tk now at))"
    and "stays_shipped i (fst (skip st j reason now at))"
  unfolding recordRun_def markReady_def markShipped_def returnToWork_def park_def skip_def
  by (rule stays_shipped_transition [OF assms]; simp)+

lemma stays_shipped_delete:
  "stays_shipped i st \<Longrightarrow> stays_shipped i (st\<lparr>il_items := foldl mm_delete (il_items st) is\<rparr>)"
  by (simp add: stays_shipped_def mm.get_delete_all)

lemma reopen_shipped:
  assumes "mm_get (il_items st) i = Some it" "li_status it = Shipped"
    and "\<not> (j = i \<and> isSentReply it sr)"
  shows "mm_get (il_items (fst (reopen st j sr now at))) i = Some it"
proof (cases "j = i")
  case True
  with assms show ?thesis by (simp add: reopen_def update_applied_eq Let_def)
next
  case False
  with assms(1) show ?thesis by (simp add: reopen_def update_applied_get)
qed

text \<open>
  C22. Shipping is final: once an item is shipped, no operation of any worker or person changes its
  status, except a newer entry of its source, or reopening a chat whose reply was already sent.
\<close>

theorem shipped_is_final:
  assumes "mm_get (il_items st) i = Some it" and "li_status it = Shipped"
    and "mm_get (il_items (ledger_step hash mk st x)) i = Some it'" and "li_status it' \<noteq> Shipped"
  shows "(\<exists>es. x = LoIngest es \<and> (\<exists>e \<in> fst ` set es.
            i = loopItemId hash (ie_loopId e) (ie_dedupeKey e) \<and> newerSource it e)) \<or>
         (\<exists>now at. x = LoReopen i (Some True) now at \<and> isSentReply it (Some True))"
proof (rule ccontr)
  assume no: "\<not> ?thesis"
  have ss: "stays_shipped i st" using assms(1,2) by (simp add: stays_shipped_def)
  have res: "isResolved it" using assms(2) by (simp add: isResolved_iff)
  have "stays_shipped i (ledger_step hash mk st x)"
  proof (cases x)
    case (LoIngest es)
    with no have "mm_get (il_items (fst (foldl (ingest_one hash mk)
        (st, \<lparr>io_created = 0, io_updated = 0, io_skipped = 0\<rparr>) es))) i = Some it"
      by (intro ingest_resolved) (use assms(1) res in auto)
    with LoIngest assms(2) show ?thesis by (simp add: stays_shipped_def ingest_def)
  next
    case (LoReopen j sr now at)
    with no have "\<not> (j = i \<and> isSentReply it sr)" by (auto simp: isSentReply_def)
    from reopen_shipped [OF assms(1,2) this] LoReopen assms(2)
    show ?thesis by (simp add: stays_shipped_def)
  next
    case (LoEnqueue l k s now)
    with assms(1,2) show ?thesis
      by (auto simp: stays_shipped_def enqueue_item_def Let_def split_beta mm_defs)
  qed (simp_all add: stays_shipped_ops stays_shipped_transitions stays_shipped_delete ss
      prune_def deleteByLoop_def Let_def)
  with assms(3,4) show False by (simp add: stays_shipped_def)
qed

theorem shipped_is_final_witness:
  "\<exists>it. mm_get (il_items sample_ledger) ''L/k/'' = Some it \<and> li_status it = Shipped \<and>
     (\<exists>e \<in> fst ` set [(sample_entry\<lparr>ie_dedupeKey := ''k''\<rparr>, 9 :: time, 9 :: time, 9 :: time)].
        newerSource it e)"
proof -
  let ?e = "sample_entry\<lparr>ie_dedupeKey := ''k''\<rparr>"
  let ?x = "LoIngest [(?e, 9, 9, 9)]"
  have a: "map_option li_status (mm_get (il_items sample_ledger) ''L/k/'') = Some Shipped"
    by code_simp
  have b: "map_option li_status (mm_get (il_items (ledger_step sample_hash (\<lambda>_. []) sample_ledger ?x)) ''L/k/'')
     = Some Queued"
    by (simp only: ledger_step.simps, code_simp)
  from a obtain it where it: "mm_get (il_items sample_ledger) ''L/k/'' = Some it" "li_status it = Shipped"
    by auto
  from b obtain it' where it':
    "mm_get (il_items (ledger_step sample_hash (\<lambda>_. []) sample_ledger ?x)) ''L/k/'' = Some it'"
    "li_status it' \<noteq> Shipped"
    by auto
  from shipped_is_final [OF it it'] have "\<exists>e \<in> fst ` set [(?e, 9 :: time, 9 :: time, 9 :: time)]. newerSource it e"
  proof (elim disjE exE conjE)
    fix es
    assume "?x = LoIngest es" and newer: "\<exists>e \<in> fst ` set es.
      ''L/k/'' = loopItemId sample_hash (ie_loopId e) (ie_dedupeKey e) \<and> newerSource it e"
    then have es: "es = [(?e, 9, 9, 9)]" by (simp only: ledger_op.inject)
    from newer show ?thesis unfolding es by (elim bexE conjE) (rule bexI)
  next
    fix now at
    assume "?x = LoReopen ''L/k/'' (Some True) now at"
    then show ?thesis by (simp only: ledger_op.distinct)
  qed
  with it show ?thesis by (intro exI conjI)
qed

end
