(* ===== verification/Identity.thy ===== *)
theory Identity
  imports Prelude
begin

section \<open>People, scopes and resource references\<close>

text \<open>
  The identifiers the authorization code compares: a person's key and the aliases a directory
  knows (\<open>src/src/directory/person.ts\<close>), scope identifiers (\<open>src/src/types.ts\<close>) and references
  to resources (\<open>src/src/acl/resource-ref.ts\<close>).

  Characters are the first 256 code points: \<open>trim\<close> and \<open>toLowerCase\<close> are written out on them.
\<close>

subsection \<open>Text\<close>

definition js_space :: "char \<Rightarrow> bool" where
  "js_space c \<longleftrightarrow> (let n = of_char c :: nat in 9 \<le> n \<and> n \<le> 13 \<or> n = 32 \<or> n = 160)"

definition js_trim :: "string \<Rightarrow> string" where
  "js_trim s = rev (dropWhile js_space (rev (dropWhile js_space s)))"

text \<open>\<open>replace(/\s+/g, " ")\<close>: \<open>run\<close> says that the last character was a space.\<close>

fun collapse_run :: "bool \<Rightarrow> string \<Rightarrow> string" where
  "collapse_run run [] = []"
| "collapse_run run (c # cs) =
     (if js_space c then (if run then collapse_run True cs else CHR '' '' # collapse_run True cs)
      else c # collapse_run False cs)"

definition collapse_spaces :: "string \<Rightarrow> string" where
  "collapse_spaces s = collapse_run False s"

definition js_lower_char :: "char \<Rightarrow> char" where
  "js_lower_char c =
     (let n = of_char c :: nat
      in if 65 \<le> n \<and> n \<le> 90 \<or> 192 \<le> n \<and> n \<le> 222 \<and> n \<noteq> 215 then char_of (n + 32) else c)"

definition js_lower :: "string \<Rightarrow> string" where
  "js_lower s = map js_lower_char s"

text \<open>\<open>s.indexOf(c)\<close> followed by the two slices around it.\<close>

definition split_at_first :: "char \<Rightarrow> string \<Rightarrow> (string \<times> string) option" where
  "split_at_first c s =
     (if c \<notin> set s then None
      else Some (takeWhile (\<lambda>x. x \<noteq> c) s, tl (dropWhile (\<lambda>x. x \<noteq> c) s)))"

lemma split_at_first_append:
  "c \<notin> set a \<Longrightarrow> split_at_first c (a @ c # b) = Some (a, b)"
  by (induction a) (auto simp: split_at_first_def)

lemma split_at_first_Some:
  "split_at_first c s = Some (a, b) \<Longrightarrow> s = a @ c # b"
  by (induction s arbitrary: a) (auto simp: split_at_first_def split: if_splits)

subsection \<open>Persons\<close>

definition personKey :: "string option \<Rightarrow> string" where
  "personKey pid = (let s = js_trim (or_else pid []) in if CHR ''@'' \<in> set s then js_lower s else s)"

definition samePerson :: "string option \<Rightarrow> string option \<Rightarrow> bool" where
  "samePerson a b \<longleftrightarrow> personKey a \<noteq> [] \<and> personKey a = personKey b"

record roster_person =
  rp_principalId :: "string option"
  rp_slackId :: "string option"

definition personKeys :: "roster_person option \<Rightarrow> string \<Rightarrow> string list" where
  "personKeys member rawId =
     uniq (filter (\<lambda>k. k \<noteq> [])
       (map personKey [Some rawId, Option.bind member rp_principalId, Option.bind member rp_slackId]))"

text \<open>
  \<open>directory.get\<close> is a parameter; a lookup that throws is caught and reads as null, so it is
  \<open>None\<close>.
\<close>

definition samePersonInDirectory ::
  "(string \<Rightarrow> roster_person option) \<Rightarrow> string \<Rightarrow> string \<Rightarrow> bool" where
  "samePersonInDirectory dir a b =
     (if samePerson (Some a) (Some b) then True
      else if personKey (Some a) = [] \<or> personKey (Some b) = [] then False
      else list_ex (\<lambda>k. k \<in> set (personKeys (dir b) b)) (personKeys (dir a) a))"

definition samePersonMatcher ::
  "(string \<Rightarrow> roster_person option) \<Rightarrow> string \<Rightarrow> string \<Rightarrow> bool" where
  "samePersonMatcher dir actorId i =
     (let row = dir actorId; keys = personKeys row actorId
      in if personKey (Some i) \<in> set keys then True
         else if row \<noteq> None then False
         else samePersonInDirectory dir i actorId)"

lemma samePerson_sym: "samePerson a b \<Longrightarrow> samePerson b a"
  by (auto simp: samePerson_def)

lemma samePerson_trans: "samePerson a b \<Longrightarrow> samePerson b c \<Longrightarrow> samePerson a c"
  by (auto simp: samePerson_def)

lemma personKeys_own: "personKey (Some a) \<noteq> [] \<Longrightarrow> personKey (Some a) \<in> set (personKeys m a)"
  by (simp add: personKeys_def)

lemma personKeys_nonempty: "[] \<notin> set (personKeys m a)"
  by (auto simp: personKeys_def)

lemma inDirectory_iff:
  "samePersonInDirectory dir a b \<longleftrightarrow>
     personKey (Some a) \<noteq> [] \<and> personKey (Some b) \<noteq> [] \<and>
     (\<exists>k. k \<in> set (personKeys (dir a) a) \<and> k \<in> set (personKeys (dir b) b))"
  using personKeys_own [of a "dir a"] personKeys_own [of b "dir b"]
  by (auto simp: samePersonInDirectory_def samePerson_def list_ex_iff)

text \<open>
  Being the same person in the directory does not depend on the order of the two identifiers,
  an identifier with a key is the same person as itself, and the matcher prepared for one actor
  never accepts an identifier the directory comparison would refuse.
\<close>

theorem directory_match:
  "samePersonInDirectory dir a b = samePersonInDirectory dir b a \<and>
   samePersonInDirectory dir a a = (personKey (Some a) \<noteq> []) \<and>
   (personKey (Some a) \<noteq> [] \<longrightarrow> samePersonMatcher dir a b \<longrightarrow> samePersonInDirectory dir a b)"
proof -
  have "samePersonInDirectory dir a b" if "personKey (Some a) \<noteq> []" "samePersonMatcher dir a b"
  proof (cases "personKey (Some b) \<in> set (personKeys (dir a) a)")
    case True
    then have "personKey (Some b) \<noteq> []" using personKeys_nonempty by metis
    with True that(1) show ?thesis using personKeys_own unfolding inDirectory_iff by blast
  next
    case False
    with that show ?thesis
      by (auto simp: samePersonMatcher_def Let_def inDirectory_iff split: if_splits)
  qed
  moreover have "samePersonInDirectory dir a b = samePersonInDirectory dir b a"
    by (auto simp: inDirectory_iff)
  moreover have "samePersonInDirectory dir a a = (personKey (Some a) \<noteq> [])"
    using personKeys_own unfolding inDirectory_iff by blast
  ultimately show ?thesis by blast
qed

theorem directory_match_witness:
  "let dir = [''U1'' \<mapsto> \<lparr>rp_principalId = Some '' Ann@X.org'', rp_slackId = None\<rparr>]
   in samePersonMatcher dir ''U1'' ''ann@x.org'' \<and> samePersonInDirectory dir ''ann@x.org'' ''U1''"
proof -
  let ?dir = "[''U1'' \<mapsto> \<lparr>rp_principalId = Some '' Ann@X.org'', rp_slackId = None\<rparr>]"
  have "personKey (Some ''U1'') \<noteq> []" "samePersonMatcher ?dir ''U1'' ''ann@x.org''" by code_simp+
  with directory_match [of ?dir "''U1''" "''ann@x.org''"] show ?thesis
    unfolding Let_def by blast
qed

subsection \<open>Scopes\<close>

datatype scope_kind = SkPersonal | SkChannel | SkTeam | SkOrg | SkGroup

type_synonym scope_id = string

definition scope_kind_name :: "scope_kind \<Rightarrow> string" where
  "scope_kind_name k = (case k of
     SkPersonal \<Rightarrow> ''personal'' | SkChannel \<Rightarrow> ''channel'' | SkTeam \<Rightarrow> ''team''
   | SkOrg \<Rightarrow> ''org'' | SkGroup \<Rightarrow> ''group'')"

definition scope_kinds :: "scope_kind list" where
  "scope_kinds = [SkPersonal, SkChannel, SkTeam, SkOrg, SkGroup]"

definition as_scope_kind :: "string \<Rightarrow> scope_kind option" where
  "as_scope_kind s = find (\<lambda>k. scope_kind_name k = s) scope_kinds"

definition scopeId :: "scope_kind \<Rightarrow> string \<Rightarrow> scope_id" where
  "scopeId kind ref = scope_kind_name kind @ '':'' @ ref"

definition personalScope :: "string \<Rightarrow> scope_id" where
  "personalScope principalId = scopeId SkPersonal principalId"

definition parseScopeId :: "scope_id \<Rightarrow> scope_kind option \<times> string" where
  "parseScopeId i = (case split_at_first CHR '':'' i of
     None \<Rightarrow> (None, [])
   | Some (raw, ref) \<Rightarrow> (as_scope_kind raw, ref))"

definition isManageableCreationScope :: "scope_id option \<Rightarrow> bool" where
  "isManageableCreationScope i =
     (truthy i \<and> fst (parseScopeId (the i)) \<in> {Some SkChannel, Some SkTeam})"

definition isSharedScope :: "scope_id option \<Rightarrow> bool" where
  "isSharedScope i =
     (truthy i \<and> fst (parseScopeId (the i)) \<in> {Some SkChannel, Some SkGroup})"

lemma as_scope_kind_name [simp]: "as_scope_kind (scope_kind_name k) = Some k"
  by (cases k) (simp_all add: as_scope_kind_def scope_kinds_def scope_kind_name_def)

lemma as_scope_kind_Some: "as_scope_kind s = Some k \<Longrightarrow> s = scope_kind_name k"
  by (auto simp: as_scope_kind_def find_Some_iff)

lemma colon_scope_kind_name [simp]: "CHR '':'' \<notin> set (scope_kind_name k)"
  by (cases k) (simp_all add: scope_kind_name_def)

text \<open>
  A scope identifier reads back as the kind and the reference it was built from, whatever
  characters the reference holds; and every identifier whose kind is recognised is the one built
  from what it parses to.
\<close>

theorem scope_roundtrip:
  "parseScopeId (scopeId k ref) = (Some k, ref) \<and>
   (\<forall>i r. parseScopeId i = (Some k, r) \<longrightarrow> i = scopeId k r)"
  by (auto simp: parseScopeId_def scopeId_def split_at_first_append
      dest!: split_at_first_Some as_scope_kind_Some split: option.splits)

theorem scope_roundtrip_witness:
  "parseScopeId ''channel:a:b'' = (Some SkChannel, ''a:b'') \<and>
   ''channel:a:b'' = scopeId SkChannel ''a:b''"
proof -
  have "parseScopeId ''channel:a:b'' = (Some SkChannel, ''a:b'')" by code_simp
  with scope_roundtrip [of SkChannel "''a:b''"] show ?thesis by blast
qed

subsection \<open>Resource references\<close>

datatype resource_kind = RkFile | RkSkill | RkDeploy | RkCron | RkServiceCred

record resource_ref =
  rr_kind :: resource_kind
  rr_id :: string

text \<open>The prefix of a kind other than \<open>file\<close> (which has none).\<close>

definition refPrefix :: "resource_kind \<Rightarrow> string" where
  "refPrefix k = (case k of
     RkFile \<Rightarrow> [] | RkSkill \<Rightarrow> ''skill:'' | RkDeploy \<Rightarrow> ''deployment:'' | RkCron \<Rightarrow> ''cron:''
   | RkServiceCred \<Rightarrow> ''service-cred:'')"

definition prefixed_kinds :: "resource_kind list" where
  "prefixed_kinds = [RkSkill, RkDeploy, RkCron, RkServiceCred]"

definition startsWith :: "string \<Rightarrow> string \<Rightarrow> bool" where
  "startsWith s p \<longleftrightarrow> take (length p) s = p"

definition encodeRef :: "resource_ref \<Rightarrow> string" where
  "encodeRef r = (if rr_kind r = RkFile then rr_id r else refPrefix (rr_kind r) @ rr_id r)"

definition parseRef :: "string \<Rightarrow> resource_ref" where
  "parseRef s = (case find (\<lambda>k. startsWith s (refPrefix k)) prefixed_kinds of
     Some k \<Rightarrow> \<lparr>rr_kind = k, rr_id = drop (length (refPrefix k)) s\<rparr>
   | None \<Rightarrow> \<lparr>rr_kind = RkFile, rr_id = s\<rparr>)"

lemma startsWith_append [simp]: "startsWith (p @ s) p"
  by (simp add: startsWith_def)

lemma startsWith_drop: "startsWith s p \<Longrightarrow> p @ drop (length p) s = s"
  by (metis append_take_drop_id startsWith_def)

lemma prefixes_disjoint: "startsWith (refPrefix k @ s) (refPrefix k') \<Longrightarrow> k \<noteq> RkFile \<Longrightarrow> k' \<noteq> RkFile \<Longrightarrow> k' = k"
  by (cases k; cases k') (auto simp: startsWith_def refPrefix_def)

lemma find_prefix:
  "k \<noteq> RkFile \<Longrightarrow> find (\<lambda>k'. startsWith (refPrefix k @ s) (refPrefix k')) prefixed_kinds = Some k"
  using prefixes_disjoint [of k s]
  by (cases k) (auto simp: prefixed_kinds_def)

text \<open>
  A reference to a resource reads back as itself, unless it names a file whose path starts
  with the prefix of another kind; and the text of every reference is the encoding of what it
  parses to.
\<close>

theorem ref_roundtrip:
  "(parseRef (encodeRef r) = r \<longleftrightarrow>
      rr_kind r \<noteq> RkFile \<or> (\<forall>k \<in> set prefixed_kinds. \<not> startsWith (rr_id r) (refPrefix k))) \<and>
   encodeRef (parseRef s) = s"
proof -
  have "encodeRef (parseRef s) = s"
  proof (cases "find (\<lambda>k. startsWith s (refPrefix k)) prefixed_kinds")
    case (Some k)
    then have "k \<in> set prefixed_kinds" and s: "startsWith s (refPrefix k)"
      by (auto simp: find_Some_iff)
    from this(1) have "k \<noteq> RkFile" by (auto simp: prefixed_kinds_def)
    with Some show ?thesis using startsWith_drop [OF s] by (simp add: encodeRef_def parseRef_def)
  qed (simp add: encodeRef_def parseRef_def)
  moreover have "parseRef (encodeRef r) = r" if "rr_kind r \<noteq> RkFile"
    using find_prefix [OF that, of "rr_id r"] that by (simp add: encodeRef_def parseRef_def)
  moreover have "parseRef (encodeRef r) = r \<longleftrightarrow>
      (\<forall>k \<in> set prefixed_kinds. \<not> startsWith (rr_id r) (refPrefix k))" if "rr_kind r = RkFile"
  proof (cases "find (\<lambda>k. startsWith (rr_id r) (refPrefix k)) prefixed_kinds")
    case None
    then have "\<forall>k \<in> set prefixed_kinds. \<not> startsWith (rr_id r) (refPrefix k)"
      by (simp add: find_None_iff)
    moreover have "parseRef (encodeRef r) = r"
      using None that by (cases r) (simp add: encodeRef_def parseRef_def)
    ultimately show ?thesis by blast
  next
    case (Some k)
    then have "k \<in> set prefixed_kinds" "startsWith (rr_id r) (refPrefix k)"
      by (auto simp: find_Some_iff)
    moreover from this(1) have "k \<noteq> RkFile" by (auto simp: prefixed_kinds_def)
    moreover have "rr_kind (parseRef (encodeRef r)) = k"
      using Some that by (simp add: encodeRef_def parseRef_def)
    ultimately show ?thesis using that by force
  qed
  ultimately show ?thesis by blast
qed

theorem ref_roundtrip_witness:
  "parseRef (encodeRef \<lparr>rr_kind = RkCron, rr_id = ''skill:x''\<rparr>) = \<lparr>rr_kind = RkCron, rr_id = ''skill:x''\<rparr> \<and>
   parseRef (encodeRef \<lparr>rr_kind = RkFile, rr_id = ''skill:x''\<rparr>) \<noteq> \<lparr>rr_kind = RkFile, rr_id = ''skill:x''\<rparr>"
  using ref_roundtrip [of "\<lparr>rr_kind = RkCron, rr_id = ''skill:x''\<rparr>" "''x''"]
    ref_roundtrip [of "\<lparr>rr_kind = RkFile, rr_id = ''skill:x''\<rparr>" "''x''"]
  by (simp add: prefixed_kinds_def refPrefix_def startsWith_def)

end
