(* ===== verification/Acl.thy ===== *)
theory Acl
  imports Identity
begin

section \<open>Access grants\<close>

text \<open>
  The access control list of shared resources (\<open>src/src/acl/acl-store.ts\<close>): the persistence
  contract as a locale with the in-memory implementation, the guarded operations, and what an
  audience of a session reaches.

  Whether a principal is entitled to a scope (\<open>entitled\<close>) and who manages a channel or group
  (\<open>manages\<close>) are the callbacks the store is built with.
\<close>

datatype permission = PermRead | PermWrite

record grant =
  gr_ownerScopeId :: scope_id
  gr_ref :: string
  gr_granteeScopeId :: scope_id
  gr_permission :: permission
  gr_grantedBy :: string

record granted_handle =
  gh_handlePath :: string
  gh_ownerScopeId :: scope_id
  gh_ownerPath :: string
  gh_permission :: permission

definition isFileGrant :: "grant \<Rightarrow> bool" where
  "isFileGrant g \<longleftrightarrow> rr_kind (parseRef (gr_ref g)) = RkFile"

definition isSkillRef :: "string \<Rightarrow> bool" where
  "isSkillRef ref \<longleftrightarrow> rr_kind (parseRef ref) = RkSkill"

definition basename :: "string \<Rightarrow> string" where
  "basename p = (let part = rev (takeWhile (\<lambda>c. c \<noteq> CHR ''/'') (rev p))
     in if part = [] then p else part)"

definition toHandle :: "grant \<Rightarrow> granted_handle" where
  "toHandle g = \<lparr>gh_handlePath = ''shared/'' @ basename (gr_ref g), gh_ownerScopeId = gr_ownerScopeId g,
     gh_ownerPath = gr_ref g, gh_permission = gr_permission g\<rparr>"

definition ownerOf :: "scope_id \<Rightarrow> string option" where
  "ownerOf s = (let (kind, ref) = parseScopeId s in if kind = Some SkPersonal then Some ref else None)"

definition isMembershipManaged :: "scope_id \<Rightarrow> bool" where
  "isMembershipManaged s \<longleftrightarrow> fst (parseScopeId s) \<in> {Some SkChannel, Some SkGroup}"

definition sameGrant :: "grant \<Rightarrow> grant \<Rightarrow> bool" where
  "sameGrant a b \<longleftrightarrow>
     gr_ownerScopeId a = gr_ownerScopeId b \<and> gr_ref a = gr_ref b \<and>
     gr_granteeScopeId a = gr_granteeScopeId b \<and> gr_permission a = gr_permission b"

definition sameGrantTuple :: "grant \<Rightarrow> grant \<Rightarrow> bool" where
  "sameGrantTuple a b \<longleftrightarrow> sameGrant a b \<and> gr_grantedBy a = gr_grantedBy b"

definition sameGrantSet :: "grant list \<Rightarrow> grant list \<Rightarrow> bool" where
  "sameGrantSet a b \<longleftrightarrow> length a = length b \<and> list_all (\<lambda>g. list_ex (sameGrantTuple g) b) a"

definition forResource :: "scope_id \<Rightarrow> string \<Rightarrow> grant \<Rightarrow> bool" where
  "forResource own ref g \<longleftrightarrow> gr_ownerScopeId g = own \<and> gr_ref g = ref"

lemma sameGrantTuple_eq [simp]: "sameGrantTuple a b \<longleftrightarrow> a = b"
  by (cases a; cases b) (auto simp: sameGrantTuple_def sameGrant_def)

lemma forResource_self [simp]: "forResource (gr_ownerScopeId g) (gr_ref g) g"
  by (simp add: forResource_def)

lemma sameGrant_refl [simp]: "sameGrant g g"
  by (simp add: sameGrant_def)

subsection \<open>Persistence\<close>

locale grant_persistence =
  fixes all_grants :: "'s \<Rightarrow> grant list"
    and put_grant :: "'s \<Rightarrow> grant \<Rightarrow> 's"
    and remove_grant :: "'s \<Rightarrow> grant \<Rightarrow> 's"
    and replaceForResourceIfCurrent :: "'s \<Rightarrow> scope_id \<Rightarrow> string \<Rightarrow> grant list \<Rightarrow> grant list \<Rightarrow> 's \<times> bool"
  assumes put_all: "set (all_grants (put_grant s g)) =
      (if \<exists>x \<in> set (all_grants s). sameGrant x g then set (all_grants s)
       else insert g (set (all_grants s)))"
    and remove_all: "set (all_grants (remove_grant s g)) = {x \<in> set (all_grants s). \<not> sameGrant x g}"
    and replace_all: "replaceForResourceIfCurrent s own ref expected repl = (s', applied) \<Longrightarrow>
      (applied \<longleftrightarrow> sameGrantSet (filter (forResource own ref) (all_grants s)) expected) \<and>
      set (all_grants s') =
        (if applied then {x \<in> set (all_grants s). \<not> forResource own ref x} \<union> set repl
         else set (all_grants s))"
begin

lemma remove_many:
  "set (all_grants (foldl remove_grant s gs)) =
     {x \<in> set (all_grants s). \<forall>g \<in> set gs. \<not> sameGrant x g}"
  by (induction gs arbitrary: s) (auto simp: remove_all)

lemma put_incl: "set (all_grants (put_grant s g)) \<subseteq> insert g (set (all_grants s))"
  by (auto simp: put_all)

lemma put_present: "\<exists>x \<in> set (all_grants (put_grant s g)). sameGrant x g"
  by (auto simp: put_all)

end

type_synonym grant_list = "grant list"

definition grant_key :: "grant \<Rightarrow> string" where
  "grant_key g = gr_ownerScopeId g @ ''\<newline>'' @ gr_ref g @ ''\<newline>'' @ gr_granteeScopeId g @ ''\<newline>'' @
     (case gr_permission g of PermRead \<Rightarrow> ''read'' | PermWrite \<Rightarrow> ''write'')"

definition mg_all :: "grant_list \<Rightarrow> grant list" where
  "mg_all gs = sort_key grant_key gs"

definition mg_put :: "grant_list \<Rightarrow> grant \<Rightarrow> grant_list" where
  "mg_put gs g = (if list_ex (\<lambda>x. sameGrant x g) gs then gs else gs @ [g])"

definition mg_remove :: "grant_list \<Rightarrow> grant \<Rightarrow> grant_list" where
  "mg_remove gs g = filter (\<lambda>x. \<not> sameGrant x g) gs"

definition mg_replace ::
  "grant_list \<Rightarrow> scope_id \<Rightarrow> string \<Rightarrow> grant list \<Rightarrow> grant list \<Rightarrow> grant_list \<times> bool" where
  "mg_replace gs own ref expected repl =
     (if \<not> sameGrantSet (filter (forResource own ref) gs) expected then (gs, False)
      else (filter (\<lambda>g. \<not> forResource own ref g) gs @ repl, True))"

lemma set_mg_all [simp]: "set (mg_all gs) = set gs"
  by (simp add: mg_all_def)

lemma sameGrantSet_sorted:
  "sameGrantSet (filter P (mg_all gs)) ex = sameGrantSet (filter P gs) ex"
  by (simp add: mg_all_def filter_sort sameGrantSet_def list_all_iff)

interpretation mg: grant_persistence mg_all mg_put mg_remove mg_replace
proof
  fix s s' own ref expected repl applied
  assume r: "mg_replace s own ref expected repl = (s', applied)"
  have "sameGrantSet (filter (forResource own ref) (mg_all s)) expected =
      sameGrantSet (filter (forResource own ref) s) expected"
    by (rule sameGrantSet_sorted)
  with r show "(applied \<longleftrightarrow> sameGrantSet (filter (forResource own ref) (mg_all s)) expected) \<and>
      set (mg_all s') = (if applied then {x \<in> set (mg_all s). \<not> forResource own ref x} \<union> set repl
         else set (mg_all s))"
    by (auto simp: mg_replace_def split: if_splits)
qed (auto simp: mg_put_def mg_remove_def list_ex_iff)

subsection \<open>The store\<close>

datatype acl_error = SkillAccessRequired | NotManager | ForeignReplacement

type_synonym manages = "(string \<Rightarrow> scope_id \<Rightarrow> string option \<Rightarrow> bool) option"

definition canManage :: "manages \<Rightarrow> scope_id \<Rightarrow> string \<Rightarrow> string option \<Rightarrow> bool" where
  "canManage manages s principalId authoredBy =
     (case ownerOf s of
        Some own \<Rightarrow> samePerson (Some principalId) (Some own)
      | None \<Rightarrow> (case manages of
            Some m \<Rightarrow> if isMembershipManaged s then m principalId s authoredBy else True
          | None \<Rightarrow> True))"

definition grant_access ::
  "manages \<Rightarrow> grant_list \<Rightarrow> grant \<Rightarrow> string option \<Rightarrow> acl_error + grant_list" where
  "grant_access manages gs g authoredBy =
     (if isSkillRef (gr_ref g) then Inl SkillAccessRequired
      else if \<not> canManage manages (gr_ownerScopeId g) (gr_grantedBy g) authoredBy then Inl NotManager
      else Inr (mg_put gs g))"

definition revoke_access ::
  "manages \<Rightarrow> grant_list \<Rightarrow> scope_id \<Rightarrow> string \<Rightarrow> scope_id \<Rightarrow> string \<Rightarrow> string option
     \<Rightarrow> acl_error + grant_list" where
  "revoke_access manages gs own ref grantee revokedBy authoredBy =
     (if isSkillRef ref then Inl SkillAccessRequired
      else if \<not> canManage manages own revokedBy authoredBy then Inl NotManager
      else
        let matches = filter (\<lambda>g. forResource own ref g \<and> gr_granteeScopeId g = grantee) (mg_all gs)
        in Inr (foldl mg_remove gs matches))"

definition replaceGrantsIfCurrent ::
  "manages \<Rightarrow> grant_list \<Rightarrow> scope_id \<Rightarrow> string \<Rightarrow> grant list \<Rightarrow> grant list \<Rightarrow> string \<Rightarrow> string option
     \<Rightarrow> acl_error + (grant_list \<times> bool)" where
  "replaceGrantsIfCurrent manages gs own ref expected repl changedBy authoredBy =
     (if isSkillRef ref then Inl SkillAccessRequired
      else if \<not> canManage manages own changedBy authoredBy then Inl NotManager
      else if list_ex (\<lambda>g. \<not> forResource own ref g) expected \<or> list_ex (\<lambda>g. \<not> forResource own ref g) repl
      then Inl ForeignReplacement
      else Inr (mg_replace gs own ref expected repl))"

definition handlesFor :: "grant_list \<Rightarrow> scope_id list \<Rightarrow> granted_handle list" where
  "handlesFor gs scopes =
     map toHandle (filter (\<lambda>g. isFileGrant g \<and> gr_granteeScopeId g \<in> set scopes) (mg_all gs))"




definition grantsFor :: "grant_list \<Rightarrow> scope_id \<Rightarrow> string \<Rightarrow> grant list" where
  "grantsFor gs own ref = filter (forResource own ref) (mg_all gs)"



subsection \<open>Sequences of operations\<close>

datatype acl_op =
    AcGrant grant "string option"
  | AcRevoke scope_id string scope_id string "string option"
  | AcReplace scope_id string "grant list" "grant list" string "string option"

text \<open>A refused operation throws before it touches the persistence.\<close>

fun acl_step :: "manages \<Rightarrow> grant_list \<Rightarrow> acl_op \<Rightarrow> grant_list" where
  "acl_step m gs (AcGrant g a) = (case grant_access m gs g a of Inl _ \<Rightarrow> gs | Inr gs' \<Rightarrow> gs')"
| "acl_step m gs (AcRevoke own ref grantee by a) =
     (case revoke_access m gs own ref grantee by a of Inl _ \<Rightarrow> gs | Inr gs' \<Rightarrow> gs')"
| "acl_step m gs (AcReplace own ref ex repl by a) =
     (case replaceGrantsIfCurrent m gs own ref ex repl by a of Inl _ \<Rightarrow> gs | Inr (gs', _) \<Rightarrow> gs')"

fun acl_actor :: "acl_op \<Rightarrow> scope_id \<times> string \<times> string \<times> string option" where
  "acl_actor (AcGrant g a) = (gr_ownerScopeId g, gr_ref g, gr_grantedBy g, a)"
| "acl_actor (AcRevoke own ref grantee by a) = (own, ref, by, a)"
| "acl_actor (AcReplace own ref ex repl by a) = (own, ref, by, a)"

lemma revoke_matches:
  "set (foldl mg_remove gs (filter (\<lambda>g. forResource own ref g \<and> gr_granteeScopeId g = grantee) (mg_all gs))) =
     {g \<in> set gs. \<not> (forResource own ref g \<and> gr_granteeScopeId g = grantee)}"
  using mg.remove_many [of gs "filter (\<lambda>g. forResource own ref g \<and> gr_granteeScopeId g = grantee) (mg_all gs)"]
  by (auto simp: sameGrant_def forResource_def)

lemma acl_step_others:
  assumes "acl_actor x = (own, ref, by, a)" "\<not> forResource own ref g"
  shows "g \<in> set (acl_step m gs x) \<longleftrightarrow> g \<in> set gs"
  using assms
  by (cases x) (auto simp: grant_access_def revoke_access_def replaceGrantsIfCurrent_def mg_put_def
      mg_replace_def revoke_matches Let_def list_ex_iff split: if_splits)

text \<open>
  C23. Only who manages the owning scope of a resource changes its grants: an operation by anyone
  else leaves the list as it is (a personal scope is managed by its owner alone), no operation
  touches the grants of another resource, and none stores a grant on a skill.
\<close>

theorem acl_guarded:
  assumes "acl_actor x = (own, ref, by, a)"
  shows "(\<not> canManage m own by a \<longrightarrow> acl_step m gs x = gs) \<and>
    (\<forall>p. ownerOf own = Some p \<longrightarrow> \<not> samePerson (Some by) (Some p) \<longrightarrow> acl_step m gs x = gs) \<and>
    (\<forall>g. \<not> forResource own ref g \<longrightarrow> (g \<in> set (acl_step m gs x) \<longleftrightarrow> g \<in> set gs)) \<and>
    (\<forall>g \<in> set (acl_step m gs x). isSkillRef (gr_ref g) \<longrightarrow> g \<in> set gs)"
proof -
  have man: "acl_step m gs x = gs" if "\<not> canManage m own by a"
    using assms that
    by (cases x) (auto simp: grant_access_def revoke_access_def replaceGrantsIfCurrent_def)
  moreover have "\<not> canManage m own by a" if "ownerOf own = Some p" "\<not> samePerson (Some by) (Some p)" for p
    using that by (simp add: canManage_def)
  moreover have skill: "acl_step m gs x = gs" if "isSkillRef ref"
    using assms that
    by (cases x) (auto simp: grant_access_def revoke_access_def replaceGrantsIfCurrent_def)
  moreover have "g \<in> set gs" if "g \<in> set (acl_step m gs x)" "isSkillRef (gr_ref g)" for g
  proof (cases "forResource own ref g")
    case True
    with skill that show ?thesis by (simp add: forResource_def)
  qed (use acl_step_others [OF assms] that in blast)
  ultimately show ?thesis using acl_step_others [OF assms] by blast
qed

lemma sameGrantSet_distinct: "sameGrantSet a b \<Longrightarrow> distinct a \<Longrightarrow> set a = set b"
  unfolding sameGrantSet_def list_all_iff list_ex_iff sameGrantTuple_eq
  by (metis card_length card_seteq distinct_card finite_set subsetI)

text \<open>
  Revoking removes exactly the grants of that resource to that grantee, whoever gave them and
  with whatever permission; and a replacement is a compare-and-swap: it applies exactly when the
  resource's grants are the expected ones, then they are the replacement, and of two editors that
  read the same grants the second is refused unless the first put the same grants back.
\<close>

theorem revoke_and_replace:
  assumes "canManage m own by a" and "\<not> isSkillRef ref"
    and "list_all (forResource own ref) expected" and "list_all (forResource own ref) repl"
  shows "(\<exists>gs'. revoke_access m gs own ref grantee by a = Inr gs' \<and>
      (\<forall>g. g \<in> set gs' \<longleftrightarrow> g \<in> set gs \<and> \<not> (forResource own ref g \<and> gr_granteeScopeId g = grantee))) \<and>
    (\<exists>gs' applied. replaceGrantsIfCurrent m gs own ref expected repl by a = Inr (gs', applied) \<and>
      (applied \<longleftrightarrow> sameGrantSet (grantsFor gs own ref) expected) \<and>
      (applied \<longrightarrow> set (grantsFor gs' own ref) = set repl) \<and>
      (\<not> applied \<longrightarrow> gs' = gs) \<and>
      (applied \<longrightarrow> distinct repl \<longrightarrow> set repl \<noteq> set expected \<longrightarrow>
         replaceGrantsIfCurrent m gs' own ref expected other by a = Inr (gs', False) \<or>
         replaceGrantsIfCurrent m gs' own ref expected other by a = Inl ForeignReplacement))"
proof -
  obtain gs' applied where r: "mg_replace gs own ref expected repl = (gs', applied)" by fastforce
  have foreign: "\<not> list_ex (\<lambda>g. \<not> forResource own ref g) expected" "\<not> list_ex (\<lambda>g. \<not> forResource own ref g) repl"
    using assms(3,4) by (auto simp: list_ex_iff list_all_iff)
  have rep: "replaceGrantsIfCurrent m gs own ref expected repl by a = Inr (gs', applied)"
    using assms(1,2) foreign r by (simp add: replaceGrantsIfCurrent_def)
  have applied: "applied \<longleftrightarrow> sameGrantSet (grantsFor gs own ref) expected"
    and all': "set (mg_all gs') =
        (if applied then {x \<in> set (mg_all gs). \<not> forResource own ref x} \<union> set repl else set (mg_all gs))"
    using mg.replace_all [OF r] by (simp_all add: grantsFor_def)
  have got: "applied \<Longrightarrow> set (grantsFor gs' own ref) = set repl"
    using assms(4) all' by (auto simp: grantsFor_def list_all_iff)
  have same: "\<not> applied \<Longrightarrow> gs' = gs"
    using r by (auto simp: mg_replace_def split: if_splits)
  have second: "replaceGrantsIfCurrent m gs' own ref expected other by a = Inr (gs', False) \<or>
      replaceGrantsIfCurrent m gs' own ref expected other by a = Inl ForeignReplacement"
    if "applied" "distinct repl" "set repl \<noteq> set expected"
  proof -
    have "grantsFor gs' own ref = sort_key grant_key (filter (forResource own ref) gs')"
      by (simp add: grantsFor_def mg_all_def filter_sort)
    also have "filter (forResource own ref) gs' = repl"
      using r that(1) assms(4) by (auto simp: mg_replace_def list_all_iff split: if_splits)
    finally have "distinct (grantsFor gs' own ref)" "set (grantsFor gs' own ref) = set repl"
      using that(2) by simp_all
    then have "\<not> sameGrantSet (grantsFor gs' own ref) expected"
      using that(3) sameGrantSet_distinct by metis
    then have "\<not> sameGrantSet (filter (forResource own ref) gs') expected"
      by (simp add: grantsFor_def sameGrantSet_sorted)
    with assms(1,2) foreign(1) show ?thesis
      by (simp add: replaceGrantsIfCurrent_def mg_replace_def)
  qed
  have "\<exists>gs'. revoke_access m gs own ref grantee by a = Inr gs' \<and>
      (\<forall>g. g \<in> set gs' \<longleftrightarrow> g \<in> set gs \<and> \<not> (forResource own ref g \<and> gr_granteeScopeId g = grantee))"
    using assms(1,2) by (simp add: revoke_access_def Let_def revoke_matches)
  with rep applied got same second show ?thesis by blast
qed

definition sample_grant :: grant where
  "sample_grant = \<lparr>gr_ownerScopeId = ''personal:ann'', gr_ref = ''notes/a.md'',
     gr_granteeScopeId = ''channel:c1'', gr_permission = PermRead, gr_grantedBy = ''ann''\<rparr>"

theorem acl_guarded_witness:
  "acl_step None [sample_grant] (AcRevoke ''personal:ann'' ''notes/a.md'' ''channel:c1'' ''bob'' None) =
     [sample_grant]"
proof -
  have "acl_actor (AcRevoke ''personal:ann'' ''notes/a.md'' ''channel:c1'' ''bob'' None) =
      (''personal:ann'', ''notes/a.md'', ''bob'', None)"
    by simp
  moreover have "\<not> canManage None ''personal:ann'' ''bob'' None" by code_simp
  ultimately show ?thesis using acl_guarded by blast
qed

theorem revoke_and_replace_witness:
  "\<exists>gs'. revoke_access None [sample_grant] ''personal:ann'' ''notes/a.md'' ''channel:c1'' ''ann'' None = Inr gs' \<and>
     sample_grant \<notin> set gs'"
proof -
  have "canManage None ''personal:ann'' ''ann'' None" "\<not> isSkillRef ''notes/a.md''"
    "list_all (forResource ''personal:ann'' ''notes/a.md'') [sample_grant]"
    "list_all (forResource ''personal:ann'' ''notes/a.md'') []"
    by code_simp+
  moreover have "forResource ''personal:ann'' ''notes/a.md'' sample_grant"
    "gr_granteeScopeId sample_grant = ''channel:c1''"
    by code_simp+
  ultimately show ?thesis
    using revoke_and_replace [where gs = "[sample_grant]" and grantee = "''channel:c1''"] by blast
qed

subsection \<open>What an audience reaches\<close>



end
