(* ===== verification/LoopOutputs.thy ===== *)
theory LoopOutputs
  imports DurableMap
begin

section \<open>What a loop produces: the outputs and their review\<close>

text \<open>
  The store of a loop's outputs (\<open>src/src/loops/output-store.ts\<close>): capture, promotion to review,
  the shipping lease, the human decision, supersession and expiry. The states form a machine
  given below as a step relation, and every operation of the store is a step of it.
\<close>

datatype output_state =
  OsStaged | OsReady | OsShipping | OsUnconfirmed | OsShipped | OsReturned | OsSuperseded | OsExpired

datatype captured_by = ByLedger | ByClassifier | ByAgentTool

record ship_result =
  sr_status :: "string option"
  sr_note :: "string option"
  sr_reply :: "string option"
  sr_sessionId :: "string option"

record loop_output =
  lo_id :: ident
  lo_loopId :: ident
  lo_itemId :: ident
  lo_attemptId :: ident
  lo_shipAction :: string
  lo_label :: "string option"
  lo_externalRef :: "string option"
  lo_title :: string
  lo_summary :: "string option"
  lo_state :: output_state
  lo_capturedBy :: captured_by
  lo_createdAt :: time
  lo_updatedAt :: time
  lo_decidedBy :: "string option"
  lo_decidedAt :: "time option"
  lo_decisionNote :: "string option"
  lo_claimedAt :: "time option"
  lo_claimToken :: "string option"
  lo_shipFireKey :: "string option"
  lo_shipResult :: "ship_result option"
  lo_supersedes :: "ident list option"
  lo_supersededBy :: "ident list option"

type_synonym output_store = "(ident, loop_output) jmap"

record capture_input =
  ci_loopId :: ident
  ci_itemId :: ident
  ci_attemptId :: ident
  ci_ordinal :: "int option"
  ci_shipAction :: string
  ci_title :: string
  ci_capturedBy :: captured_by
  ci_label :: "string option"
  ci_externalRef :: "string option"
  ci_summary :: "string option"

text \<open>\<open>contentPart(undefined)\<close> is the empty text, which no JSON value has.\<close>

definition loopOutputId ::
  "(json option list \<Rightarrow> ident) \<Rightarrow> ident \<Rightarrow> ident \<Rightarrow> ident \<Rightarrow> string \<Rightarrow> int \<Rightarrow> string option \<Rightarrow> ident" where
  "loopOutputId hash loopId itemId attemptId shipAction ordinal externalRef =
     hash [Some (JStr loopId), Some (JStr itemId), Some (JStr attemptId), Some (JStr shipAction),
           Some (JNum ordinal), map_option JStr externalRef]"

definition SHIP_LEASE_MS :: time where "SHIP_LEASE_MS = 600000"

definition isDecided :: "loop_output \<Rightarrow> bool" where
  "isDecided out \<longleftrightarrow> lo_state out = OsShipped \<or> lo_state out = OsReturned"

definition unresolvedOutput :: "loop_output \<Rightarrow> bool" where
  "unresolvedOutput out \<longleftrightarrow>
     lo_state out = OsReady \<or> lo_state out = OsShipping \<or> lo_state out = OsUnconfirmed"

definition outputsOfLoop :: "output_store \<Rightarrow> ident \<Rightarrow> loop_output list" where
  "outputsOfLoop st l = filter (\<lambda>out. lo_loopId out = l) (mm_all st)"

definition byAttempt :: "output_store \<Rightarrow> ident \<Rightarrow> ident \<Rightarrow> loop_output list" where
  "byAttempt st itemId attemptId =
     filter (\<lambda>out. lo_itemId out = itemId \<and> lo_attemptId out = attemptId) (mm_all st)"

definition byItem :: "output_store \<Rightarrow> ident \<Rightarrow> loop_output list" where
  "byItem st itemId = filter (\<lambda>out. lo_itemId out = itemId) (mm_all st)"

definition applyIf ::
  "output_store \<Rightarrow> ident \<Rightarrow> (loop_output \<Rightarrow> bool) \<Rightarrow> (loop_output \<Rightarrow> loop_output)
     \<Rightarrow> output_store \<times> loop_output option" where
  "applyIf st i cond change =
     (let applied = (case mm_get st i of None \<Rightarrow> False | Some out \<Rightarrow> cond out);
          (st', after) = mm_update st i (\<lambda>out. if \<not> cond out then out else change out)
      in (st', if applied then after else None))"

text \<open>A pass over a list that collects the outputs a conditional change applied to.\<close>

fun applyEach ::
  "(loop_output \<Rightarrow> bool) \<Rightarrow> (loop_output \<Rightarrow> loop_output) \<Rightarrow> output_store \<Rightarrow> loop_output list
     \<Rightarrow> output_store \<times> loop_output list" where
  "applyEach cond change st [] = (st, [])"
| "applyEach cond change st (out # outs) =
     (let (st1, after) = applyIf st (lo_id out) cond change;
          (st2, rest) = applyEach cond change st1 outs
      in (st2, (case after of None \<Rightarrow> rest | Some a \<Rightarrow> a # rest)))"

subsection \<open>Operations\<close>

definition prior_outputs :: "output_store \<Rightarrow> capture_input \<Rightarrow> loop_output list" where
  "prior_outputs st inp =
     filter (\<lambda>out. lo_itemId out = ci_itemId inp \<and> lo_attemptId out \<noteq> ci_attemptId inp \<and>
                   lo_shipAction out = ci_shipAction inp \<and> lo_externalRef out = ci_externalRef inp)
       (outputsOfLoop st (ci_loopId inp))"

definition output_candidate ::
  "ident \<Rightarrow> capture_input \<Rightarrow> loop_output list \<Rightarrow> time \<Rightarrow> loop_output" where
  "output_candidate i inp prior now =
     \<lparr>lo_id = i, lo_loopId = ci_loopId inp, lo_itemId = ci_itemId inp,
      lo_attemptId = ci_attemptId inp, lo_shipAction = ci_shipAction inp, lo_label = ci_label inp,
      lo_externalRef = ci_externalRef inp, lo_title = ci_title inp, lo_summary = ci_summary inp,
      lo_state = OsStaged, lo_capturedBy = ci_capturedBy inp, lo_createdAt = now,
      lo_updatedAt = now, lo_decidedBy = None, lo_decidedAt = None, lo_decisionNote = None,
      lo_claimedAt = None, lo_claimToken = None, lo_shipFireKey = None, lo_shipResult = None,
      lo_supersedes = (if prior \<noteq> [] then Some (map lo_id prior) else None),
      lo_supersededBy = None\<rparr>"

definition add_superseder :: "ident \<Rightarrow> time \<Rightarrow> loop_output \<Rightarrow> loop_output" where
  "add_superseder i t out =
     out\<lparr>lo_supersededBy := Some (uniq (or_else (lo_supersededBy out) [] @ [i])), lo_updatedAt := t\<rparr>"

definition capture ::
  "(json option list \<Rightarrow> ident) \<Rightarrow> output_store \<Rightarrow> capture_input \<Rightarrow> time \<Rightarrow> time
     \<Rightarrow> output_store \<times> loop_output" where
  "capture hash st inp now t_prior =
     (let i = loopOutputId hash (ci_loopId inp) (ci_itemId inp) (ci_attemptId inp)
                (ci_shipAction inp) (or_else (ci_ordinal inp) 0) (ci_externalRef inp);
          prior = prior_outputs st inp;
          (st1, captured) = mm_putIfAbsent st i (output_candidate i inp prior now)
      in (foldl (\<lambda>s out. fst (mm_update s (lo_id out) (add_superseder (lo_id captured) t_prior)))
            st1 prior,
          captured))"

definition awaitingReview :: "output_store \<Rightarrow> ident \<Rightarrow> loop_output list" where
  "awaitingReview st l =
     sort_key lo_createdAt (filter (\<lambda>out. lo_state out = OsReady) (outputsOfLoop st l))"

record classify_input =
  cl_title :: "string option"
  cl_summary :: "string option"
  cl_label :: "string option"
  cl_externalRef :: "string option"

definition classify :: "output_store \<Rightarrow> ident \<Rightarrow> classify_input \<Rightarrow> time \<Rightarrow> output_store \<times> loop_output option" where
  "classify st i inp now = mm_update st i (\<lambda>out.
     out\<lparr>lo_title := or_else (cl_title inp) (lo_title out),
         lo_summary := (if cl_summary inp = None then lo_summary out else cl_summary inp),
         lo_label := (if cl_label inp = None then lo_label out else cl_label inp),
         lo_externalRef := (if cl_externalRef inp = None then lo_externalRef out else cl_externalRef inp),
         lo_updatedAt := now\<rparr>)"

definition promoteAttempt ::
  "output_store \<Rightarrow> ident \<Rightarrow> ident \<Rightarrow> time \<Rightarrow> output_store \<times> loop_output list" where
  "promoteAttempt st itemId attemptId now =
     applyEach (\<lambda>c. lo_state c = OsStaged) (\<lambda>c. c\<lparr>lo_state := OsReady, lo_updatedAt := now\<rparr>)
       st (byAttempt st itemId attemptId)"

definition supersedeAttempt ::
  "output_store \<Rightarrow> ident \<Rightarrow> ident \<Rightarrow> time \<Rightarrow> output_store \<times> loop_output list" where
  "supersedeAttempt st itemId attemptId now =
     applyEach (\<lambda>c. lo_state c = OsStaged \<or> lo_state c = OsReady)
       (\<lambda>c. c\<lparr>lo_state := OsSuperseded, lo_updatedAt := now\<rparr>) st (byAttempt st itemId attemptId)"

definition supersedeActiveSiblings ::
  "output_store \<Rightarrow> ident \<Rightarrow> ident \<Rightarrow> time \<Rightarrow> output_store \<times> loop_output list" where
  "supersedeActiveSiblings st itemId exceptId now =
     applyEach (\<lambda>c. lo_state c = OsStaged \<or> unresolvedOutput c)
       (\<lambda>c. c\<lparr>lo_state := OsSuperseded, lo_updatedAt := now\<rparr>) st
       (filter (\<lambda>c. lo_itemId c = itemId \<and> lo_id c \<noteq> exceptId \<and>
                    (lo_state c = OsStaged \<or> unresolvedOutput c)) (mm_all st))"

definition shipLapsed :: "loop_output \<Rightarrow> time \<Rightarrow> bool" where
  "shipLapsed out t \<longleftrightarrow> lo_state out = OsShipping \<and> or_else (lo_claimedAt out) 0 + SHIP_LEASE_MS \<le> t"

definition claimShipping ::
  "output_store \<Rightarrow> ident \<Rightarrow> string \<Rightarrow> time \<Rightarrow> output_store \<times> loop_output option" where
  "claimShipping st i token claimedAt =
     applyIf st i (\<lambda>out. lo_state out = OsReady \<or> shipLapsed out claimedAt)
       (\<lambda>out. out\<lparr>lo_state := OsShipping, lo_claimedAt := Some claimedAt,
                  lo_claimToken := Some token, lo_updatedAt := claimedAt\<rparr>)"

definition holdsShip :: "string \<Rightarrow> loop_output \<Rightarrow> bool" where
  "holdsShip token out \<longleftrightarrow> lo_state out = OsShipping \<and> lo_claimToken out = Some token"

definition beginShipAttempt ::
  "output_store \<Rightarrow> ident \<Rightarrow> string \<Rightarrow> string \<Rightarrow> time \<Rightarrow> output_store \<times> loop_output option" where
  "beginShipAttempt st i token fireKey now =
     applyIf st i (holdsShip token) (\<lambda>out. out\<lparr>lo_shipFireKey := Some fireKey, lo_updatedAt := now\<rparr>)"

definition markUnconfirmed ::
  "output_store \<Rightarrow> ident \<Rightarrow> string \<Rightarrow> time \<Rightarrow> output_store \<times> loop_output option" where
  "markUnconfirmed st i token now =
     applyIf st i (holdsShip token)
       (\<lambda>out. out\<lparr>lo_state := OsUnconfirmed, lo_claimedAt := None, lo_claimToken := None,
                  lo_updatedAt := now\<rparr>)"

definition note_or :: "string option \<Rightarrow> string option \<Rightarrow> string option" where
  "note_or note old = (case note of None \<Rightarrow> old | Some n \<Rightarrow> Some n)"

definition confirmShipped ::
  "output_store \<Rightarrow> ident \<Rightarrow> string \<Rightarrow> string option \<Rightarrow> time \<Rightarrow> output_store \<times> loop_output option" where
  "confirmShipped st i actorId note now =
     applyIf st i (\<lambda>out. lo_state out = OsUnconfirmed)
       (\<lambda>out. out\<lparr>lo_state := OsShipped, lo_decidedBy := Some actorId, lo_decidedAt := Some now,
                  lo_updatedAt := now, lo_decisionNote := note_or note (lo_decisionNote out)\<rparr>)"

definition completeShipping ::
  "output_store \<Rightarrow> ident \<Rightarrow> string \<Rightarrow> string \<Rightarrow> string option \<Rightarrow> ship_result \<Rightarrow> time
     \<Rightarrow> output_store \<times> loop_output option" where
  "completeShipping st i token actorId note res now =
     applyIf st i (holdsShip token)
       (\<lambda>out. out\<lparr>lo_state := OsShipped, lo_decidedBy := Some actorId, lo_decidedAt := Some now,
                  lo_updatedAt := now, lo_shipResult := Some res, lo_claimedAt := None,
                  lo_claimToken := None, lo_decisionNote := note_or note (lo_decisionNote out)\<rparr>)"

definition failShipping ::
  "output_store \<Rightarrow> ident \<Rightarrow> string \<Rightarrow> time \<Rightarrow> output_store \<times> loop_output option" where
  "failShipping st i token now =
     applyIf st i (holdsShip token)
       (\<lambda>out. out\<lparr>lo_state := OsReady, lo_claimedAt := None, lo_claimToken := None,
                  lo_updatedAt := now\<rparr>)"

definition returnToLoop ::
  "output_store \<Rightarrow> ident \<Rightarrow> string \<Rightarrow> string option \<Rightarrow> time \<Rightarrow> output_store \<times> loop_output option" where
  "returnToLoop st i actorId note now =
     applyIf st i (\<lambda>out. lo_state out = OsReady \<or> lo_state out = OsUnconfirmed)
       (\<lambda>out. out\<lparr>lo_state := OsReturned, lo_decidedBy := Some actorId, lo_decidedAt := Some now,
                  lo_updatedAt := now, lo_decisionNote := note_or note (lo_decisionNote out)\<rparr>)"

definition expireOlderThan ::
  "output_store \<Rightarrow> ident \<Rightarrow> time \<Rightarrow> time \<Rightarrow> output_store \<times> loop_output list" where
  "expireOlderThan st l cutoff now =
     applyEach (\<lambda>c. lo_state c = OsReady) (\<lambda>c. c\<lparr>lo_state := OsExpired, lo_updatedAt := now\<rparr>) st
       (filter (\<lambda>out. lo_state out = OsReady \<and> lo_createdAt out < cutoff) (outputsOfLoop st l))"

definition deleteOutputsOfLoop :: "output_store \<Rightarrow> ident \<Rightarrow> output_store" where
  "deleteOutputsOfLoop st l = foldl mm_delete st (map lo_id (outputsOfLoop st l))"

subsection \<open>The state machine\<close>

inductive output_move :: "output_state \<Rightarrow> output_state \<Rightarrow> bool" where
  promote: "output_move OsStaged OsReady"
| supersede_staged: "output_move OsStaged OsSuperseded"
| supersede_ready: "output_move OsReady OsSuperseded"
| supersede_shipping: "output_move OsShipping OsSuperseded"
| supersede_unconfirmed: "output_move OsUnconfirmed OsSuperseded"
| ship: "output_move OsReady OsShipping"
| ship_unknown: "output_move OsShipping OsUnconfirmed"
| ship_done: "output_move OsShipping OsShipped"
| ship_failed: "output_move OsShipping OsReady"
| confirm: "output_move OsUnconfirmed OsShipped"
| return_ready: "output_move OsReady OsReturned"
| return_unconfirmed: "output_move OsUnconfirmed OsReturned"
| expire: "output_move OsReady OsExpired"

inductive_simps output_move_from [simp]:
  "output_move OsStaged s" "output_move OsReady s" "output_move OsShipping s"
  "output_move OsUnconfirmed s" "output_move OsShipped s" "output_move OsReturned s"
  "output_move OsSuperseded s" "output_move OsExpired s"

end
