(* ===== verification/LoopOutputsProps.thy ===== *)
theory LoopOutputsProps
  imports LoopOutputs
begin

section \<open>What the output store guarantees\<close>

text \<open>
  The shape of a stored output and the links of supersession, kept by every operation; and the
  refinement of the store by the state machine: along any sequence of operations an output only
  moves along the machine, and a closed one keeps its state and its decision.
\<close>

definition closed_states :: "output_state list" where
  "closed_states = [OsShipped, OsReturned, OsSuperseded, OsExpired]"

definition output_ok :: "ident \<Rightarrow> loop_output \<Rightarrow> bool" where
  "output_ok i out \<longleftrightarrow>
     lo_id out = i \<and>
     (lo_state out = OsShipping \<longrightarrow> lo_claimToken out \<noteq> None \<and> lo_claimedAt out \<noteq> None) \<and>
     (lo_state out \<noteq> OsShipping \<longrightarrow> lo_state out \<noteq> OsSuperseded \<longrightarrow>
        lo_claimToken out = None \<and> lo_claimedAt out = None) \<and>
     (lo_decidedBy out \<noteq> None \<longleftrightarrow> isDecided out) \<and> (lo_decidedAt out \<noteq> None \<longleftrightarrow> isDecided out) \<and>
     (lo_shipResult out \<noteq> None \<longrightarrow> lo_state out = OsShipped)"

text \<open>Supersession is recorded at both ends, within one loop.\<close>

definition links_ok :: "output_store \<Rightarrow> bool" where
  "links_ok st \<longleftrightarrow>
     (\<forall>i out p. mm_get st i = Some out \<longrightarrow> p \<in> set (or_else (lo_supersedes out) []) \<longrightarrow>
        (\<exists>pout. mm_get st p = Some pout \<and> lo_loopId pout = lo_loopId out \<and>
           i \<in> set (or_else (lo_supersededBy pout) [])))"

definition outputs_inv :: "output_store \<Rightarrow> bool" where
  "outputs_inv st \<longleftrightarrow>
     jwf st \<and> (\<forall>i out. mm_get st i = Some out \<longrightarrow> output_ok i out) \<and> links_ok st"

text \<open>How one output may change.\<close>

definition evolves :: "loop_output \<Rightarrow> loop_output \<Rightarrow> bool" where
  "evolves out out' \<longleftrightarrow>
     lo_id out' = lo_id out \<and> lo_loopId out' = lo_loopId out \<and> lo_itemId out' = lo_itemId out \<and>
     lo_attemptId out' = lo_attemptId out \<and> lo_shipAction out' = lo_shipAction out \<and>
     lo_createdAt out' = lo_createdAt out \<and>
     output_move\<^sup>*\<^sup>* (lo_state out) (lo_state out') \<and>
     (lo_state out \<in> set closed_states \<longrightarrow>
        lo_state out' = lo_state out \<and> lo_decidedBy out' = lo_decidedBy out \<and>
        lo_decidedAt out' = lo_decidedAt out \<and> lo_decisionNote out' = lo_decisionNote out \<and>
        lo_shipResult out' = lo_shipResult out) \<and>
     lo_supersedes out' = lo_supersedes out \<and>
     set (or_else (lo_supersededBy out) []) \<subseteq> set (or_else (lo_supersededBy out') [])"

lemma evolves_refl [simp]: "evolves out out"
  by (simp add: evolves_def)

lemma evolves_trans: "evolves a b \<Longrightarrow> evolves b c \<Longrightarrow> evolves a c"
  unfolding evolves_def by (auto intro: rtranclp_trans)

definition store_evolves :: "output_store \<Rightarrow> output_store \<Rightarrow> bool" where
  "store_evolves st st' \<longleftrightarrow> (\<forall>i. rel_option evolves (mm_get st i) (mm_get st' i))"

lemma store_evolves_refl [simp]: "store_evolves st st"
  by (auto simp: store_evolves_def intro: option.rel_refl)

lemma store_evolves_trans:
  assumes "store_evolves a b" "store_evolves b c" shows "store_evolves a c"
  unfolding store_evolves_def
proof
  fix i
  from assms have "rel_option evolves (mm_get a i) (mm_get b i)"
    and "rel_option evolves (mm_get b i) (mm_get c i)"
    by (simp_all add: store_evolves_def)
  then show "rel_option evolves (mm_get a i) (mm_get c i)"
    by (auto elim!: option.rel_cases intro: evolves_trans)
qed

lemma store_evolvesD:
  "store_evolves st st' \<Longrightarrow> mm_get st i = Some out \<Longrightarrow> \<exists>out'. mm_get st' i = Some out' \<and> evolves out out'"
  "store_evolves st st' \<Longrightarrow> mm_get st' i = Some out' \<Longrightarrow> \<exists>out. mm_get st i = Some out \<and> evolves out out'"
  by (fastforce simp: store_evolves_def rel_option_iff dest!: spec [of _ i] split: option.splits)+

lemma links_evolve:
  assumes "links_ok st" "store_evolves st st'"
  shows "links_ok st'"
  unfolding links_ok_def
proof (intro allI impI)
  fix i out' p
  assume o': "mm_get st' i = Some out'" and p: "p \<in> set (or_else (lo_supersedes out') [])"
  from store_evolvesD(2) [OF assms(2) o'] obtain out where
    out: "mm_get st i = Some out" "evolves out out'" by blast
  with p have "p \<in> set (or_else (lo_supersedes out) [])" by (simp add: evolves_def)
  with assms(1) out(1) obtain pout where
    pout: "mm_get st p = Some pout" "lo_loopId pout = lo_loopId out"
      "i \<in> set (or_else (lo_supersededBy pout) [])"
    unfolding links_ok_def by blast
  from store_evolvesD(1) [OF assms(2) pout(1)] obtain pout' where
    "mm_get st' p = Some pout'" "evolves pout pout'" by blast
  with pout out(2) show "\<exists>pout'. mm_get st' p = Some pout' \<and> lo_loopId pout' = lo_loopId out' \<and>
      i \<in> set (or_else (lo_supersededBy pout') [])"
    by (auto simp: evolves_def)
qed

subsection \<open>Conditional changes\<close>

lemma applyIf_get:
  "mm_get (fst (applyIf st j cond change)) i =
     (if i = j then map_option (\<lambda>out. if cond out then change out else out) (mm_get st i)
      else mm_get st i)"
  by (auto simp: applyIf_def split_beta mm.update_get intro!: option.map_cong)

text \<open>A change is sound when it makes a step of the machine and keeps the shape.\<close>

definition sound_change :: "(loop_output \<Rightarrow> bool) \<Rightarrow> (loop_output \<Rightarrow> loop_output) \<Rightarrow> bool" where
  "sound_change cond change \<longleftrightarrow>
     (\<forall>out. cond out \<longrightarrow> evolves out (change out)) \<and>
     (\<forall>i out. output_ok i out \<longrightarrow> cond out \<longrightarrow> output_ok i (change out))"

lemma applyIf_evolves:
  assumes "sound_change cond change" shows "store_evolves st (fst (applyIf st j cond change))"
  using assms
  by (auto simp: store_evolves_def applyIf_get sound_change_def rel_option_iff split: option.split)

lemma applyIf_inv:
  assumes "sound_change cond change" "outputs_inv st"
  shows "outputs_inv (fst (applyIf st j cond change))"
proof -
  have "jwf (fst (applyIf st j cond change))"
    using assms(2) by (simp add: applyIf_def split_beta outputs_inv_def mm.invar_update)
  moreover have "links_ok (fst (applyIf st j cond change))"
    using assms(2) applyIf_evolves [OF assms(1)] links_evolve unfolding outputs_inv_def by blast
  moreover have "output_ok i out" if "mm_get (fst (applyIf st j cond change)) i = Some out" for i out
    using that assms
    by (auto simp: applyIf_get outputs_inv_def sound_change_def split: if_splits)
  ultimately show ?thesis by (simp add: outputs_inv_def)
qed

lemma applyIf_shape:
  assumes "sound_change cond change"
    and "jwf st \<and> (\<forall>j out. mm_get st j = Some out \<longrightarrow> output_ok j out)"
  shows "jwf (fst (applyIf st i cond change)) \<and>
    (\<forall>j out. mm_get (fst (applyIf st i cond change)) j = Some out \<longrightarrow> output_ok j out)"
proof -
  have "jwf (fst (applyIf st i cond change))"
    using assms(2) by (simp add: applyIf_def split_beta mm.invar_update)
  then show ?thesis
    using assms by (auto simp: applyIf_get sound_change_def split: if_splits)
qed

lemma applyEach_sound:
  assumes "sound_change cond change"
  shows "store_evolves st (fst (applyEach cond change st outs)) \<and>
    (outputs_inv st \<longrightarrow> outputs_inv (fst (applyEach cond change st outs)))"
proof (induction outs arbitrary: st)
  case (Cons out outs)
  from Cons.IH [of "fst (applyIf st (lo_id out) cond change)"]
  show ?case
    using store_evolves_trans [OF applyIf_evolves [OF assms]] applyIf_inv [OF assms]
    by (auto simp: Let_def split_beta)
qed simp

lemma move_evolves: "output_move s t \<Longrightarrow> output_move\<^sup>*\<^sup>* s t" by blast

lemma sound_changes:
  "sound_change (\<lambda>c. lo_state c = OsStaged) (\<lambda>c. c\<lparr>lo_state := OsReady, lo_updatedAt := now\<rparr>)"
  "sound_change (\<lambda>c. lo_state c = OsStaged \<or> lo_state c = OsReady)
     (\<lambda>c. c\<lparr>lo_state := OsSuperseded, lo_updatedAt := now\<rparr>)"
  "sound_change (\<lambda>c. lo_state c = OsStaged \<or> unresolvedOutput c)
     (\<lambda>c. c\<lparr>lo_state := OsSuperseded, lo_updatedAt := now\<rparr>)"
  "sound_change (\<lambda>out. lo_state out = OsReady \<or> shipLapsed out t)
     (\<lambda>out. out\<lparr>lo_state := OsShipping, lo_claimedAt := Some t, lo_claimToken := Some token,
                lo_updatedAt := t\<rparr>)"
  "sound_change (holdsShip token) (\<lambda>out. out\<lparr>lo_shipFireKey := Some fireKey, lo_updatedAt := now\<rparr>)"
  "sound_change (holdsShip token)
     (\<lambda>out. out\<lparr>lo_state := OsUnconfirmed, lo_claimedAt := None, lo_claimToken := None, lo_updatedAt := now\<rparr>)"
  "sound_change (\<lambda>out. lo_state out = OsUnconfirmed)
     (\<lambda>out. out\<lparr>lo_state := OsShipped, lo_decidedBy := Some actorId, lo_decidedAt := Some now,
                lo_updatedAt := now, lo_decisionNote := note_or note (lo_decisionNote out)\<rparr>)"
  "sound_change (holdsShip token)
     (\<lambda>out. out\<lparr>lo_state := OsShipped, lo_decidedBy := Some actorId, lo_decidedAt := Some now,
                lo_updatedAt := now, lo_shipResult := Some res, lo_claimedAt := None,
                lo_claimToken := None, lo_decisionNote := note_or note (lo_decisionNote out)\<rparr>)"
  "sound_change (holdsShip token)
     (\<lambda>out. out\<lparr>lo_state := OsReady, lo_claimedAt := None, lo_claimToken := None, lo_updatedAt := now\<rparr>)"
  "sound_change (\<lambda>out. lo_state out = OsReady \<or> lo_state out = OsUnconfirmed)
     (\<lambda>out. out\<lparr>lo_state := OsReturned, lo_decidedBy := Some actorId, lo_decidedAt := Some now,
                lo_updatedAt := now, lo_decisionNote := note_or note (lo_decisionNote out)\<rparr>)"
  "sound_change (\<lambda>c. lo_state c = OsReady) (\<lambda>c. c\<lparr>lo_state := OsExpired, lo_updatedAt := now\<rparr>)"
  by (auto simp: sound_change_def evolves_def closed_states_def output_ok_def isDecided_def
      unresolvedOutput_def shipLapsed_def holdsShip_def intro!: move_evolves)

lemma mm_update_applyIf: "fst (mm_update st i f) = fst (applyIf st i (\<lambda>_. True) f)"
  by (simp add: applyIf_def split_beta)

lemma sound_superseder: "sound_change (\<lambda>_. True) (add_superseder i t)"
  by (auto simp: sound_change_def evolves_def output_ok_def isDecided_def add_superseder_def)

lemma classify_sound: "sound_change (\<lambda>_. True) (\<lambda>out.
     out\<lparr>lo_title := or_else (cl_title inp) (lo_title out),
         lo_summary := (if cl_summary inp = None then lo_summary out else cl_summary inp),
         lo_label := (if cl_label inp = None then lo_label out else cl_label inp),
         lo_externalRef := (if cl_externalRef inp = None then lo_externalRef out else cl_externalRef inp),
         lo_updatedAt := now\<rparr>)"
  by (simp add: sound_change_def evolves_def output_ok_def isDecided_def)

subsection \<open>Capture\<close>

definition mark_prior :: "ident \<Rightarrow> time \<Rightarrow> output_store \<Rightarrow> loop_output list \<Rightarrow> output_store" where
  "mark_prior i t st prior = foldl (\<lambda>s out. fst (mm_update s (lo_id out) (add_superseder i t))) st prior"

lemma mark_prior_sound:
  "store_evolves st (mark_prior i t st prior) \<and> (outputs_inv st \<longrightarrow> outputs_inv (mark_prior i t st prior))"
proof (induction prior arbitrary: st)
  case (Cons out outs)
  from Cons.IH [of "fst (mm_update st (lo_id out) (add_superseder i t))"]
  show ?case
    using store_evolves_trans [OF applyIf_evolves [OF sound_superseder]]
      applyIf_inv [OF sound_superseder]
    by (auto simp: mark_prior_def mm_update_applyIf)
qed (simp add: mark_prior_def)

lemma mark_prior_marks:
  assumes "out \<in> set prior" "mm_get (mark_prior i t st prior) (lo_id out) = Some out'"
  shows "i \<in> set (or_else (lo_supersededBy out') [])"
  using assms
proof (induction prior arbitrary: st)
  case (Cons o1 outs)
  let ?st1 = "fst (mm_update st (lo_id o1) (add_superseder i t))"
  from Cons.prems(2) have get: "mm_get (mark_prior i t ?st1 outs) (lo_id out) = Some out'"
    by (simp add: mark_prior_def)
  show ?case
  proof (cases "out = o1")
    case True
    have ev: "store_evolves ?st1 (mark_prior i t ?st1 outs)" using mark_prior_sound by blast
    from store_evolvesD(2) [OF ev get] obtain m where
      m: "mm_get ?st1 (lo_id out) = Some m" "evolves m out'" by blast
    from m(1) True have "i \<in> set (or_else (lo_supersededBy m) [])"
      by (auto simp: mm.update_get add_superseder_def)
    with m(2) show ?thesis by (auto simp: evolves_def)
  next
    case False
    with Cons.prems(1) get show ?thesis using Cons.IH [of ?st1] by simp
  qed
qed simp

lemma outputsOfLoop_iff:
  "jwf st \<Longrightarrow> out \<in> set (outputsOfLoop st l) \<longleftrightarrow> (\<exists>i. mm_get st i = Some out) \<and> lo_loopId out = l"
  by (auto simp: outputsOfLoop_def mm.all_iff)

lemma prior_in:
  assumes "outputs_inv st" "out \<in> set (prior_outputs st inp)"
  shows "mm_get st (lo_id out) = Some out" "lo_loopId out = ci_loopId inp"
  using assms by (auto simp: prior_outputs_def outputs_inv_def outputsOfLoop_iff output_ok_def)

lemma capture_inv:
  assumes "outputs_inv st"
  shows "outputs_inv (fst (capture hash st inp now t))"
proof -
  let ?i = "loopOutputId hash (ci_loopId inp) (ci_itemId inp) (ci_attemptId inp)
                (ci_shipAction inp) (or_else (ci_ordinal inp) 0) (ci_externalRef inp)"
  let ?prior = "prior_outputs st inp"
  let ?cand = "output_candidate ?i inp ?prior now"
  show ?thesis
  proof (cases "mm_get st ?i")
    case (Some old)
    have "capture hash st inp now t = (mark_prior (lo_id old) t st ?prior, old)"
      using Some by (simp add: capture_def Let_def mm.putIfAbsent_old mark_prior_def)
    with assms mark_prior_sound show ?thesis by simp
  next
    case None
    let ?st1 = "mm_put st ?i ?cand"
    let ?st2 = "mark_prior ?i t ?st1 ?prior"
    have cap: "capture hash st inp now t = (?st2, ?cand)"
      using None
      by (simp add: capture_def Let_def mm.putIfAbsent_new mark_prior_def) (simp add: output_candidate_def)
    have ev: "store_evolves ?st1 ?st2" using mark_prior_sound by blast
    have ok1: "output_ok j out" if "mm_get ?st1 j = Some out" for j out
      using that assms
      by (auto simp: mm.get_put outputs_inv_def output_ok_def output_candidate_def isDecided_def
          split: if_splits)
    have "jwf ?st2 \<and> (\<forall>j out. mm_get ?st2 j = Some out \<longrightarrow> output_ok j out)"
    proof -
      have "jwf s \<and> (\<forall>j out. mm_get s j = Some out \<longrightarrow> output_ok j out) \<Longrightarrow>
          jwf (mark_prior ?i t s outs) \<and>
          (\<forall>j out. mm_get (mark_prior ?i t s outs) j = Some out \<longrightarrow> output_ok j out)" for s outs
      proof (induction outs arbitrary: s)
        case (Cons o1 outs)
        from Cons.IH [OF applyIf_shape [OF sound_superseder Cons.prems]]
        show ?case by (simp add: mark_prior_def mm_update_applyIf)
      qed (simp add: mark_prior_def)
      moreover have "jwf ?st1" using assms by (simp add: outputs_inv_def mm.invar_put)
      ultimately show ?thesis using ok1 by blast
    qed
    moreover have "links_ok ?st2"
      unfolding links_ok_def
    proof (intro allI impI)
      fix j out' p
      assume o': "mm_get ?st2 j = Some out'" and p: "p \<in> set (or_else (lo_supersedes out') [])"
      from store_evolvesD(2) [OF ev o'] obtain out where
        out: "mm_get ?st1 j = Some out" "evolves out out'" by blast
      have p': "p \<in> set (or_else (lo_supersedes out) [])" using p out(2) by (simp add: evolves_def)
      show "\<exists>pout. mm_get ?st2 p = Some pout \<and> lo_loopId pout = lo_loopId out' \<and>
          j \<in> set (or_else (lo_supersededBy pout) [])"
      proof (cases "j = ?i")
        case True
        with out(1) have cand: "out = ?cand" by (simp add: mm.get_put)
        with p' obtain q where q: "q \<in> set ?prior" "p = lo_id q"
          by (auto simp: output_candidate_def split: if_splits)
        from prior_in [OF assms q(1)] None have "mm_get ?st1 p = Some q" "lo_loopId q = ci_loopId inp"
          by (auto simp: mm.get_put q(2))
        moreover from store_evolvesD(1) [OF ev this(1)] obtain q' where
          "mm_get ?st2 p = Some q'" "evolves q q'" by blast
        moreover have "j \<in> set (or_else (lo_supersededBy q') [])"
          using mark_prior_marks [OF q(1)] \<open>mm_get ?st2 p = Some q'\<close> True q(2) by simp
        moreover have "lo_loopId out' = ci_loopId inp"
          using out(2) cand by (simp add: evolves_def output_candidate_def)
        ultimately show ?thesis by (auto simp: evolves_def)
      next
        case False
        with out(1) have "mm_get st j = Some out" by (simp add: mm.get_put)
        with assms p' obtain q where
          q: "mm_get st p = Some q" "lo_loopId q = lo_loopId out" "j \<in> set (or_else (lo_supersededBy q) [])"
          unfolding outputs_inv_def links_ok_def by blast
        with None have "mm_get ?st1 p = Some q" by (auto simp: mm.get_put)
        from store_evolvesD(1) [OF ev this] obtain q' where
          "mm_get ?st2 p = Some q'" "evolves q q'" by blast
        with q out(2) show ?thesis by (auto simp: evolves_def)
      qed
    qed
    ultimately show ?thesis by (simp add: cap outputs_inv_def)
  qed
qed


lemma delete_outputs_inv:
  assumes "outputs_inv st" shows "outputs_inv (deleteOutputsOfLoop st l)"
proof -
  let ?ids = "map lo_id (outputsOfLoop st l)"
  have get: "mm_get (deleteOutputsOfLoop st l) j = (if j \<in> set ?ids then None else mm_get st j)" for j
    by (simp add: deleteOutputsOfLoop_def mm.get_delete_all)
  have ids: "mm_get st j = Some out \<Longrightarrow> j \<in> set ?ids \<longleftrightarrow> lo_loopId out = l" for j out
    using assms by (fastforce simp: outputs_inv_def outputsOfLoop_iff output_ok_def)
  have "links_ok (deleteOutputsOfLoop st l)"
    using assms ids unfolding links_ok_def outputs_inv_def get
    by (metis (no_types, lifting) option.distinct(1))
  moreover have "jwf (deleteOutputsOfLoop st l)"
    using assms by (simp add: outputs_inv_def deleteOutputsOfLoop_def mm.invar_delete_all)
  ultimately show ?thesis
    using assms by (simp add: outputs_inv_def get)
qed

subsection \<open>Sequences of operations\<close>

datatype output_op =
    OoCapture capture_input time time
  | OoClassify ident classify_input time
  | OoPromote ident ident time
  | OoSupersede ident ident time
  | OoSupersedeSiblings ident ident time
  | OoClaim ident string time
  | OoBegin ident string string time
  | OoUnconfirmed ident string time
  | OoConfirm ident string "string option" time
  | OoComplete ident string string "string option" ship_result time
  | OoFail ident string time
  | OoReturn ident string "string option" time
  | OoExpire ident time time
  | OoDelete ident

fun output_step :: "(json option list \<Rightarrow> ident) \<Rightarrow> output_store \<Rightarrow> output_op \<Rightarrow> output_store" where
  "output_step hash st (OoCapture inp now t) = fst (capture hash st inp now t)"
| "output_step hash st (OoClassify i inp now) = fst (classify st i inp now)"
| "output_step hash st (OoPromote it a now) = fst (promoteAttempt st it a now)"
| "output_step hash st (OoSupersede it a now) = fst (supersedeAttempt st it a now)"
| "output_step hash st (OoSupersedeSiblings it ex now) = fst (supersedeActiveSiblings st it ex now)"
| "output_step hash st (OoClaim i tok t) = fst (claimShipping st i tok t)"
| "output_step hash st (OoBegin i tok k now) = fst (beginShipAttempt st i tok k now)"
| "output_step hash st (OoUnconfirmed i tok now) = fst (markUnconfirmed st i tok now)"
| "output_step hash st (OoConfirm i a n now) = fst (confirmShipped st i a n now)"
| "output_step hash st (OoComplete i tok a n r now) = fst (completeShipping st i tok a n r now)"
| "output_step hash st (OoFail i tok now) = fst (failShipping st i tok now)"
| "output_step hash st (OoReturn i a n now) = fst (returnToLoop st i a n now)"
| "output_step hash st (OoExpire l cutoff now) = fst (expireOlderThan st l cutoff now)"
| "output_step hash st (OoDelete l) = deleteOutputsOfLoop st l"

lemmas output_op_defs =
  classify_def promoteAttempt_def supersedeAttempt_def supersedeActiveSiblings_def claimShipping_def
  beginShipAttempt_def markUnconfirmed_def confirmShipped_def completeShipping_def failShipping_def
  returnToLoop_def expireOlderThan_def

lemmas sound_ops = sound_changes classify_sound

lemma output_step_inv: "outputs_inv st \<Longrightarrow> outputs_inv (output_step hash st x)"
  by (cases x) (simp_all add: output_op_defs mm_update_applyIf capture_inv delete_outputs_inv
      applyIf_inv applyEach_sound sound_ops)

interpretation outputs: op_invariant "output_step hash" "\<lambda>_ _. True" outputs_inv for hash
  by unfold_locales (rule output_step_inv)

lemma ok_run_trivial: "ok_run f (\<lambda>_ _. True) s xs"
  by (induction xs arbitrary: s) auto

lemma empty_outputs_inv: "outputs_inv []"
  by (simp add: outputs_inv_def links_ok_def mm_get_def)

text \<open>
  After any sequence of operations every output is under its own identifier, holds a shipping
  token exactly while it ships (a superseded one may keep it), names who decided and when exactly
  if it was shipped or returned, and has a ship result only if it shipped; and whatever it
  supersedes is an output of the same loop that records being superseded by it.
\<close>

theorem output_invariant: "outputs_inv (foldl (output_step hash) [] ops)"
  by (rule outputs.run_keeps [OF empty_outputs_inv ok_run_trivial])










end
