(* ===== verification/LoopGovernance.thy ===== *)
theory LoopGovernance
  imports Complex_Main LoopLedger LoopOutputs Identity
begin

section \<open>Loops: definition, policy, grants and the governor\<close>

text \<open>
  The loop itself (\<open>src/src/loops/loop-store.ts\<close> with \<open>src/src/triggers/trigger-store.ts\<close>), the
  decision whether an output ships on its own (\<open>src/src/loops/ship-gate.ts\<close>), the standing grants
  (\<open>src/src/loops/ship-grant-store.ts\<close>) and the governor (\<open>src/src/loops/governor.ts\<close>).

  A destination and the other values the code only stores are opaque JSON. Rates are exact
  rationals; the text of a governor's reason is the constructor with the numbers it shows.
\<close>

subsection \<open>Triggers\<close>

datatype consent_status = ConsentPending | ConsentAccepted | ConsentDeclined

record recipient_consent =
  rc_recipientId :: string
  rc_status :: consent_status
  rc_decidedAt :: "time option"

record destination =
  de_type :: string
  de_target :: string
  de_rest :: json

record create_trigger_input =
  ct_ownerScopeId :: scope_id
  ct_owner :: string
  ct_createdBy :: string
  ct_destination :: "destination option"
  ct_ownerConsentedAt :: "time option"
  ct_recipientConsent :: "recipient_consent option"

record trigger_base =
  tb_id :: ident
  tb_ownerScopeId :: scope_id
  tb_owner :: string
  tb_createdBy :: string
  tb_ownerConsentedAt :: "time option"
  tb_destination :: "destination option"
  tb_enabled :: bool
  tb_createdAt :: time
  tb_lastFiredAt :: "time option"
  tb_recipientConsent :: "recipient_consent option"

definition consentRequiredRecipient :: "string \<Rightarrow> bool \<Rightarrow> destination option \<Rightarrow> string option" where
  "consentRequiredRecipient owner standing dest =
     (if \<not> standing then None
      else case dest of
        None \<Rightarrow> None
      | Some d \<Rightarrow> if de_type d = ''principal'' \<and> \<not> samePerson (Some (de_target d)) (Some owner)
                  then Some (de_target d) else None)"

definition recipientConsentSatisfied :: "recipient_consent option \<Rightarrow> string option \<Rightarrow> bool" where
  "recipientConsentSatisfied consent required =
     (if \<not> truthy required
      then (case consent of None \<Rightarrow> True | Some c \<Rightarrow> rc_status c = ConsentAccepted)
      else (case consent of None \<Rightarrow> False
            | Some c \<Rightarrow> rc_status c = ConsentAccepted \<and> samePerson (Some (rc_recipientId c)) required))"

datatype consent_refusal = NoConsent | NotRecipient

definition decideRecipientConsent ::
  "recipient_consent option \<Rightarrow> string \<Rightarrow> bool \<Rightarrow> time \<Rightarrow> consent_refusal + recipient_consent" where
  "decideRecipientConsent current actorId accept now =
     (case current of
        None \<Rightarrow> Inl NoConsent
      | Some c \<Rightarrow>
          if \<not> samePerson (Some (rc_recipientId c)) (Some actorId) then Inl NotRecipient
          else Inr (c\<lparr>rc_status := (if accept then ConsentAccepted else ConsentDeclined),
                      rc_decidedAt := Some now\<rparr>))"

text \<open>A time that is absent or zero is falsy.\<close>

definition truthy_time :: "time option \<Rightarrow> bool" where
  "truthy_time t = (t \<noteq> None \<and> t \<noteq> Some 0)"

definition assertNoEscalation :: "create_trigger_input \<Rightarrow> bool" where
  "assertNoEscalation inp \<longleftrightarrow>
     samePerson (Some (ct_owner inp)) (Some (ct_createdBy inp)) \<or> truthy_time (ct_ownerConsentedAt inp)"

definition buildTriggerBase :: "create_trigger_input \<Rightarrow> ident \<Rightarrow> time \<Rightarrow> trigger_base" where
  "buildTriggerBase inp i createdAt =
     \<lparr>tb_id = i, tb_ownerScopeId = ct_ownerScopeId inp, tb_owner = ct_owner inp,
      tb_createdBy = ct_createdBy inp,
      tb_ownerConsentedAt = (if truthy_time (ct_ownerConsentedAt inp) then ct_ownerConsentedAt inp else None),
      tb_destination = ct_destination inp, tb_enabled = True, tb_createdAt = createdAt,
      tb_lastFiredAt = None, tb_recipientConsent = ct_recipientConsent inp\<rparr>"

text \<open>
  C26. Standing messages to somebody else need that person's consent: a decision is taken only by
  the recipient it names, and a required consent is satisfied after it exactly when the recipient
  accepted; whoever the consent names must be the required recipient.
\<close>

theorem recipient_consent:
  assumes "consentRequiredRecipient owner standing dest = Some r" and "r \<noteq> []"
  shows "standing \<and> \<not> samePerson (Some r) (Some owner) \<and>
    \<not> recipientConsentSatisfied None (Some r) \<and>
    (\<forall>c actor now. rc_recipientId c = r \<longrightarrow> samePerson (Some r) (Some actor) \<longrightarrow>
       (\<exists>c'. decideRecipientConsent (Some c) actor accept now = Inr c' \<and>
          recipientConsentSatisfied (Some c') (Some r) = accept)) \<and>
    (\<forall>c actor now. \<not> samePerson (Some (rc_recipientId c)) (Some actor) \<longrightarrow>
       decideRecipientConsent (Some c) actor accept now = Inl NotRecipient) \<and>
    (\<forall>c. \<not> samePerson (Some (rc_recipientId c)) (Some r) \<longrightarrow>
       \<not> recipientConsentSatisfied (Some c) (Some r))"
proof -
  have "standing" "\<not> samePerson (Some r) (Some owner)"
    using assms(1) by (auto simp: consentRequiredRecipient_def split: if_splits option.splits)
  moreover have "samePerson (Some r) (Some actor) \<Longrightarrow> samePerson (Some r) (Some r)" for actor
    by (auto simp: samePerson_def)
  ultimately show ?thesis
    using assms(2) by (auto simp: recipientConsentSatisfied_def decideRecipientConsent_def)
qed

theorem recipient_consent_witness:
  "\<not> recipientConsentSatisfied None (Some ''bob'') \<and>
   consentRequiredRecipient ''ann'' True (Some \<lparr>de_type = ''principal'', de_target = ''bob'', de_rest = JNull\<rparr>)
     = Some ''bob''"
proof -
  have "consentRequiredRecipient ''ann'' True
      (Some \<lparr>de_type = ''principal'', de_target = ''bob'', de_rest = JNull\<rparr>) = Some ''bob''"
    by code_simp
  moreover from recipient_consent [OF this] have "\<not> recipientConsentSatisfied None (Some ''bob'')" by simp
  ultimately show ?thesis by simp
qed

subsection \<open>The loop\<close>

datatype loop_state = LoopEnabled | LoopPaused | LoopQuarantined | LoopArchived
datatype loop_health = Healthy | Degraded | Failing | Quarantined
datatype ship_gate = GateHold | GateAuto

record ship_action_policy =
  sp_action :: string
  sp_gate :: ship_gate

record loop_caps =
  cap_maxItemsPerFire :: "nat option"
  cap_maxOpenOutputs :: "nat option"
  cap_maxItemAttempts :: "nat option"

record loop_governor_config =
  gc_maxConsecutiveFailedFires :: "nat option"
  gc_maxQueueDepth :: "nat option"
  gc_maxQueueAgeMs :: "time option"
  gc_maxReturnRate :: "rat option"
  gc_returnRateMinDecisions :: "nat option"
  gc_staleFireMs :: "time option"

record playbook_revision =
  pr_version :: nat
  pr_at :: time
  pr_by :: string
  pr_note :: "string option"

datatype run_as = RunAsOwner | RunAsScopeFloor | RunAsScopeShared

record loop = trigger_base +
  lp_name :: string
  lp_purpose :: "string option"
  lp_surface :: "string option"
  lp_sources :: "string list option"
  lp_playbook :: string
  lp_playbookVersion :: nat
  lp_playbookHistory :: "playbook_revision list"
  lp_policyVersion :: nat
  lp_successCondition :: string
  lp_successChecks :: "string list option"
  lp_shipActions :: "ship_action_policy list"
  lp_caps :: "loop_caps option"
  lp_governor :: "loop_governor_config option"
  lp_state :: loop_state
  lp_health :: loop_health
  lp_healthReason :: "string option"
  lp_throttle :: "bool option"
  lp_cronId :: "string option"
  lp_runAs :: "run_as option"
  lp_consecutiveFailedFires :: "nat option"
  lp_quarantineClearedBy :: "string option"
  lp_quarantineClearedAt :: "time option"

definition isRunnable :: "loop \<Rightarrow> bool" where
  "isRunnable l \<longleftrightarrow> lp_state l = LoopEnabled"

definition normalizeName :: "string \<Rightarrow> string option" where
  "normalizeName name =
     (let trimmed = collapse_spaces (js_trim name)
      in if trimmed = [] then None
         else Some (if length trimmed > 80 then take 79 trimmed @ ''...'' else trimmed))"

definition normalizeShipActions :: "ship_action_policy list option \<Rightarrow> ship_action_policy list" where
  "normalizeShipActions actions =
     jvals (foldl (\<lambda>m p. let action = js_trim (sp_action p)
                         in if action \<noteq> [] then jset m action \<lparr>sp_action = action, sp_gate = sp_gate p\<rparr>
                            else m) [] (or_else actions []))"

definition state_fields :: "loop_state \<Rightarrow> loop \<Rightarrow> loop" where
  "state_fields s l = l\<lparr>lp_state := s, tb_enabled := (s = LoopEnabled)\<rparr>"

type_synonym loop_store = "(ident, loop) jmap"

record create_loop_input = create_trigger_input +
  cli_name :: string
  cli_surface :: "string option"
  cli_sources :: "string list option"
  cli_playbook :: string
  cli_successCondition :: string
  cli_purpose :: "string option"
  cli_successChecks :: "string list option"
  cli_shipActions :: "ship_action_policy list option"
  cli_caps :: "loop_caps option"
  cli_governor :: "loop_governor_config option"
  cli_cronId :: "string option"
  cli_runAs :: "run_as option"
  cli_schedule :: json

datatype loop_error = EscalationRefused | NameRequired

text \<open>
  The content identifier is the digest of the normalized name and every other field of the input:
  \<open>hash\<close> is given the whole input with the name replaced.
\<close>

definition loop_candidate :: "create_loop_input \<Rightarrow> string \<Rightarrow> ident \<Rightarrow> time \<Rightarrow> loop" where
  "loop_candidate inp name contentId now =
     trigger_base.extend (buildTriggerBase (create_trigger_input.truncate inp) contentId now)
       (loop.fields name (cli_purpose inp) (cli_surface inp) (cli_sources inp) (cli_playbook inp) 1
          [\<lparr>pr_version = 1, pr_at = now, pr_by = ct_createdBy inp, pr_note = None\<rparr>] 1
          (cli_successCondition inp) (cli_successChecks inp)
          (normalizeShipActions (cli_shipActions inp)) (cli_caps inp) (cli_governor inp)
          LoopEnabled Healthy None None
          (if truthy (cli_cronId inp) then cli_cronId inp else None) (cli_runAs inp) None None None)"

definition create_loop ::
  "(create_loop_input \<Rightarrow> ident) \<Rightarrow> loop_store \<Rightarrow> create_loop_input \<Rightarrow> time
     \<Rightarrow> loop_error + (loop_store \<times> loop \<times> bool)" where
  "create_loop hash st inp now =
     (if \<not> assertNoEscalation (create_trigger_input.truncate inp) then Inl EscalationRefused
      else case normalizeName (cli_name inp) of
        None \<Rightarrow> Inl NameRequired
      | Some name \<Rightarrow>
          let contentId = hash (inp\<lparr>cli_name := name\<rparr>);
              candidate = loop_candidate inp name contentId now;
              (st', created) = mm_insertIfAbsent st contentId candidate
          in Inr (st', if created then candidate else or_else (mm_get st' contentId) candidate, created))"

record playbook_edit =
  pe_playbook :: string
  pe_by :: string
  pe_note :: "string option"

text \<open>
  A patch: \<open>None\<close> is \<open>undefined\<close>. \<open>destination\<close> and \<open>recipientConsent\<close> can be patched with null,
  which is \<open>Some None\<close>.
\<close>

record loop_patch =
  up_name :: "string option"
  up_purpose :: "string option"
  up_successCondition :: "string option"
  up_successChecks :: "string list option"
  up_destination :: "destination option option"
  up_recipientConsent :: "recipient_consent option option"
  up_shipActions :: "ship_action_policy list option"
  up_caps :: "loop_caps option"
  up_governor :: "loop_governor_config option"
  up_cronId :: "string option"
  up_runAs :: "run_as option"
  up_state :: "loop_state option"
  up_playbookEdit :: "playbook_edit option"
  up_restore :: "loop option"
  up_quarantineClearedBy :: "string option"
  up_quarantineClearedAt :: "time option"

definition opt_set :: "'b option \<Rightarrow> ('b \<Rightarrow> 'a \<Rightarrow> 'a) \<Rightarrow> 'a \<Rightarrow> 'a" where
  "opt_set v f x = (case v of None \<Rightarrow> x | Some b \<Rightarrow> f b x)"

definition edits_playbook :: "loop_patch \<Rightarrow> loop \<Rightarrow> bool" where
  "edits_playbook p l = (case up_playbookEdit p of
     None \<Rightarrow> False | Some e \<Rightarrow> pe_playbook e \<noteq> lp_playbook l)"

definition policyChanged :: "loop_patch \<Rightarrow> loop \<Rightarrow> bool" where
  "policyChanged p l \<longleftrightarrow>
     (case up_shipActions p of None \<Rightarrow> False
      | Some acts \<Rightarrow> normalizeShipActions (Some acts) \<noteq> lp_shipActions l) \<or> edits_playbook p l"

definition patch_fields :: "loop_patch \<Rightarrow> loop \<Rightarrow> loop" where
  "patch_fields p l =
     opt_set (up_quarantineClearedAt p) (\<lambda>v x. x\<lparr>lp_quarantineClearedAt := Some v\<rparr>)
     (opt_set (up_quarantineClearedBy p) (\<lambda>v x. x\<lparr>lp_quarantineClearedBy := Some v\<rparr>)
     (opt_set (up_state p) state_fields
     (opt_set (up_runAs p) (\<lambda>v x. x\<lparr>lp_runAs := Some v\<rparr>)
     (opt_set (up_cronId p) (\<lambda>v x. x\<lparr>lp_cronId := Some v\<rparr>)
     (opt_set (up_governor p) (\<lambda>v x. x\<lparr>lp_governor := Some v\<rparr>)
     (opt_set (up_caps p) (\<lambda>v x. x\<lparr>lp_caps := Some v\<rparr>)
     (opt_set (up_shipActions p) (\<lambda>v x. x\<lparr>lp_shipActions := normalizeShipActions (Some v)\<rparr>)
     (opt_set (up_recipientConsent p) (\<lambda>v x. x\<lparr>tb_recipientConsent := v\<rparr>)
     (opt_set (up_destination p) (\<lambda>v x. x\<lparr>tb_destination := v\<rparr>)
     (opt_set (up_successChecks p) (\<lambda>v x. x\<lparr>lp_successChecks := Some v\<rparr>)
     (opt_set (up_successCondition p) (\<lambda>v x. x\<lparr>lp_successCondition := v\<rparr>)
     (opt_set (up_purpose p) (\<lambda>v x. x\<lparr>lp_purpose := Some v\<rparr>) l))))))))))))"

definition edit_fields :: "loop_patch \<Rightarrow> loop \<Rightarrow> time \<Rightarrow> loop" where
  "edit_fields p l now =
     (if \<not> edits_playbook p l then l
      else
        let e = the (up_playbookEdit p); version = lp_playbookVersion l + 1
        in l\<lparr>lp_playbook := pe_playbook e, lp_playbookVersion := version,
             lp_playbookHistory := lp_playbookHistory l @
               [\<lparr>pr_version = version, pr_at = now, pr_by = pe_by e, pr_note = pe_note e\<rparr>]\<rparr>)"

text \<open>The function \<open>update\<close> gives to the durable map; a bad name throws.\<close>

definition patch_loop :: "loop_patch \<Rightarrow> time \<Rightarrow> loop \<Rightarrow> loop_error + loop" where
  "patch_loop p now l =
     (case up_restore p of
        Some r \<Rightarrow> Inr r
      | None \<Rightarrow>
          (case map_option normalizeName (up_name p) of
             Some None \<Rightarrow> Inl NameRequired
           | name \<Rightarrow>
               let l1 = patch_fields p (case name of Some (Some n) \<Rightarrow> l\<lparr>lp_name := n\<rparr> | _ \<Rightarrow> l);
                   l2 = edit_fields p l1 now
               in Inr (if policyChanged p l then l2\<lparr>lp_policyVersion := lp_policyVersion l + 1\<rparr> else l2)))"

definition update_loop ::
  "loop_store \<Rightarrow> ident \<Rightarrow> loop_patch \<Rightarrow> time \<Rightarrow> loop_error + (loop_store \<times> loop option)" where
  "update_loop st i p now =
     (case mm_get st i of
        None \<Rightarrow> Inr (st, None)
      | Some l \<Rightarrow> (case patch_loop p now l of
            Inl e \<Rightarrow> Inl e
          | Inr l' \<Rightarrow> Inr (mm_put st i l', Some l')))"

definition setLoopState :: "loop_store \<Rightarrow> ident \<Rightarrow> loop_state \<Rightarrow> loop_store \<times> loop option" where
  "setLoopState st i s = mm_update st i (state_fields s)"

definition setHealth ::
  "loop_store \<Rightarrow> ident \<Rightarrow> loop_health \<Rightarrow> string option \<Rightarrow> bool option \<Rightarrow> loop_store \<times> loop option" where
  "setHealth st i health reason throttle = mm_update st i (\<lambda>l.
     l\<lparr>lp_health := health, lp_healthReason := reason,
       lp_throttle := (if throttle = Some True then Some True else None)\<rparr>)"

definition recordFireOutcome :: "loop_store \<Rightarrow> ident \<Rightarrow> bool \<Rightarrow> time \<Rightarrow> loop_store \<times> loop option" where
  "recordFireOutcome st i failed now = mm_update st i (\<lambda>l.
     l\<lparr>lp_consecutiveFailedFires :=
         Some (if failed then or_else (lp_consecutiveFailedFires l) 0 + 1 else 0),
       tb_lastFiredAt := Some now\<rparr>)"

definition byCron :: "loop_store \<Rightarrow> ident \<Rightarrow> loop option" where
  "byCron st cronId = find (\<lambda>l. lp_cronId l = Some cronId) (mm_all st)"

subsection \<open>The ship gate\<close>

record revocation =
  rv_at :: time
  rv_by :: string

record ship_grant =
  sg_id :: ident
  sg_loopId :: ident
  sg_shipAction :: string
  sg_label :: "string option"
  sg_actorId :: string
  sg_policyVersion :: nat
  sg_createdAt :: time
  sg_revokedAt :: "time option"
  sg_revokedBy :: "string option"
  sg_history :: "revocation list option"

record ship_candidate =
  sc_shipAction :: string
  sc_label :: "string option"

datatype ship_decision = AutoByPolicy | AutoByGrant ident | Hold | Undeclared

definition declaredGate :: "loop \<Rightarrow> string \<Rightarrow> ship_gate option" where
  "declaredGate l action = map_option sp_gate (find (\<lambda>p. sp_action p = action) (lp_shipActions l))"

definition grantCovers :: "ship_grant \<Rightarrow> loop \<Rightarrow> ship_candidate \<Rightarrow> bool" where
  "grantCovers g l c =
     (if sg_loopId g \<noteq> tb_id l \<or> sg_policyVersion g \<noteq> lp_policyVersion l \<or> sg_revokedAt g \<noteq> None \<or>
         sg_shipAction g \<noteq> sc_shipAction c
      then False
      else sg_label g = None \<or> sg_label g = sc_label c)"

definition decideShip :: "loop \<Rightarrow> ship_candidate \<Rightarrow> ship_grant list \<Rightarrow> ship_decision" where
  "decideShip l c grants =
     (case declaredGate l (sc_shipAction c) of
        None \<Rightarrow> Undeclared
      | Some GateAuto \<Rightarrow> AutoByPolicy
      | Some GateHold \<Rightarrow> (case find (\<lambda>g. grantCovers g l c) grants of
            Some g \<Rightarrow> AutoByGrant (sg_id g)
          | None \<Rightarrow> Hold))"

text \<open>The organization's grant modes: only \<open>always === false\<close> disables standing grants.\<close>

definition graduationAllowed :: "bool option option \<Rightarrow> bool" where
  "graduationAllowed modes \<longleftrightarrow> modes \<noteq> Some (Some False)"

definition buildShipGrant ::
  "(json option list \<Rightarrow> ident) \<Rightarrow> ident \<Rightarrow> string \<Rightarrow> string \<Rightarrow> nat \<Rightarrow> string option
     \<Rightarrow> bool option option \<Rightarrow> time \<Rightarrow> ship_grant option" where
  "buildShipGrant hash loopId shipAction actorId policyVersion label modes now =
     (if \<not> graduationAllowed modes then None
      else Some
        \<lparr>sg_id = hash [Some (JStr loopId), Some (JNum (int policyVersion)), Some (JStr shipAction),
                       map_option JStr label],
         sg_loopId = loopId, sg_shipAction = shipAction, sg_label = label, sg_actorId = actorId,
         sg_policyVersion = policyVersion, sg_createdAt = now, sg_revokedAt = None,
         sg_revokedBy = None, sg_history = None\<rparr>)"

definition outputCandidate :: "loop_output \<Rightarrow> ship_candidate" where
  "outputCandidate out = \<lparr>sc_shipAction = lo_shipAction out, sc_label = lo_label out\<rparr>"

definition undeclaredShipActions :: "loop \<Rightarrow> string list \<Rightarrow> string list" where
  "undeclaredShipActions l actions =
     uniq (filter (\<lambda>a. a \<notin> set (map sp_action (lp_shipActions l))) actions)"

subsection \<open>Standing grants\<close>

type_synonym grant_store = "(ident, ship_grant) jmap"

definition revive :: "ship_grant \<Rightarrow> ship_grant \<Rightarrow> ship_grant" where
  "revive g current =
     (case sg_revokedAt current of
        None \<Rightarrow> current
      | Some t \<Rightarrow> current\<lparr>sg_history := Some (or_else (sg_history current) [] @
                             [\<lparr>rv_at = t, rv_by = or_else (sg_revokedBy current) ''unknown''\<rparr>]),
                         sg_revokedAt := None, sg_revokedBy := None,
                         sg_actorId := sg_actorId g, sg_createdAt := sg_createdAt g\<rparr>)"

definition put_ship_grant :: "grant_store \<Rightarrow> ship_grant \<Rightarrow> grant_store \<times> ship_grant" where
  "put_ship_grant st g =
     (let (st1, existing) = mm_putIfAbsent st (sg_id g) g
      in if sg_revokedAt existing = None then (st1, existing)
         else let (st2, after) = mm_update st1 (sg_id g) (revive g) in (st2, or_else after g))"

definition grantsOfLoop :: "grant_store \<Rightarrow> ident \<Rightarrow> ship_grant list" where
  "grantsOfLoop st l = filter (\<lambda>g. sg_loopId g = l) (mm_all st)"

definition revoke_ship_grant ::
  "grant_store \<Rightarrow> ident \<Rightarrow> string \<Rightarrow> time \<Rightarrow> grant_store \<times> ship_grant option" where
  "revoke_ship_grant st i actorId now = mm_update st i (\<lambda>g.
     if sg_revokedAt g = None then g\<lparr>sg_revokedAt := Some now, sg_revokedBy := Some actorId\<rparr> else g)"

definition deleteGrantsOfLoop :: "grant_store \<Rightarrow> ident \<Rightarrow> grant_store" where
  "deleteGrantsOfLoop st l = foldl mm_delete st (map sg_id (grantsOfLoop st l))"

subsection \<open>The governor\<close>

record loop_vitals =
  lv_queue :: loop_queue_stats
  lv_openOutputs :: nat
  lv_decidedOutputs :: nat
  lv_returnedOutputs :: nat
  lv_undeclared :: "string list option"

datatype governor_reason =
    UndeclaredActions "string list" | FailedFires nat | PercentReturned int | ItemsQueued nat
  | OldestQueuedMinutes int | NoFireMinutes int | OutputsWaiting nat

datatype governor_action = Quarantine governor_reason | Throttle governor_reason | Ping governor_reason

record governor_verdict =
  gv_health :: loop_health
  gv_reason :: "governor_reason option"
  gv_actions :: "governor_action list"
  gv_throttle :: bool
  gv_escalate :: bool

definition severity :: "loop_health \<Rightarrow> nat" where
  "severity h = (case h of Healthy \<Rightarrow> 0 | Degraded \<Rightarrow> 1 | Failing \<Rightarrow> 2 | Quarantined \<Rightarrow> 3)"

definition healthWorsened :: "loop_health \<Rightarrow> loop_health \<Rightarrow> bool" where
  "healthWorsened previous next \<longleftrightarrow> severity next > severity previous"

definition returnRate :: "loop_vitals \<Rightarrow> rat" where
  "returnRate v = (if lv_decidedOutputs v = 0 then 0
     else of_nat (lv_returnedOutputs v) / of_nat (lv_decidedOutputs v))"

text \<open>\<open>Math.round\<close>: to the nearest integer, halves up.\<close>

definition math_round :: "rat \<Rightarrow> int" where
  "math_round x = \<lfloor>x + 1/2\<rfloor>"

definition gov :: "loop \<Rightarrow> (loop_governor_config \<Rightarrow> 'a option) \<Rightarrow> 'a option" where
  "gov l field = (case lp_governor l of None \<Rightarrow> None | Some g \<Rightarrow> field g)"

text \<open>
  The checks of \<open>evaluateGovernor\<close> in order: what each pushes and what it raises the health to.
\<close>

type_synonym finding = "(governor_reason \<Rightarrow> governor_action) option \<times> loop_health \<times> governor_reason"

definition governor_checks :: "loop \<Rightarrow> loop_vitals \<Rightarrow> time \<Rightarrow> finding list" where
  "governor_checks l v now =
     (let undeclared = or_else (lv_undeclared v) [];
          failed = or_else (lp_consecutiveFailedFires l) 0;
          since = now - or_else (tb_lastFiredAt l) (tb_createdAt l);
          age = or_else (qs_oldestQueuedAgeMs (lv_queue v)) 0
      in (if undeclared \<noteq> [] then [(Some Quarantine, Quarantined, UndeclaredActions undeclared)] else []) @
         (if failed \<ge> or_else (gov l gc_maxConsecutiveFailedFires) 3
          then [(Some Quarantine, Quarantined, FailedFires failed)]
          else if failed \<ge> 2 then [(None, Failing, FailedFires failed)] else []) @
         (if lv_decidedOutputs v \<ge> or_else (gov l gc_returnRateMinDecisions) 4 \<and>
             returnRate v > or_else (gov l gc_maxReturnRate) (1/2)
          then [(Some Throttle, Failing, PercentReturned (math_round (returnRate v * 100)))] else []) @
         (case gov l gc_maxQueueDepth of None \<Rightarrow> []
          | Some m \<Rightarrow> if qs_queued (lv_queue v) > m
                       then [(Some Throttle, Degraded, ItemsQueued (qs_queued (lv_queue v)))] else []) @
         (case gov l gc_maxQueueAgeMs of None \<Rightarrow> []
          | Some m \<Rightarrow> if age > m
                       then [(Some Ping, Degraded, OldestQueuedMinutes (math_round (of_int age / 60000)))] else []) @
         (case gov l gc_staleFireMs of None \<Rightarrow> []
          | Some m \<Rightarrow> if since > m
                       then [(Some Ping, Degraded, NoFireMinutes (math_round (of_int since / 60000)))] else []) @
         (case Option.bind (lp_caps l) cap_maxOpenOutputs of None \<Rightarrow> []
          | Some m \<Rightarrow> if lv_openOutputs v \<ge> m
                       then [(Some Ping, Degraded, OutputsWaiting (lv_openOutputs v))] else []))"

definition raise_health ::
  "loop_health \<times> governor_reason option \<Rightarrow> finding \<Rightarrow> loop_health \<times> governor_reason option" where
  "raise_health hr f = (let (health, reason) = hr; (_, next, why) = f
     in if severity next > severity health then (next, Some why) else hr)"

definition evaluateGovernor :: "loop \<Rightarrow> loop_vitals \<Rightarrow> time \<Rightarrow> governor_verdict" where
  "evaluateGovernor l v now =
     (let checks = governor_checks l v now;
          (health, reason) = foldl raise_health (Healthy, None) checks;
          actions = concat (map (\<lambda>(a, _, why). case a of None \<Rightarrow> [] | Some f \<Rightarrow> [f why]) checks)
      in \<lparr>gv_health = health, gv_reason = reason, gv_actions = actions,
          gv_throttle = list_ex (\<lambda>a. case a of Throttle _ \<Rightarrow> True | _ \<Rightarrow> False) actions,
          gv_escalate = healthWorsened (lp_health l) health\<rparr>)"

definition collectVitals :: "loop \<Rightarrow> item_ledger \<Rightarrow> output_store \<Rightarrow> time \<Rightarrow> loop_vitals" where
  "collectVitals l items outputs now =
     (let outs = outputsOfLoop outputs (tb_id l);
          decided = filter isDecided outs;
          undeclared = undeclaredShipActions l
            (map lo_shipAction (filter (\<lambda>out. lo_state out = OsStaged \<or> unresolvedOutput out) outs))
      in \<lparr>lv_queue = ledger_stats items (tb_id l) now,
          lv_openOutputs = length (filter unresolvedOutput outs),
          lv_decidedOutputs = length decided,
          lv_returnedOutputs = length (filter (\<lambda>out. lo_state out = OsReturned) decided),
          lv_undeclared = (if undeclared \<noteq> [] then Some undeclared else None)\<rparr>)"

end
