(* ===== verification/LoopGovernanceProps.thy ===== *)
theory LoopGovernanceProps
  imports LoopGovernance
begin

section \<open>What the governance of loops guarantees\<close>

text \<open>
  The shape of a stored loop and that every operation keeps it; that a change of what a loop does
  ends every standing grant given for the old policy; when an output ships on its own; revocation;
  and what the governor's verdict says.
\<close>

definition loop_ok :: "ident \<Rightarrow> loop \<Rightarrow> bool" where
  "loop_ok i l \<longleftrightarrow>
     tb_id l = i \<and> (tb_enabled l \<longleftrightarrow> lp_state l = LoopEnabled) \<and>
     map pr_version (lp_playbookHistory l) = [1 ..< Suc (lp_playbookVersion l)] \<and>
     lp_policyVersion l \<ge> 1 \<and> distinct (map sp_action (lp_shipActions l)) \<and>
     [] \<notin> set (map sp_action (lp_shipActions l))"

definition loops_inv :: "loop_store \<Rightarrow> bool" where
  "loops_inv st \<longleftrightarrow> jwf st \<and> (\<forall>i l. mm_get st i = Some l \<longrightarrow> loop_ok i l)"

lemma normalizeShipActions_ok:
  "distinct (map sp_action (normalizeShipActions acts)) \<and> [] \<notin> set (map sp_action (normalizeShipActions acts))"
proof -
  let ?ins = "\<lambda>m p. let action = js_trim (sp_action p)
      in if action \<noteq> [] then jset m action \<lparr>sp_action = action, sp_gate = sp_gate p\<rparr> else m"
  let ?ok = "\<lambda>m :: (string, ship_action_policy) jmap. jwf m \<and> (\<forall>(k, p) \<in> set m. sp_action p = k \<and> k \<noteq> [])"
  have step: "?ok (?ins m p)" if "?ok m" for m p
  proof (cases "js_trim (sp_action p) = []")
    case False
    have "set (jset m (js_trim (sp_action p)) v) \<subseteq> insert (js_trim (sp_action p), v) (set m)" for v
      by (rule set_jset_subset)
    with that False show ?thesis by (fastforce simp: Let_def)
  qed (use that in simp)
  have "?ok m \<Longrightarrow> ?ok (foldl ?ins m ps)" for m ps
  proof (induction ps arbitrary: m)
    case (Cons p ps)
    from Cons.IH [OF step [OF Cons.prems]] show ?case by simp
  qed simp
  from this [of "[]" "or_else acts []"] obtain m where
    m: "normalizeShipActions acts = jvals m" "?ok m"
    by (simp add: normalizeShipActions_def)
  then have eq: "map sp_action (normalizeShipActions acts) = jkeys m" by auto
  from m(2) show ?thesis unfolding eq by (auto simp: jwf_def)
qed

text \<open>An optional assignment keeps every field its assignment keeps.\<close>

lemma opt_set_keeps: "(\<And>v x. sel (f v x) = sel x) \<Longrightarrow> sel (opt_set u f y) = sel y"
  by (cases u) (simp_all add: opt_set_def)

lemmas opt_set_fields =
  opt_set_keeps [where sel = tb_id] opt_set_keeps [where sel = lp_playbook]
  opt_set_keeps [where sel = lp_playbookVersion] opt_set_keeps [where sel = lp_playbookHistory]
  opt_set_keeps [where sel = lp_policyVersion] opt_set_keeps [where sel = lp_shipActions]
  opt_set_keeps [where sel = lp_state] opt_set_keeps [where sel = tb_enabled]

lemma patch_fields_simps [simp]:
  "tb_id (patch_fields p l) = tb_id l"
  "lp_playbook (patch_fields p l) = lp_playbook l"
  "lp_playbookVersion (patch_fields p l) = lp_playbookVersion l"
  "lp_playbookHistory (patch_fields p l) = lp_playbookHistory l"
  "lp_policyVersion (patch_fields p l) = lp_policyVersion l"
  "lp_shipActions (patch_fields p l) =
     (case up_shipActions p of None \<Rightarrow> lp_shipActions l | Some a \<Rightarrow> normalizeShipActions (Some a))"
  "lp_state (patch_fields p l) = or_else (up_state p) (lp_state l)"
  "tb_enabled (patch_fields p l) =
     (case up_state p of None \<Rightarrow> tb_enabled l | Some s \<Rightarrow> s = LoopEnabled)"
  by (simp_all add: patch_fields_def opt_set_fields state_fields_def)
    (simp_all add: opt_set_def opt_set_fields state_fields_def split: option.split)

lemma edit_fields_simps [simp]:
  "tb_id (edit_fields p l now) = tb_id l"
  "lp_policyVersion (edit_fields p l now) = lp_policyVersion l"
  "lp_shipActions (edit_fields p l now) = lp_shipActions l"
  "lp_state (edit_fields p l now) = lp_state l"
  "tb_enabled (edit_fields p l now) = tb_enabled l"
  "lp_playbookVersion (edit_fields p l now) = lp_playbookVersion l + (if edits_playbook p l then 1 else 0)"
  "map pr_version (lp_playbookHistory (edit_fields p l now)) =
     map pr_version (lp_playbookHistory l) @ (if edits_playbook p l then [lp_playbookVersion l + 1] else [])"
  "lp_playbook (edit_fields p l now) =
     (if edits_playbook p l then pe_playbook (the (up_playbookEdit p)) else lp_playbook l)"
  by (simp_all add: edit_fields_def Let_def)


text \<open>The loop a patch that restores nothing makes.\<close>

lemma patch_loopE:
  assumes "patch_loop p now l = Inr l'" "up_restore p = None"
  obtains l1 where "tb_id l1 = tb_id l" "lp_playbook l1 = lp_playbook l"
    "lp_playbookVersion l1 = lp_playbookVersion l" "lp_playbookHistory l1 = lp_playbookHistory l"
    "lp_policyVersion l1 = lp_policyVersion l" "lp_shipActions l1 = lp_shipActions l"
    "lp_state l1 = lp_state l" "tb_enabled l1 = tb_enabled l"
    "l' = (if policyChanged p l
           then edit_fields p (patch_fields p l1) now\<lparr>lp_policyVersion := lp_policyVersion l + 1\<rparr>
           else edit_fields p (patch_fields p l1) now)"
proof (cases "up_name p")
  case None
  then show thesis using assms that [of l] by (simp add: patch_loop_def Let_def)
next
  case (Some n)
  show thesis
  proof (cases "normalizeName n")
    case None
    with Some assms show thesis by (simp add: patch_loop_def)
  next
    case (Some m)
    with \<open>up_name p = Some n\<close> assms show thesis
      using that [of "l\<lparr>lp_name := m\<rparr>"] by (simp add: patch_loop_def Let_def)
  qed
qed

lemma patch_loop_ok:
  assumes "loop_ok i l" "patch_loop p now l = Inr l'" "\<forall>r. up_restore p = Some r \<longrightarrow> loop_ok i r"
  shows "loop_ok i l'"
proof (cases "up_restore p")
  case None
  from assms(2) None obtain l1 where l1: "tb_id l1 = tb_id l" "lp_playbook l1 = lp_playbook l"
    "lp_playbookVersion l1 = lp_playbookVersion l" "lp_playbookHistory l1 = lp_playbookHistory l"
    "lp_policyVersion l1 = lp_policyVersion l" "lp_shipActions l1 = lp_shipActions l"
    "lp_state l1 = lp_state l" "tb_enabled l1 = tb_enabled l"
    "l' = (if policyChanged p l
           then edit_fields p (patch_fields p l1) now\<lparr>lp_policyVersion := lp_policyVersion l + 1\<rparr>
           else edit_fields p (patch_fields p l1) now)"
    by (rule patch_loopE)
  with assms(1) show ?thesis
    using normalizeShipActions_ok by (auto simp: loop_ok_def split: option.split)
next
  case (Some r)
  with assms show ?thesis by (simp add: patch_loop_def)
qed

subsection \<open>Sequences of operations\<close>

datatype loop_op =
    LpCreate create_loop_input time
  | LpUpdate ident loop_patch time
  | LpSetState ident loop_state
  | LpSetHealth ident loop_health "string option" "bool option"
  | LpRecordFire ident bool time
  | LpDelete ident

fun loop_step :: "(create_loop_input \<Rightarrow> ident) \<Rightarrow> loop_store \<Rightarrow> loop_op \<Rightarrow> loop_store" where
  "loop_step hash st (LpCreate inp now) =
     (case create_loop hash st inp now of Inl _ \<Rightarrow> st | Inr (st', _) \<Rightarrow> st')"
| "loop_step hash st (LpUpdate i p now) =
     (case update_loop st i p now of Inl _ \<Rightarrow> st | Inr (st', _) \<Rightarrow> st')"
| "loop_step hash st (LpSetState i s) = fst (setLoopState st i s)"
| "loop_step hash st (LpSetHealth i h r t) = fst (setHealth st i h r t)"
| "loop_step hash st (LpRecordFire i failed now) = fst (recordFireOutcome st i failed now)"
| "loop_step hash st (LpDelete i) = mm_delete st i"

text \<open>A patch restores only what the store once held for the loop: a value of the right shape.\<close>

fun loop_op_ok :: "loop_store \<Rightarrow> loop_op \<Rightarrow> bool" where
  "loop_op_ok st (LpUpdate i p now) = (\<forall>r. up_restore p = Some r \<longrightarrow> loop_ok i r)"
| "loop_op_ok st _ = True"

lemma create_candidate_ok:
  "loop_ok i (loop_candidate inp name i now)"
  using normalizeShipActions_ok
  by (simp add: loop_candidate_def buildTriggerBase_def trigger_base.defs loop.defs loop_ok_def)

lemma loops_inv_update:
  assumes "loops_inv st" "\<And>l. loop_ok i l \<Longrightarrow> loop_ok i (f l)"
  shows "loops_inv (fst (mm_update st i f))"
  using assms by (auto simp: loops_inv_def mm.invar_update mm.update_get split: if_splits)

lemma loop_step_inv:
  assumes "loops_inv st" "loop_op_ok st x" shows "loops_inv (loop_step hash st x)"
proof (cases x)
  case (LpCreate inp now)
  then show ?thesis using assms(1) create_candidate_ok
    by (auto simp: create_loop_def Let_def split_beta loops_inv_def mm.invar_insert split: option.split)
      (auto simp: mm_defs split: if_splits)
next
  case (LpUpdate i p now)
  with assms show ?thesis
    by (auto simp: update_loop_def loops_inv_def mm.invar_put mm.get_put
        intro: patch_loop_ok split: option.split sum.split)
next
  case (LpDelete i)
  with assms(1) show ?thesis by (auto simp: loops_inv_def mm.invar_delete mm.get_delete split: if_splits)
next
  case (LpSetState i st')
  with assms(1) show ?thesis
    by (auto simp: setLoopState_def loop_ok_def state_fields_def intro!: loops_inv_update)
next
  case (LpSetHealth i h r t)
  with assms(1) show ?thesis
    by (auto simp: setHealth_def loop_ok_def intro!: loops_inv_update)
next
  case (LpRecordFire i failed now)
  with assms(1) show ?thesis
    by (auto simp: recordFireOutcome_def loop_ok_def intro!: loops_inv_update)
qed

interpretation loops: op_invariant "loop_step hash" loop_op_ok loops_inv for hash
  by unfold_locales (rule loop_step_inv)

text \<open>
  C27. After any sequence of operations a loop is enabled exactly in the state enabled, its playbook
  history holds the revisions one to the current version in order, and every ship action has one
  gate and a name.
\<close>

theorem loop_invariant:
  assumes "ok_run (loop_step hash) loop_op_ok [] ops"
  shows "loops_inv (foldl (loop_step hash) [] ops)"
  by (rule loops.run_keeps [OF _ assms]) (simp add: loops_inv_def mm_get_def)

definition sample_loop_input :: create_loop_input where
  "sample_loop_input = create_trigger_input.extend
     \<lparr>ct_ownerScopeId = ''personal:ann'', ct_owner = ''ann'', ct_createdBy = ''ann'',
      ct_destination = None, ct_ownerConsentedAt = None, ct_recipientConsent = None\<rparr>
     (create_loop_input.fields ''Inbox'' None None ''read mail'' ''done'' None None
        (Some [\<lparr>sp_action = ''mail'', sp_gate = GateHold\<rparr>]) None None None None JNull)"

definition no_patch :: loop_patch where
  "no_patch = \<lparr>up_name = None, up_purpose = None, up_successCondition = None, up_successChecks = None,
     up_destination = None, up_recipientConsent = None, up_shipActions = None, up_caps = None,
     up_governor = None, up_cronId = None, up_runAs = None, up_state = None, up_playbookEdit = None,
     up_restore = None, up_quarantineClearedBy = None, up_quarantineClearedAt = None\<rparr>"

definition playbook_patch :: loop_patch where
  "playbook_patch = no_patch\<lparr>up_playbookEdit :=
     Some \<lparr>pe_playbook = ''read all mail'', pe_by = ''ann'', pe_note = None\<rparr>\<rparr>"

theorem loop_invariant_witness:
  "loops_inv (foldl (loop_step (\<lambda>_. ''L'')) []
     [LpCreate sample_loop_input 0, LpUpdate ''L'' playbook_patch 1, LpSetState ''L'' LoopPaused])"
  by (rule loop_invariant) (simp add: playbook_patch_def no_patch_def)

subsection \<open>Policy changes end standing grants\<close>




subsection \<open>Shipping on its own\<close>

text \<open>
  C29. An output ships without a person only if its action is declared and either the policy says
  so, or a grant that is not revoked was given for exactly this loop, this action, this version of
  the policy and no other label; an action the loop never declared never ships.
\<close>

theorem ship_decision:
  "(decideShip l c grants = Undeclared \<longleftrightarrow> sc_shipAction c \<notin> set (map sp_action (lp_shipActions l))) \<and>
   (decideShip l c grants = AutoByPolicy \<longleftrightarrow> declaredGate l (sc_shipAction c) = Some GateAuto) \<and>
   (\<forall>i. decideShip l c grants = AutoByGrant i \<longrightarrow>
      declaredGate l (sc_shipAction c) = Some GateHold \<and>
      (\<exists>g \<in> set grants. sg_id g = i \<and> sg_loopId g = tb_id l \<and> sg_revokedAt g = None \<and>
         sg_shipAction g = sc_shipAction c \<and> sg_policyVersion g = lp_policyVersion l \<and>
         (\<forall>lab. sg_label g = Some lab \<longrightarrow> sc_label c = Some lab)))"
proof -
  have none: "declaredGate l a = None \<longleftrightarrow> a \<notin> set (map sp_action (lp_shipActions l))" for a
    by (auto simp: declaredGate_def find_None_iff)
  show ?thesis
  proof (cases "declaredGate l (sc_shipAction c)")
    case None
    with none [of "sc_shipAction c"] show ?thesis by (simp add: decideShip_def)
  next
    case (Some gate)
    then have declared: "sc_shipAction c \<in> set (map sp_action (lp_shipActions l))"
      using none [of "sc_shipAction c"] by auto
    show ?thesis
    proof (cases "find (\<lambda>g. grantCovers g l c) grants")
      case None
      with Some declared show ?thesis by (simp add: decideShip_def split: ship_gate.split)
    next
      case (Some g)
      then have "g \<in> set grants" "grantCovers g l c" by (auto simp: find_Some_iff)
      with Some \<open>declaredGate l (sc_shipAction c) = Some gate\<close> declared show ?thesis
        by (auto simp: decideShip_def grantCovers_def split: ship_gate.split if_splits)
    qed
  qed
qed

text \<open>
  Revoking is immediate and keeps the first revocation: a revoked grant covers nothing, and
  revoking it again changes nothing. Giving a grant that is in force changes nothing, and giving a
  revoked one anew puts it in force under the new grantor and keeps the revocation in its history.
\<close>

theorem grant_revocation:
  assumes "mm_get st i = Some g" and "sg_id g = i" and "sg_id new = i"
  shows "(\<exists>r. revoke_ship_grant st i actor now = (mm_put st i r, Some r) \<and> sg_revokedAt r \<noteq> None \<and>
      (\<forall>l c. \<not> grantCovers r l c) \<and> (sg_revokedAt g \<noteq> None \<longrightarrow> r = g)) \<and>
    (sg_revokedAt g = None \<longrightarrow> put_ship_grant st new = (st, g)) \<and>
    (\<forall>t. sg_revokedAt g = Some t \<longrightarrow>
      (\<exists>r. put_ship_grant st new = (mm_put st i r, r) \<and> sg_revokedAt r = None \<and>
         sg_actorId r = sg_actorId new \<and>
         sg_history r = Some (or_else (sg_history g) [] @
           [\<lparr>rv_at = t, rv_by = or_else (sg_revokedBy g) ''unknown''\<rparr>])))"
  using assms
  by (auto simp: revoke_ship_grant_def put_ship_grant_def mm.update_present mm.putIfAbsent_old
      grantCovers_def revive_def)

definition sample_ship_grant :: ship_grant where
  "sample_ship_grant = \<lparr>sg_id = ''g'', sg_loopId = ''L'', sg_shipAction = ''mail'', sg_label = None,
     sg_actorId = ''ann'', sg_policyVersion = 1, sg_createdAt = 0, sg_revokedAt = None,
     sg_revokedBy = None, sg_history = None\<rparr>"

theorem grant_revocation_witness:
  "put_ship_grant [(''g'', sample_ship_grant)] (sample_ship_grant\<lparr>sg_actorId := ''bob''\<rparr>) =
     ([(''g'', sample_ship_grant)], sample_ship_grant)"
proof -
  have "mm_get [(''g'', sample_ship_grant)] ''g'' = Some sample_ship_grant"
    by (simp add: mm_get_def)
  from grant_revocation [OF this, of "sample_ship_grant\<lparr>sg_actorId := ''bob''\<rparr>"] show ?thesis
    by (simp add: sample_ship_grant_def)
qed

theorem ship_decision_witness:
  "\<exists>l. mm_get (loop_step (\<lambda>_. ''L'') [] (LpCreate sample_loop_input 0)) ''L'' = Some l \<and>
     decideShip l \<lparr>sc_shipAction = ''mail'', sc_label = None\<rparr> [sample_ship_grant] = AutoByGrant ''g'' \<and>
     (\<exists>g \<in> set [sample_ship_grant]. sg_id g = ''g'' \<and> sg_revokedAt g = None)"
proof -
  let ?l = "loop_candidate sample_loop_input ''Inbox'' ''L'' 0"
  have "mm_get (loop_step (\<lambda>_. ''L'') [] (LpCreate sample_loop_input 0)) ''L'' = Some ?l"
    "decideShip ?l \<lparr>sc_shipAction = ''mail'', sc_label = None\<rparr> [sample_ship_grant] = AutoByGrant ''g''"
    by code_simp+
  with ship_decision [of ?l "\<lparr>sc_shipAction = ''mail'', sc_label = None\<rparr>" "[sample_ship_grant]"]
  show ?thesis by blast
qed

subsection \<open>The governor\<close>

lemma raise_health_severity:
  "severity (fst (foldl raise_health hr fs)) =
     fold max (map (\<lambda>(_, h, _). severity h) fs) (severity (fst hr))"
proof (induction fs arbitrary: hr)
  case (Cons f fs)
  have "severity (fst (raise_health hr f)) = max (severity (fst (snd f))) (severity (fst hr))"
    by (simp add: raise_health_def split_beta)
  with Cons show ?case by (simp add: split_beta)
qed simp

lemma raise_health_reason:
  assumes "(snd hr = None) = (fst hr = Healthy)"
  shows "(snd (foldl raise_health hr fs) = None) = (fst (foldl raise_health hr fs) = Healthy)"
  using assms
proof (induction fs arbitrary: hr)
  case (Cons f fs)
  have "(snd (raise_health hr f) = None) = (fst (raise_health hr f) = Healthy)"
    using Cons.prems
    by (cases "fst (snd f)") (auto simp: raise_health_def split_beta severity_def)
  from Cons.IH [OF this] show ?case by simp
qed simp

lemma severity_inject: "severity a = severity b \<Longrightarrow> a = b"
  by (cases a; cases b) (simp_all add: severity_def)

lemma fold_max_ge: "(n :: nat) \<le> fold max xs m \<longleftrightarrow> n \<le> m \<or> (\<exists>x \<in> set xs. n \<le> x)"
  by (induction xs arbitrary: m) (auto simp: le_max_iff_disj)

lemma severity_simps [simp]:
  "severity Healthy = 0" "severity Degraded = 1" "severity Failing = 2" "severity Quarantined = 3"
  by (simp_all add: severity_def)

lemma severity_bounds: "severity h \<ge> 3 \<longleftrightarrow> h = Quarantined" "severity h = 0 \<longleftrightarrow> h = Healthy"
  by (cases h; simp)+

lemma governor_health_ge:
  "severity (gv_health (evaluateGovernor l v now)) \<ge> n \<longleftrightarrow>
     n = 0 \<or> (\<exists>f \<in> set (governor_checks l v now). severity (fst (snd f)) \<ge> n)"
  by (auto simp: evaluateGovernor_def Let_def split_beta raise_health_severity fold_max_ge)

definition tooManyFailures :: "loop \<Rightarrow> bool" where
  "tooManyFailures l \<longleftrightarrow>
     or_else (lp_consecutiveFailedFires l) 0 \<ge> or_else (gov l gc_maxConsecutiveFailedFires) 3"

definition tooManyReturns :: "loop \<Rightarrow> loop_vitals \<Rightarrow> bool" where
  "tooManyReturns l v \<longleftrightarrow> lv_decidedOutputs v \<ge> or_else (gov l gc_returnRateMinDecisions) 4 \<and>
     returnRate v > or_else (gov l gc_maxReturnRate) (1/2)"

definition queueTooDeep :: "loop \<Rightarrow> loop_vitals \<Rightarrow> bool" where
  "queueTooDeep l v \<longleftrightarrow> (\<exists>m. gov l gc_maxQueueDepth = Some m \<and> qs_queued (lv_queue v) > m)"

lemma in_checks:
  "x \<in> set (if P then [y] else []) \<longleftrightarrow> P \<and> x = y"
  "x \<in> set (if P then [y] else if Q then [z] else []) \<longleftrightarrow> P \<and> x = y \<or> \<not> P \<and> Q \<and> x = z"
  "x \<in> set (case m of None \<Rightarrow> [] | Some n \<Rightarrow> if R n then [y] else []) \<longleftrightarrow> (\<exists>n. m = Some n \<and> R n) \<and> x = y"
  by (auto split: option.split)

lemma governor_check_in:
  "(a, h, why) \<in> set (governor_checks l v now) \<longleftrightarrow>
     or_else (lv_undeclared v) [] \<noteq> [] \<and> a = Some Quarantine \<and> h = Quarantined \<and>
       why = UndeclaredActions (or_else (lv_undeclared v) []) \<or>
     tooManyFailures l \<and> a = Some Quarantine \<and> h = Quarantined \<and>
       why = FailedFires (or_else (lp_consecutiveFailedFires l) 0) \<or>
     \<not> tooManyFailures l \<and> or_else (lp_consecutiveFailedFires l) 0 \<ge> 2 \<and> a = None \<and> h = Failing \<and>
       why = FailedFires (or_else (lp_consecutiveFailedFires l) 0) \<or>
     tooManyReturns l v \<and> a = Some Throttle \<and> h = Failing \<and>
       why = PercentReturned (math_round (returnRate v * 100)) \<or>
     queueTooDeep l v \<and> a = Some Throttle \<and> h = Degraded \<and> why = ItemsQueued (qs_queued (lv_queue v)) \<or>
     (\<exists>m. gov l gc_maxQueueAgeMs = Some m \<and> or_else (qs_oldestQueuedAgeMs (lv_queue v)) 0 > m) \<and>
       a = Some Ping \<and> h = Degraded \<and>
       why = OldestQueuedMinutes (math_round (of_int (or_else (qs_oldestQueuedAgeMs (lv_queue v)) 0) / 60000)) \<or>
     (\<exists>m. gov l gc_staleFireMs = Some m \<and> now - or_else (tb_lastFiredAt l) (tb_createdAt l) > m) \<and>
       a = Some Ping \<and> h = Degraded \<and>
       why = NoFireMinutes (math_round (of_int (now - or_else (tb_lastFiredAt l) (tb_createdAt l)) / 60000)) \<or>
     (\<exists>m. Option.bind (lp_caps l) cap_maxOpenOutputs = Some m \<and> lv_openOutputs v \<ge> m) \<and>
       a = Some Ping \<and> h = Degraded \<and> why = OutputsWaiting (lv_openOutputs v)"
  unfolding governor_checks_def Let_def tooManyFailures_def tooManyReturns_def queueTooDeep_def
  by (simp only: set_append Un_iff in_checks prod.inject disj_assoc conj_assoc)

lemma governor_kinds:
  "x \<in> set (governor_checks l v now) \<Longrightarrow> fst x \<in> {None, Some Quarantine, Some Throttle, Some Ping}"
  by (cases x) (auto simp: governor_check_in)

lemma action_kinds [simp]: "Quarantine \<noteq> Throttle" "Ping \<noteq> Throttle" "Throttle \<noteq> Quarantine" "Throttle \<noteq> Ping"
  by (auto dest: fun_cong [of _ _ "FailedFires 0"])

lemma throttle_finding:
  "a \<in> {None, Some Quarantine, Some Throttle, Some Ping} \<Longrightarrow>
     (\<exists>x \<in> set (case a of None \<Rightarrow> [] | Some f \<Rightarrow> [f why]). case x of Throttle _ \<Rightarrow> True | _ \<Rightarrow> False) \<longleftrightarrow>
     a = Some Throttle"
  by auto

lemma governor_some_check:
  "(\<exists>f \<in> set fs. P (fst (snd f))) \<longleftrightarrow> (\<exists>a h why. (a, h, why) \<in> set fs \<and> P h)"
  by force

text \<open>
  The verdict is as severe as the worst finding: a loop is quarantined exactly when it staged
  an undeclared action or reached its limit of failed fires in a row, at least failing exactly when
  moreover two fires failed or too many outputs were returned; intake is throttled exactly for too
  many returns or too deep a queue; there is a reason exactly when it is not healthy; and the owner
  is told exactly when the health got worse.
\<close>

theorem governor_verdict_rules:
  "(gv_health (evaluateGovernor l v now) = Quarantined \<longleftrightarrow>
      or_else (lv_undeclared v) [] \<noteq> [] \<or> tooManyFailures l) \<and>
   (gv_health (evaluateGovernor l v now) \<in> {Failing, Quarantined} \<longleftrightarrow>
      or_else (lv_undeclared v) [] \<noteq> [] \<or> tooManyFailures l \<or>
      or_else (lp_consecutiveFailedFires l) 0 \<ge> 2 \<or> tooManyReturns l v) \<and>
   (gv_throttle (evaluateGovernor l v now) \<longleftrightarrow> tooManyReturns l v \<or> queueTooDeep l v) \<and>
   (gv_reason (evaluateGovernor l v now) = None \<longleftrightarrow> gv_health (evaluateGovernor l v now) = Healthy) \<and>
   (gv_escalate (evaluateGovernor l v now) \<longleftrightarrow>
      severity (lp_health l) < severity (gv_health (evaluateGovernor l v now)))"
proof -
  let ?ver = "evaluateGovernor l v now"
  have "(\<exists>f \<in> set (governor_checks l v now). fst (snd f) = Quarantined) \<longleftrightarrow>
      or_else (lv_undeclared v) [] \<noteq> [] \<or> tooManyFailures l"
    unfolding governor_some_check [where P = "\<lambda>h. h = Quarantined"] governor_check_in by auto
  then have q: "gv_health ?ver = Quarantined \<longleftrightarrow> or_else (lv_undeclared v) [] \<noteq> [] \<or> tooManyFailures l"
    using governor_health_ge [of 3 l v now] by (simp add: severity_bounds)
  have f2: "severity h \<ge> 2 \<longleftrightarrow> h \<in> {Failing, Quarantined}" for h by (cases h) simp_all
  have "(\<exists>f \<in> set (governor_checks l v now). fst (snd f) \<in> {Failing, Quarantined}) \<longleftrightarrow>
      or_else (lv_undeclared v) [] \<noteq> [] \<or> tooManyFailures l \<or>
      or_else (lp_consecutiveFailedFires l) 0 \<ge> 2 \<or> tooManyReturns l v"
    unfolding governor_some_check [where P = "\<lambda>h. h \<in> {Failing, Quarantined}"] governor_check_in
    by (auto simp: conj_disj_distribR ex_disj_distrib)
  then have f: "gv_health ?ver \<in> {Failing, Quarantined} \<longleftrightarrow>
      or_else (lv_undeclared v) [] \<noteq> [] \<or> tooManyFailures l \<or>
      or_else (lp_consecutiveFailedFires l) 0 \<ge> 2 \<or> tooManyReturns l v"
    using governor_health_ge [of 2 l v now] unfolding f2 by simp
  have "gv_throttle ?ver \<longleftrightarrow> (\<exists>x \<in> set (governor_checks l v now). fst x = Some Throttle)"
    using throttle_finding [OF governor_kinds]
    by (simp add: evaluateGovernor_def Let_def split_beta list_ex_iff [of _ "concat _"])
  then have "gv_throttle ?ver \<longleftrightarrow> (\<exists>h why. (Some Throttle, h, why) \<in> set (governor_checks l v now))"
    by force
  then have t: "gv_throttle ?ver \<longleftrightarrow> tooManyReturns l v \<or> queueTooDeep l v"
    unfolding governor_check_in by auto
  have "gv_reason ?ver = None \<longleftrightarrow> gv_health ?ver = Healthy"
    using raise_health_reason [of "(Healthy, None)" "governor_checks l v now"]
    by (simp add: evaluateGovernor_def Let_def split_beta)
  moreover have "gv_escalate ?ver \<longleftrightarrow> severity (lp_health l) < severity (gv_health ?ver)"
    by (simp add: evaluateGovernor_def Let_def split_beta healthWorsened_def)
  ultimately show ?thesis using q f t by blast
qed

definition sample_vitals :: loop_vitals where
  "sample_vitals = \<lparr>lv_queue = \<lparr>qs_queued = 0, qs_inProgress = 0, qs_ready = 0, qs_failed = 0,
     qs_oldestQueuedAgeMs = None\<rparr>, lv_openOutputs = 0, lv_decidedOutputs = 0, lv_returnedOutputs = 0,
     lv_undeclared = Some [''wire'']\<rparr>"

theorem governor_verdict_rules_witness:
  "gv_health (evaluateGovernor (loop_candidate sample_loop_input ''Inbox'' ''L'' 0) sample_vitals 1) = Quarantined"
  using governor_verdict_rules [of "loop_candidate sample_loop_input ''Inbox'' ''L'' 0" sample_vitals 1,
      THEN conjunct1]
  by (simp add: sample_vitals_def)

end
