(* ===== verification/Sessions.thy ===== *)
theory Sessions
  imports DurableMap Identity
begin

section \<open>Sessions: entries, tape, tenure and transcript windows\<close>

text \<open>
  The data of a session and the pure functions over it (\<open>src/src/sessions/session-store.ts\<close>,
  \<open>src/src/sessions/entry-search.ts\<close>, the session types of \<open>src/src/types.ts\<close>): the context
  window after a summary, the mirror of an entry on the tape, the tenure of a participant, the
  origin a thread reference encodes, the search terms, and the bounded transcript a client gets.

  Payloads are JSON values. Lengths are counted in the characters of the model.
\<close>

subsection \<open>Data\<close>

datatype session_type = Dm | ChannelSession | GroupSession

record session =
  se_id :: ident
  se_type :: session_type
  se_scopeId :: scope_id
  se_threadRef :: string
  se_surface :: "string option"
  se_createdAt :: time
  se_channelName :: "string option"
  se_title :: "string option"
  se_archived :: bool
  se_pinned :: bool
  se_color :: "string option"
  se_forkedFrom :: "json option"
  se_forkBoundarySeq :: "int option"
  se_parentSessionId :: "ident option"
  se_spawnMeta :: "json option"
  se_lastActivityAt :: "time option"
  se_hasEntries :: "bool option"

datatype entry_type =
  EtUser | EtAssistant | EtThinking | EtTextStart | EtText | EtToolCall | EtToolResult | EtSoul |
  EtSystem | EtDelivery | EtApprovalRequest | EtApprovalResolved

record new_entry =
  ne_type :: entry_type
  ne_payload :: json
  ne_scopeLabel :: scope_id

record session_entry =
  en_sessionId :: ident
  en_seq :: int
  en_parentSeq :: "int option"
  en_type :: entry_type
  en_payload :: json
  en_scopeLabel :: scope_id
  en_createdAt :: time

text \<open>A field of a payload: \<open>undefined\<close> on anything but an object that has it.\<close>

definition jfield :: "json \<Rightarrow> string \<Rightarrow> json option" where
  "jfield v k = (case v of JObj fs \<Rightarrow> map_of fs k | _ \<Rightarrow> None)"

definition jstring :: "json option \<Rightarrow> string option" where
  "jstring v = (case v of Some (JStr s) \<Rightarrow> Some s | _ \<Rightarrow> None)"

definition jnumber :: "json option \<Rightarrow> int option" where
  "jnumber v = (case v of Some (JNum n) \<Rightarrow> Some n | _ \<Rightarrow> None)"

subsection \<open>The context window\<close>

record context_summary =
  cs_throughSeq :: int
  cs_text :: string

definition contextSummaryPayload :: "session_entry \<Rightarrow> context_summary option" where
  "contextSummaryPayload e =
     (if en_type e = EtSystem \<and> jfield (en_payload e) ''kind'' = Some (JStr ''context_summary'') then
        (case (jnumber (jfield (en_payload e) ''throughSeq''), jstring (jfield (en_payload e) ''text'')) of
           (Some n, Some t) \<Rightarrow> Some \<lparr>cs_throughSeq = n, cs_text = t\<rparr>
         | _ \<Rightarrow> None)
      else None)"

definition createContextSummaryPayload :: "int \<Rightarrow> string \<Rightarrow> json" where
  "createContextSummaryPayload throughSeq text =
     JObj [(''kind'', JStr ''context_summary''), (''throughSeq'', JNum throughSeq), (''text'', JStr text)]"

record context_window =
  cw_entries :: "session_entry list"
  cw_totalEntries :: nat
  cw_hasSecurityTaint :: bool

definition entrySecurityTainted :: "session_entry \<Rightarrow> bool" where
  "entrySecurityTainted e \<longleftrightarrow> jfield (en_payload e) ''securityTainted'' = Some (JBool True)"

definition contextWindowFromEntries :: "session_entry list \<Rightarrow> context_window" where
  "contextWindowFromEntries es =
     (let latest = foldl (\<lambda>acc e. case contextSummaryPayload e of None \<Rightarrow> acc | Some s \<Rightarrow> Some s) None es
      in \<lparr>cw_entries = (case latest of None \<Rightarrow> es
            | Some s \<Rightarrow> filter (\<lambda>e. en_seq e > cs_throughSeq s) es),
          cw_totalEntries = length es,
          cw_hasSecurityTaint = list_ex entrySecurityTainted es\<rparr>)"

subsection \<open>The tape\<close>

datatype tape_kind = TkMessage | TkContextEvent | TkAnnotation

record new_tape_record =
  tp_kind :: tape_kind
  tp_payload :: json
  tp_scopeLabel :: scope_id
  tp_harness :: "string option"
  tp_meta :: "json option"
  tp_entrySeq :: "int option"
  tp_coversEntrySeq :: "int option"

record tape_record = new_tape_record +
  tp_sessionId :: ident
  tp_seq :: nat
  tp_createdAt :: time

definition entry_type_name :: "entry_type \<Rightarrow> string" where
  "entry_type_name t = (case t of
     EtUser \<Rightarrow> ''user'' | EtAssistant \<Rightarrow> ''assistant'' | EtThinking \<Rightarrow> ''thinking''
   | EtTextStart \<Rightarrow> ''text_start'' | EtText \<Rightarrow> ''text'' | EtToolCall \<Rightarrow> ''tool_call''
   | EtToolResult \<Rightarrow> ''tool_result'' | EtSoul \<Rightarrow> ''soul'' | EtSystem \<Rightarrow> ''system''
   | EtDelivery \<Rightarrow> ''delivery'' | EtApprovalRequest \<Rightarrow> ''approval_request''
   | EtApprovalResolved \<Rightarrow> ''approval_resolved'')"

definition entry_types :: "entry_type list" where
  "entry_types = [EtUser, EtAssistant, EtThinking, EtTextStart, EtText, EtToolCall, EtToolResult, EtSoul,
     EtSystem, EtDelivery, EtApprovalRequest, EtApprovalResolved]"

definition entry_type_of :: "string \<Rightarrow> entry_type option" where
  "entry_type_of s = find (\<lambda>t. entry_type_name t = s) entry_types"

definition jseq :: "int option \<Rightarrow> json" where
  "jseq n = (case n of None \<Rightarrow> JNull | Some i \<Rightarrow> JNum i)"

definition tapeTranscriptEntryRecord :: "session_entry \<Rightarrow> new_tape_record" where
  "tapeTranscriptEntryRecord e =
     \<lparr>tp_kind = TkAnnotation,
      tp_payload = JObj [(''event'', JStr ''transcript_entry''),
        (''entry'', JObj [(''type'', JStr (entry_type_name (en_type e))), (''payload'', en_payload e),
                        (''at'', JNum (en_createdAt e)), (''parentSeq'', jseq (en_parentSeq e))])],
      tp_scopeLabel = en_scopeLabel e, tp_harness = None, tp_meta = None,
      tp_entrySeq = Some (en_seq e), tp_coversEntrySeq = None\<rparr>"

text \<open>\<open>entry.payload ?? null\<close>.\<close>

definition transcriptEntryFromTape :: "tape_record \<Rightarrow> session_entry option" where
  "transcriptEntryFromTape row =
     (case tp_entrySeq row of
        None \<Rightarrow> None
      | Some sq \<Rightarrow>
          if tp_kind row \<noteq> TkAnnotation \<or>
             jfield (tp_payload row) ''event'' \<noteq> Some (JStr ''transcript_entry'') then None
          else (case jfield (tp_payload row) ''entry'' of
              None \<Rightarrow> None
            | Some entry \<Rightarrow>
                (case (Option.bind (jstring (jfield entry ''type'')) entry_type_of,
                       jnumber (jfield entry ''at''), jfield entry ''parentSeq'') of
                   (Some ty, Some at, Some (JNum p)) \<Rightarrow>
                     Some \<lparr>en_sessionId = tp_sessionId row, en_seq = sq, en_parentSeq = Some p,
                       en_type = ty, en_payload = or_else (jfield entry ''payload'') JNull,
                       en_scopeLabel = tp_scopeLabel row, en_createdAt = at\<rparr>
                 | (Some ty, Some at, Some JNull) \<Rightarrow>
                     Some \<lparr>en_sessionId = tp_sessionId row, en_seq = sq, en_parentSeq = None,
                       en_type = ty, en_payload = or_else (jfield entry ''payload'') JNull,
                       en_scopeLabel = tp_scopeLabel row, en_createdAt = at\<rparr>
                 | _ \<Rightarrow> None)))"

definition tape_record_of :: "new_tape_record \<Rightarrow> ident \<Rightarrow> nat \<Rightarrow> time \<Rightarrow> tape_record" where
  "tape_record_of r sid sq t = new_tape_record.extend r (tape_record.fields sid sq t)"

lemma entry_type_of_name [simp]: "entry_type_of (entry_type_name t) = Some t"
  by (cases t) (simp_all add: entry_type_of_def entry_types_def entry_type_name_def)

lemma transcript_mirror:
  "transcriptEntryFromTape (tape_record_of (tapeTranscriptEntryRecord e) (en_sessionId e) sq t) = Some e"
  by (cases "en_parentSeq e")
    (simp_all add: transcriptEntryFromTape_def tape_record_of_def tapeTranscriptEntryRecord_def
      new_tape_record.defs tape_record.defs jfield_def jstring_def jnumber_def jseq_def)

subsection \<open>Tenure\<close>

record tenure =
  tn_validFrom :: time
  tn_validTo :: "time option"
  tn_validFromSeq :: "int option"
  tn_validToSeq :: "int option"

definition entryWithinTenure :: "int \<Rightarrow> time \<Rightarrow> tenure \<Rightarrow> bool" where
  "entryWithinTenure sq createdAt w \<longleftrightarrow>
     (case tn_validFromSeq w of Some f \<Rightarrow> sq \<ge> f | None \<Rightarrow> createdAt \<ge> tn_validFrom w) \<and>
     (case tn_validToSeq w of
        Some t \<Rightarrow> sq < t
      | None \<Rightarrow> (case tn_validTo w of None \<Rightarrow> True | Some t \<Rightarrow> createdAt < t))"

subsection \<open>Origins\<close>

datatype session_origin = OrConversation | OrCron | OrWebhook | OrMonitor
datatype session_category = CatConversation | CatBackground

fun split_char :: "char \<Rightarrow> string \<Rightarrow> string list" where
  "split_char c [] = [[]]"
| "split_char c (x # xs) =
     (if x = c then [] # split_char c xs
      else case split_char c xs of [] \<Rightarrow> [[x]] | p # ps \<Rightarrow> (x # p) # ps)"

definition origin_of_name :: "string \<Rightarrow> session_origin option" where
  "origin_of_name s =
     (if s = ''cron'' then Some OrCron else if s = ''webhook'' then Some OrWebhook
      else if s = ''monitor'' then Some OrMonitor else None)"

text \<open>\<open>(:.+)?$\<close> after the second colon: nothing, or a colon and at least one character, none a newline.\<close>

definition legacy_tail :: "string list \<Rightarrow> bool" where
  "legacy_tail rest \<longleftrightarrow>
     rest = [] \<or> (rest \<noteq> [[]] \<and> list_all (list_all (\<lambda>c. of_char c \<noteq> (10 :: nat) \<and> of_char c \<noteq> (13 :: nat))) rest)"

definition stable_ref :: "string \<Rightarrow> (string \<times> string) option" where
  "stable_ref ref = (case split_char CHR '':'' ref of
     [a, m, orig, i] \<Rightarrow> if a = ''agent'' \<and> m = ''main'' \<and> i \<noteq> [] then Some (orig, i) else None
   | _ \<Rightarrow> None)"

definition legacy_ref :: "string \<Rightarrow> (string \<times> string) option" where
  "legacy_ref ref = (case split_char CHR '':'' ref of
     orig # i # rest \<Rightarrow> if i \<noteq> [] \<and> legacy_tail rest then Some (orig, i) else None
   | _ \<Rightarrow> None)"

definition sessionOrigin :: "string option \<Rightarrow> session_origin" where
  "sessionOrigin threadRef =
     (let ref = or_else threadRef [] in
      case Option.bind (stable_ref ref) (\<lambda>(orig, _). origin_of_name orig) of
        Some r \<Rightarrow> r
      | None \<Rightarrow> (case Option.bind (legacy_ref ref) (\<lambda>(orig, _). origin_of_name orig) of
            Some r \<Rightarrow> r
          | None \<Rightarrow> OrConversation))"

definition sessionCategory :: "session_origin \<Rightarrow> session_category" where
  "sessionCategory r = (if r = OrConversation then CatConversation else CatBackground)"

definition cronIdOf :: "string option \<Rightarrow> string option" where
  "cronIdOf threadRef =
     (let ref = or_else threadRef []; cron = (\<lambda>(orig, i). if orig = ''cron'' then Some i else None)
      in case Option.bind (stable_ref ref) cron of
           Some i \<Rightarrow> Some i
         | None \<Rightarrow> Option.bind (legacy_ref ref) cron)"

text \<open>The bucket: the session type of a conversation, the origin otherwise.\<close>

datatype session_bucket = ByType session_type | ByOrigin session_origin

definition sessionBucket :: "session_origin \<Rightarrow> session_type \<Rightarrow> session_bucket" where
  "sessionBucket r ty = (if r = OrConversation then ByType ty else ByOrigin r)"

subsection \<open>Search\<close>

definition word_char :: "char \<Rightarrow> bool" where
  "word_char c \<longleftrightarrow>
     (let n = of_char c :: nat
      in 48 \<le> n \<and> n \<le> 57 \<or> 65 \<le> n \<and> n \<le> 90 \<or> 97 \<le> n \<and> n \<le> 122 \<or>
         n \<in> {170, 178, 179, 181, 185, 186, 188, 189, 190} \<or>
         192 \<le> n \<and> n \<noteq> 215 \<and> n \<noteq> 247)"

fun words_of :: "string \<Rightarrow> string list" where
  "words_of [] = [[]]"
| "words_of (x # xs) =
     (if \<not> word_char x then [] # words_of xs
      else case words_of xs of [] \<Rightarrow> [[x]] | p # ps \<Rightarrow> (x # p) # ps)"

definition searchTerms :: "string \<Rightarrow> string list" where
  "searchTerms q = take 8 (filter (\<lambda>w. w \<noteq> []) (words_of (js_lower q)))"

definition searchable :: "entry_type \<Rightarrow> bool" where
  "searchable t \<longleftrightarrow> t = EtUser \<or> t = EtAssistant \<or> t = EtText"

definition entrySearchText :: "json \<Rightarrow> string option" where
  "entrySearchText payload =
     (case payload of JStr s \<Rightarrow> Some s | _ \<Rightarrow> jstring (jfield payload ''text''))"

definition entrySearchAuthor :: "entry_type \<Rightarrow> json \<Rightarrow> string option" where
  "entrySearchAuthor ty payload =
     (if ty \<noteq> EtUser then None
      else case jstring (jfield payload ''name'') of
        None \<Rightarrow> None
      | Some name \<Rightarrow> if js_trim name \<noteq> [] then Some (js_trim name) else None)"

definition matchesSearchTerms :: "string \<Rightarrow> string list \<Rightarrow> bool" where
  "matchesSearchTerms text terms =
     (if terms = [] then False
      else let ws = words_of (js_lower text)
           in list_all (\<lambda>t. list_ex (\<lambda>w. if length t \<ge> 3 then startsWith w t else w = t) ws) terms)"

definition isOverheardEntry :: "session_entry \<Rightarrow> bool" where
  "isOverheardEntry e \<longleftrightarrow> en_type e = EtUser \<and> jfield (en_payload e) ''overheard'' = Some (JBool True)"

subsection \<open>The bounded transcript\<close>

definition TRANSCRIPT_BYTE_BUDGET :: nat where "TRANSCRIPT_BYTE_BUDGET = 400000"
definition ENTRY_STRING_BUDGET :: nat where "ENTRY_STRING_BUDGET = 2000"
definition WALK_DEPTH :: nat where "WALK_DEPTH = 8"

text \<open>The length of the text \<open>JSON.stringify\<close> writes.\<close>

definition json_char_length :: "char \<Rightarrow> nat" where
  "json_char_length c =
     (let n = of_char c :: nat
      in if n = 34 \<or> n = 92 \<or> n \<in> {8, 9, 10, 12, 13} then 2 else if n < 32 then 6 else 1)"

definition json_string_length :: "string \<Rightarrow> nat" where
  "json_string_length s = 2 + sum_list (map json_char_length s)"

fun json_length :: "json \<Rightarrow> nat" where
  "json_length JNull = 4"
| "json_length (JBool b) = (if b then 4 else 5)"
| "json_length (JNum n) = length (show_nat (nat \<bar>n\<bar>)) + (if n < 0 then 1 else 0)"
| "json_length (JStr s) = json_string_length s"
| "json_length (JArr vs) = 2 + sum_list (map json_length vs) + (length vs - 1)"
| "json_length (JObj fs) =
     2 + sum_list (map (\<lambda>(k, v). json_string_length k + 1 + json_length v) fs) + (length fs - 1)"

fun payloadBytes :: "json \<Rightarrow> nat \<Rightarrow> nat" where
  "payloadBytes (JStr s) depth = length s + 2"
| "payloadBytes (JArr vs) depth =
     (if depth \<ge> WALK_DEPTH then json_length (JArr vs)
      else 2 + sum_list (map (\<lambda>v. payloadBytes v (depth + 1) + 1) vs))"
| "payloadBytes (JObj fs) depth =
     (if depth \<ge> WALK_DEPTH then json_length (JObj fs)
      else 2 + sum_list (map (\<lambda>(k, v). length k + payloadBytes v (depth + 1) + 4) fs))"
| "payloadBytes v depth = 8"

fun shortenStrings :: "json \<Rightarrow> nat \<Rightarrow> json \<times> bool" where
  "shortenStrings (JStr s) depth =
     (if length s > ENTRY_STRING_BUDGET then (JStr (take ENTRY_STRING_BUDGET s), True) else (JStr s, False))"
| "shortenStrings (JArr vs) depth =
     (if depth \<ge> WALK_DEPTH
      then (if payloadBytes (JArr vs) depth > ENTRY_STRING_BUDGET then (JNull, True) else (JArr vs, False))
      else let walked = map (\<lambda>v. shortenStrings v (depth + 1)) vs;
               truncated = list_ex snd walked
           in (if truncated then JArr (map fst walked) else JArr vs, truncated))"
| "shortenStrings (JObj fs) depth =
     (if depth \<ge> WALK_DEPTH
      then (if payloadBytes (JObj fs) depth > ENTRY_STRING_BUDGET then (JNull, True) else (JObj fs, False))
      else let walked = map (\<lambda>(k, v). (k, shortenStrings v (depth + 1))) fs;
               truncated = list_ex (snd \<circ> snd) walked
           in (if truncated then JObj (map (\<lambda>(k, w). (k, fst w)) walked) else JObj fs, truncated))"
| "shortenStrings v depth = (v, False)"

definition postsToTheConversation :: "session_entry \<Rightarrow> bool" where
  "postsToTheConversation e \<longleftrightarrow>
     en_type e = EtToolCall \<and> jfield (en_payload e) ''action'' = Some (JStr ''post'')"

text \<open>A transcript entry: the entry and the mark \<open>truncated\<close>.\<close>

definition projectEntry :: "session_entry \<Rightarrow> session_entry \<times> bool" where
  "projectEntry e =
     (if (en_type e \<noteq> EtToolCall \<and> en_type e \<noteq> EtToolResult) \<or> postsToTheConversation e then (e, False)
      else let (value, truncated) = shortenStrings (en_payload e) 0
           in if truncated then (e\<lparr>en_payload := value\<rparr>, True) else (e, False))"

text \<open>\<open>findIndex\<close>: \<open>None\<close> for -1.\<close>

fun findIndex :: "('a \<Rightarrow> bool) \<Rightarrow> 'a list \<Rightarrow> nat option" where
  "findIndex p [] = None"
| "findIndex p (x # xs) = (if p x then Some 0 else map_option Suc (findIndex p xs))"

text \<open>The loop from the end that stops at the \<open>tailTurns\<close>-th user entry; \<open>i\<close> entries are left.\<close>

fun tail_cut :: "session_entry list \<Rightarrow> nat \<Rightarrow> int \<Rightarrow> int \<Rightarrow> nat" where
  "tail_cut es 0 turns n = 0"
| "tail_cut es (Suc i) turns n =
     (if en_type (es ! i) \<noteq> EtUser then tail_cut es i turns n
      else if turns + 1 = n then i
      else tail_cut es i (turns + 1) n)"

text \<open>The loop that takes whole entries from the end within the byte budget.\<close>

fun spend_from :: "(session_entry \<times> bool) list \<Rightarrow> nat \<Rightarrow> nat \<Rightarrow> nat" where
  "spend_from ws 0 spend = 0"
| "spend_from ws (Suc i) spend =
     (let bytes = payloadBytes (en_payload (fst (ws ! i))) 0
      in if spend + bytes > TRANSCRIPT_BYTE_BUDGET \<and> Suc i < length ws then Suc i
         else spend_from ws i (spend + bytes))"

record transcript_bounds =
  tb_tailTurns :: "int option"
  tb_sinceSeq :: "int option"
  tb_beforeSeq :: "int option"

definition before_entries :: "session_entry list \<Rightarrow> transcript_bounds option \<Rightarrow> session_entry list" where
  "before_entries es window = (case Option.bind window tb_beforeSeq of
     None \<Rightarrow> es
   | Some b \<Rightarrow> take (or_else (findIndex (\<lambda>e. en_seq e \<ge> b) es) (length es)) es)"

definition transcript_cut :: "session_entry list \<Rightarrow> transcript_bounds option \<Rightarrow> nat" where
  "transcript_cut es window = (case window of
     None \<Rightarrow> 0
   | Some w \<Rightarrow> (case tb_sinceSeq w of
        Some s \<Rightarrow> or_else (findIndex (\<lambda>e. en_seq e \<ge> s) es) (length es)
      | None \<Rightarrow> (case tb_tailTurns w of
            Some n \<Rightarrow> if n > 0 then tail_cut es (length es) 0 n else 0
          | None \<Rightarrow> 0)))"

definition windowedTranscript ::
  "session_entry list \<Rightarrow> transcript_bounds option \<Rightarrow> (session_entry \<times> bool) list \<times> nat" where
  "windowedTranscript all window =
     (let es = before_entries all window;
          cut = transcript_cut es window;
          windowed = map projectEntry (drop cut es)
      in if window = None \<or> Option.bind window tb_sinceSeq \<noteq> None then (windowed, cut)
         else
           let from = spend_from windowed (length windowed) 0;
               boundary = map_option (\<lambda>k. from + k) (findIndex (\<lambda>(e, _). en_type e = EtUser) (drop from windowed));
               start = (if from > 0
                        then (case boundary of Some b \<Rightarrow> if b > 0 then b else from | None \<Rightarrow> from)
                        else from)
           in (drop start windowed, cut + start))"

end
