(* ===== verification/SessionStore.thy ===== *)
theory SessionStore
  imports Sessions
begin

section \<open>The session store\<close>

text \<open>
  The in-memory session store (\<open>src/src/sessions/memory-session-store.ts\<close>): sessions by thread,
  the writer's lease, the append-only log of entries with its mirror on the tape, the search index,
  participants with their tenure and personal view, pins, recorded model requests, and the
  listings over them.

  An operation that reads the clock several times takes a function \<open>clk\<close> from the number of the
  reading to its value. Session objects are updated in their map entry.
\<close>

datatype lease_holder = HolderTurn | HolderCompaction | HolderFork | HolderBackfill

record lease_state =
  ls_token :: string
  ls_expiresAt :: time
  ls_acquiredAt :: time
  ls_holder :: "lease_holder option"

record lease_ref =
  lr_sessionId :: ident
  lr_token :: string

record search_row =
  sr_seq :: int
  sr_type :: entry_type
  sr_author :: "string option"
  sr_text :: string
  sr_at :: time

record participant_view = tenure +
  pv_title :: "string option"
  pv_archived :: bool
  pv_pinned :: bool
  pv_color :: "string option"

record session_pin =
  pin_id :: ident
  pin_sessionId :: ident
  pin_text :: "string option"
  pin_entrySeq :: "int option"
  pin_addedBy :: string
  pin_createdAt :: time

record llm_request =
  lq_id :: ident
  lq_sessionId :: ident
  lq_turnSeq :: "int option"
  lq_step :: int
  lq_model :: string
  lq_scopeLabel :: scope_id
  lq_createdAt :: time
  lq_promptHash :: "string option"
  lq_metrics :: json

record session_store =
  ss_leaseTtl :: time
  ss_sessions :: "(ident, session) jmap"
  ss_entries :: "(ident, session_entry list) jmap"
  ss_tape :: "(ident, tape_record list) jmap"
  ss_search :: "(ident, search_row list) jmap"
  ss_llm :: "(ident, llm_request list) jmap"
  ss_llmSeq :: "(ident, nat) jmap"
  ss_llmCount :: nat
  ss_envelopes :: "(string, json) jmap"
  ss_byThread :: "(string, ident) jmap"
  ss_participants :: "(string, ident list) jmap"
  ss_pins :: "(ident, session_pin list) jmap"
  ss_windows :: "(ident, (string, participant_view) jmap) jmap"
  ss_leases :: "(ident, lease_state) jmap"

definition createMemorySessionStore :: "time option \<Rightarrow> session_store" where
  "createMemorySessionStore ttl =
     \<lparr>ss_leaseTtl = or_else ttl 300000, ss_sessions = [], ss_entries = [], ss_tape = [], ss_search = [],
      ss_llm = [], ss_llmSeq = [], ss_llmCount = 0, ss_envelopes = [], ss_byThread = [],
      ss_participants = [], ss_pins = [], ss_windows = [], ss_leases = []\<rparr>"

definition session_log :: "session_store \<Rightarrow> ident \<Rightarrow> session_entry list" where
  "session_log st sid = or_else (jget (ss_entries st) sid) []"

definition session_tape :: "session_store \<Rightarrow> ident \<Rightarrow> tape_record list" where
  "session_tape st sid = or_else (jget (ss_tape st) sid) []"

definition search_index :: "session_store \<Rightarrow> ident \<Rightarrow> search_row list" where
  "search_index st sid = or_else (jget (ss_search st) sid) []"

definition session_windows :: "session_store \<Rightarrow> ident \<Rightarrow> (string, participant_view) jmap" where
  "session_windows st sid = or_else (jget (ss_windows st) sid) []"

definition session_window :: "session_store \<Rightarrow> ident \<Rightarrow> string \<Rightarrow> participant_view option" where
  "session_window st sid p = jget (session_windows st sid) p"

subsection \<open>Sessions\<close>

definition new_session ::
  "ident \<Rightarrow> string \<Rightarrow> session_type \<Rightarrow> scope_id \<Rightarrow> string option \<Rightarrow> string option \<Rightarrow> time \<Rightarrow> session" where
  "new_session uuid threadRef ty scope channelName surface now =
     \<lparr>se_id = uuid, se_type = ty, se_scopeId = scope, se_threadRef = threadRef,
      se_surface = (if truthy surface then surface else None), se_createdAt = now,
      se_channelName = (if truthy channelName then channelName else None), se_title = None,
      se_archived = False, se_pinned = False, se_color = None, se_forkedFrom = None,
      se_forkBoundarySeq = None, se_parentSessionId = None, se_spawnMeta = None,
      se_lastActivityAt = None, se_hasEntries = None\<rparr>"

definition touch_session :: "string option \<Rightarrow> string option \<Rightarrow> session \<Rightarrow> session" where
  "touch_session channelName surface s =
     (let s1 = (if truthy channelName \<and> se_channelName s \<noteq> channelName
                then s\<lparr>se_channelName := channelName\<rparr> else s)
      in if truthy surface \<and> \<not> truthy (se_surface s1) then s1\<lparr>se_surface := surface\<rparr> else s1)"

definition getOrCreateByThread ::
  "session_store \<Rightarrow> ident \<Rightarrow> string \<Rightarrow> session_type \<Rightarrow> scope_id \<Rightarrow> string option \<Rightarrow> string option
     \<Rightarrow> time \<Rightarrow> session_store \<times> session" where
  "getOrCreateByThread st uuid threadRef ty scope channelName surface now =
     (let existing = (case jget (ss_byThread st) threadRef of
            None \<Rightarrow> None
          | Some i \<Rightarrow> if i = [] then None else map_option (\<lambda>s. (i, s)) (jget (ss_sessions st) i))
      in case existing of
           Some (i, s) \<Rightarrow>
             let s' = touch_session channelName surface s
             in (st\<lparr>ss_sessions := jset (ss_sessions st) i s'\<rparr>, s')
         | None \<Rightarrow>
             let s = new_session uuid threadRef ty scope channelName surface now
             in (st\<lparr>ss_sessions := jset (ss_sessions st) uuid s,
                    ss_entries := jset (ss_entries st) uuid [],
                    ss_byThread := jset (ss_byThread st) threadRef uuid\<rparr>, s))"

definition getByThread :: "session_store \<Rightarrow> string \<Rightarrow> session option" where
  "getByThread st threadRef = (case jget (ss_byThread st) threadRef of
     None \<Rightarrow> None | Some i \<Rightarrow> if i = [] then None else jget (ss_sessions st) i)"

definition upd_session :: "session_store \<Rightarrow> ident \<Rightarrow> (session \<Rightarrow> session) \<Rightarrow> session_store" where
  "upd_session st sid f = (case jget (ss_sessions st) sid of
     None \<Rightarrow> st | Some s \<Rightarrow> st\<lparr>ss_sessions := jset (ss_sessions st) sid (f s)\<rparr>)"

definition updateTitle :: "session_store \<Rightarrow> ident \<Rightarrow> string \<Rightarrow> session_store" where
  "updateTitle st sid title = upd_session st sid (\<lambda>s. s\<lparr>se_title := Some title\<rparr>)"

definition updateForkProvenance :: "session_store \<Rightarrow> ident \<Rightarrow> json \<Rightarrow> int \<Rightarrow> session_store" where
  "updateForkProvenance st sid from boundary =
     upd_session st sid (\<lambda>s. s\<lparr>se_forkedFrom := Some from, se_forkBoundarySeq := Some boundary\<rparr>)"

definition setParentSession :: "session_store \<Rightarrow> ident \<Rightarrow> ident option \<Rightarrow> session_store" where
  "setParentSession st sid parent = upd_session st sid (\<lambda>s. s\<lparr>se_parentSessionId := parent\<rparr>)"

definition setSpawnMeta :: "session_store \<Rightarrow> ident \<Rightarrow> json \<Rightarrow> session_store" where
  "setSpawnMeta st sid meta = upd_session st sid (\<lambda>s. s\<lparr>se_spawnMeta := Some meta\<rparr>)"

definition childrenOf :: "session_store \<Rightarrow> ident \<Rightarrow> session list" where
  "childrenOf st parent =
     sort_key se_createdAt (filter (\<lambda>s. se_parentSessionId s = Some parent) (jvals (ss_sessions st)))"

subsection \<open>Leases\<close>

record lease_attempt =
  la_lease :: "lease_ref option"
  la_heldBy :: "lease_holder option"
  la_heldSince :: "time option"
  la_heldUntil :: "time option"

definition acquireLease ::
  "session_store \<Rightarrow> ident \<Rightarrow> lease_holder option \<Rightarrow> string \<Rightarrow> (nat \<Rightarrow> time) \<Rightarrow> session_store \<times> lease_attempt" where
  "acquireLease st sid holder token clk =
     (if jget (ss_sessions st) sid = None
      then (st, \<lparr>la_lease = None, la_heldBy = None, la_heldSince = None, la_heldUntil = None\<rparr>)
      else case jget (ss_leases st) sid of
        Some held \<Rightarrow>
          if clk 0 < ls_expiresAt held
          then (st, \<lparr>la_lease = None, la_heldBy = ls_holder held, la_heldSince = Some (ls_acquiredAt held),
                     la_heldUntil = Some (ls_expiresAt held)\<rparr>)
          else (st\<lparr>ss_leases := jset (ss_leases st) sid
                   \<lparr>ls_token = token, ls_expiresAt = clk 1 + ss_leaseTtl st, ls_acquiredAt = clk 2,
                    ls_holder = holder\<rparr>\<rparr>,
                \<lparr>la_lease = Some \<lparr>lr_sessionId = sid, lr_token = token\<rparr>, la_heldBy = None,
                 la_heldSince = None, la_heldUntil = None\<rparr>)
      | None \<Rightarrow>
          (st\<lparr>ss_leases := jset (ss_leases st) sid
                   \<lparr>ls_token = token, ls_expiresAt = clk 1 + ss_leaseTtl st, ls_acquiredAt = clk 2,
                    ls_holder = holder\<rparr>\<rparr>,
           \<lparr>la_lease = Some \<lparr>lr_sessionId = sid, lr_token = token\<rparr>, la_heldBy = None,
            la_heldSince = None, la_heldUntil = None\<rparr>))"

definition peekLease :: "session_store \<Rightarrow> ident \<Rightarrow> (lease_holder option \<times> time) option" where
  "peekLease st sid = map_option (\<lambda>h. (ls_holder h, ls_expiresAt h)) (jget (ss_leases st) sid)"

text \<open>The lease is in force for this token at this reading of the clock.\<close>

definition lease_valid :: "session_store \<Rightarrow> lease_ref \<Rightarrow> time \<Rightarrow> bool" where
  "lease_valid st l now = (case jget (ss_leases st) (lr_sessionId l) of
     None \<Rightarrow> False
   | Some held \<Rightarrow> ls_token held = lr_token l \<and> now < ls_expiresAt held)"

definition extend_lease :: "session_store \<Rightarrow> ident \<Rightarrow> time \<Rightarrow> session_store" where
  "extend_lease st sid now = (case jget (ss_leases st) sid of
     None \<Rightarrow> st
   | Some held \<Rightarrow> st\<lparr>ss_leases := jset (ss_leases st) sid (held\<lparr>ls_expiresAt := now + ss_leaseTtl st\<rparr>)\<rparr>)"

definition renewLease :: "session_store \<Rightarrow> lease_ref \<Rightarrow> (nat \<Rightarrow> time) \<Rightarrow> session_store \<times> bool" where
  "renewLease st l clk =
     (if \<not> lease_valid st l (clk 0) then (st, False)
      else (extend_lease st (lr_sessionId l) (clk 1), True))"

definition releaseSessionLease :: "session_store \<Rightarrow> lease_ref \<Rightarrow> session_store" where
  "releaseSessionLease st l =
     (if map_option ls_token (jget (ss_leases st) (lr_sessionId l)) = Some (lr_token l)
      then st\<lparr>ss_leases := jdel (ss_leases st) (lr_sessionId l)\<rparr> else st)"

definition forceReleaseLease :: "session_store \<Rightarrow> ident \<Rightarrow> session_store" where
  "forceReleaseLease st sid = st\<lparr>ss_leases := jdel (ss_leases st) sid\<rparr>"

subsection \<open>Deleting\<close>

definition drop_participant :: "ident \<Rightarrow> (string, ident list) jmap \<Rightarrow> string \<Rightarrow> (string, ident list) jmap" where
  "drop_participant sid m p = (case jget m p of
     None \<Rightarrow> m | Some ids \<Rightarrow> jset m p (filter (\<lambda>i. i \<noteq> sid) ids))"

definition deleteSession :: "session_store \<Rightarrow> ident \<Rightarrow> session_store" where
  "deleteSession st sid =
     st\<lparr>ss_byThread := (case jget (ss_sessions st) sid of
            None \<Rightarrow> ss_byThread st | Some s \<Rightarrow> jdel (ss_byThread st) (se_threadRef s)),
        ss_participants := foldl (drop_participant sid) (ss_participants st) (jkeys (session_windows st sid)),
        ss_sessions := jdel (ss_sessions st) sid, ss_entries := jdel (ss_entries st) sid,
        ss_tape := jdel (ss_tape st) sid, ss_search := jdel (ss_search st) sid,
        ss_llm := jdel (ss_llm st) sid, ss_windows := jdel (ss_windows st) sid,
        ss_leases := jdel (ss_leases st) sid, ss_pins := jdel (ss_pins st) sid\<rparr>"

definition deleteSessionIfEmpty :: "session_store \<Rightarrow> ident \<Rightarrow> time \<Rightarrow> session_store \<times> bool" where
  "deleteSessionIfEmpty st sid now =
     (if jget (ss_sessions st) sid = None then (st, False)
      else if length (session_log st sid) > 0 then (st, False)
      else if (case jget (ss_leases st) sid of None \<Rightarrow> False | Some held \<Rightarrow> now < ls_expiresAt held)
      then (st, False)
      else (deleteSession st sid, True))"

subsection \<open>The log and the tape\<close>

datatype append_error = NoValidLease | UnknownSession

definition new_log_entry :: "ident \<Rightarrow> nat \<Rightarrow> new_entry \<Rightarrow> time \<Rightarrow> session_entry" where
  "new_log_entry sid sq e now =
     \<lparr>en_sessionId = sid, en_seq = int sq, en_parentSeq = (if sq = 0 then None else Some (int sq - 1)),
      en_type = ne_type e, en_payload = ne_payload e, en_scopeLabel = ne_scopeLabel e, en_createdAt = now\<rparr>"

definition push_tape :: "session_store \<Rightarrow> ident \<Rightarrow> new_tape_record \<Rightarrow> time \<Rightarrow> session_store" where
  "push_tape st sid r now =
     st\<lparr>ss_tape := jset (ss_tape st) sid
          (session_tape st sid @ [tape_record_of r sid (length (session_tape st sid)) now])\<rparr>"

definition index_entry :: "session_store \<Rightarrow> session_entry \<Rightarrow> session_store" where
  "index_entry st e =
     (let text = (if searchable (en_type e) then entrySearchText (en_payload e) else None) in
      case text of
        None \<Rightarrow> st
      | Some t \<Rightarrow>
          if js_trim t = [] then st
          else st\<lparr>ss_search := jset (ss_search st) (en_sessionId e)
                 (search_index st (en_sessionId e) @
                  [\<lparr>sr_seq = en_seq e, sr_type = en_type e,
                    sr_author = entrySearchAuthor (en_type e) (en_payload e), sr_text = t,
                    sr_at = en_createdAt e\<rparr>])\<rparr>)"

definition append_entry ::
  "session_store \<Rightarrow> lease_ref \<Rightarrow> new_entry \<Rightarrow> (nat \<Rightarrow> time) \<Rightarrow> append_error + (session_store \<times> session_entry)" where
  "append_entry st l e clk =
     (if \<not> lease_valid st l (clk 0) then Inl NoValidLease
      else
        let sid = lr_sessionId l; st1 = extend_lease st sid (clk 1) in
        case jget (ss_entries st1) sid of
          None \<Rightarrow> Inl UnknownSession
        | Some log \<Rightarrow>
            let full = new_log_entry sid (length log) e (clk 2);
                st2 = st1\<lparr>ss_entries := jset (ss_entries st1) sid (log @ [full])\<rparr>;
                st3 = push_tape st2 sid (tapeTranscriptEntryRecord full) (clk 3)
            in Inr (index_entry st3 full, full))"

text \<open>The lease an append that throws on an unknown session has already extended.\<close>

definition append_state :: "session_store \<Rightarrow> lease_ref \<Rightarrow> new_entry \<Rightarrow> (nat \<Rightarrow> time) \<Rightarrow> session_store" where
  "append_state st l e clk = (case append_entry st l e clk of
     Inl NoValidLease \<Rightarrow> st
   | Inl UnknownSession \<Rightarrow> extend_lease st (lr_sessionId l) (clk 1)
   | Inr (st', _) \<Rightarrow> st')"

text \<open>\<open>xs.slice(-n)\<close>.\<close>

definition slice_last :: "int \<Rightarrow> 'a list \<Rightarrow> 'a list" where
  "slice_last n xs = (if n > 0 then last_n (nat n) xs else drop (nat (- n)) xs)"

record entries_query =
  eq_sinceSeq :: "int option"
  eq_beforeSeq :: "int option"
  eq_limit :: "int option"

definition in_range :: "entries_query \<Rightarrow> session_entry \<Rightarrow> bool" where
  "in_range q e \<longleftrightarrow> en_seq e \<ge> or_else (eq_sinceSeq q) 0 \<and>
     (case eq_beforeSeq q of None \<Rightarrow> True | Some b \<Rightarrow> en_seq e < b)"

definition getEntries :: "session_store \<Rightarrow> ident \<Rightarrow> entries_query \<Rightarrow> session_entry list" where
  "getEntries st sid q =
     (let filtered = filter (in_range q) (session_log st sid)
      in case eq_limit q of None \<Rightarrow> filtered | Some n \<Rightarrow> slice_last n filtered)"

definition project_tape :: "tape_record list \<Rightarrow> (int, session_entry) jmap" where
  "project_tape rows = foldl (\<lambda>m row. case transcriptEntryFromTape row of
     None \<Rightarrow> m | Some e \<Rightarrow> jset m (en_seq e) e) [] rows"

definition getTranscriptEntries :: "session_store \<Rightarrow> ident \<Rightarrow> entries_query \<Rightarrow> session_entry list" where
  "getTranscriptEntries st sid q =
     (let filtered = sort_key en_seq (filter (in_range q) (jvals (project_tape (session_tape st sid))))
      in case eq_limit q of
           None \<Rightarrow> filtered
         | Some n \<Rightarrow> if n = 0 then [] else slice_last n filtered)"

definition getContextWindow :: "session_store \<Rightarrow> ident \<Rightarrow> context_window" where
  "getContextWindow st sid = contextWindowFromEntries (session_log st sid)"

definition getEntry :: "session_store \<Rightarrow> ident \<Rightarrow> int \<Rightarrow> session_entry option" where
  "getEntry st sid sq = find (\<lambda>e. en_seq e = sq) (session_log st sid)"

definition latestEntrySeq :: "session_store \<Rightarrow> ident \<Rightarrow> int" where
  "latestEntrySeq st sid = int (length (session_log st sid)) - 1"

definition without_taint :: "session_entry \<Rightarrow> session_entry option" where
  "without_taint e = (case en_payload e of
     JObj fs \<Rightarrow> if map_of fs ''securityTainted'' = None then None
                 else Some (e\<lparr>en_payload := JObj (jdel fs ''securityTainted'')\<rparr>)
   | _ \<Rightarrow> None)"

text \<open>The pass over the log: \<open>i\<close> is the position, \<open>clk\<close> the reading for each rewritten entry.\<close>

fun clear_taint_loop :: "session_store \<Rightarrow> ident \<Rightarrow> nat list \<Rightarrow> (nat \<Rightarrow> time) \<Rightarrow> session_store" where
  "clear_taint_loop st sid [] clk = st"
| "clear_taint_loop st sid (i # is) clk =
     (case without_taint (session_log st sid ! i) of
        None \<Rightarrow> clear_taint_loop st sid is clk
      | Some e \<Rightarrow>
          let st1 = st\<lparr>ss_entries := jset (ss_entries st) sid ((session_log st sid)[i := e])\<rparr>
          in clear_taint_loop (push_tape st1 sid (tapeTranscriptEntryRecord e) (clk i)) sid is clk)"

definition clearSecurityTaint :: "session_store \<Rightarrow> ident \<Rightarrow> (nat \<Rightarrow> time) \<Rightarrow> session_store \<times> bool" where
  "clearSecurityTaint st sid clk = (case jget (ss_entries st) sid of
     None \<Rightarrow> (st, False)
   | Some log \<Rightarrow> (clear_taint_loop st sid [0 ..< length log] clk, True))"

definition appendTape ::
  "session_store \<Rightarrow> lease_ref \<Rightarrow> new_tape_record \<Rightarrow> (nat \<Rightarrow> time)
     \<Rightarrow> append_error + (session_store \<times> tape_record)" where
  "appendTape st l r clk =
     (if \<not> lease_valid st l (clk 0) then Inl NoValidLease
      else
        let sid = lr_sessionId l; st1 = extend_lease st sid (clk 1)
        in Inr (push_tape st1 sid r (clk 2),
                tape_record_of r sid (length (session_tape st1 sid)) (clk 2)))"

record tape_query =
  tq_sinceSeq :: "int option"
  tq_limit :: "int option"

definition getTape :: "session_store \<Rightarrow> ident \<Rightarrow> tape_query \<Rightarrow> tape_record list" where
  "getTape st sid q =
     (let log = session_tape st sid;
          filtered = (case tq_sinceSeq q of None \<Rightarrow> log | Some s \<Rightarrow> filter (\<lambda>r. int (tp_seq r) > s) log)
      in case tq_limit q of None \<Rightarrow> filtered | Some n \<Rightarrow> slice_last n filtered)"

definition tape_covers :: "tape_record \<Rightarrow> int" where
  "tape_covers r = max
     (if tp_kind r = TkAnnotation \<and> jfield (tp_payload r) ''turnEnd'' = Some (JBool True)
      then or_else (tp_entrySeq r) (-1) else -1)
     (if tp_kind r = TkContextEvent \<and> jfield (tp_payload r) ''event'' = Some (JStr ''legacy_import'')
      then or_else (tp_coversEntrySeq r) (-1) else -1)"

definition tapeCoverage :: "session_store \<Rightarrow> ident \<Rightarrow> int" where
  "tapeCoverage st sid = foldl (\<lambda>m r. max m (tape_covers r)) (-1) (session_tape st sid)"

subsection \<open>Participants\<close>

definition put_window :: "session_store \<Rightarrow> ident \<Rightarrow> string \<Rightarrow> participant_view \<Rightarrow> session_store" where
  "put_window st sid p w =
     st\<lparr>ss_windows := jset (ss_windows st) sid (jset (session_windows st sid) p w)\<rparr>"

text \<open>\<open>title\<close> is absent or a text; a stored title may be absent.\<close>

definition addParticipant ::
  "session_store \<Rightarrow> ident \<Rightarrow> string \<Rightarrow> string option \<Rightarrow> bool \<Rightarrow> time \<Rightarrow> session_store" where
  "addParticipant st sid p title includeHistory now =
     (let st1 = st\<lparr>ss_participants := jset (ss_participants st) p
                    (sadd (or_else (jget (ss_participants st) p) []) sid)\<rparr>;
          existing = session_window st1 sid p
      in case existing of
           Some w \<Rightarrow>
             if tn_validTo w \<noteq> None
             then put_window st1 sid p
                    (w\<lparr>tn_validFrom := (if includeHistory then 0 else now), tn_validTo := None,
                       tn_validFromSeq := Some (if includeHistory then 0 else int (length (session_log st1 sid))),
                       tn_validToSeq := None,
                       pv_title := (if title \<noteq> None then title else pv_title w)\<rparr>)
             else
               let w1 = (if includeHistory then w\<lparr>tn_validFrom := 0, tn_validFromSeq := Some 0\<rparr> else w);
                   w2 = (if title \<noteq> None then w1\<lparr>pv_title := title\<rparr> else w1)
               in put_window st1 sid p w2
         | None \<Rightarrow>
             put_window st1 sid p
               \<lparr>tn_validFrom = (if includeHistory then 0 else now), tn_validTo = None,
                tn_validFromSeq = Some (if includeHistory then 0 else int (length (session_log st1 sid))),
                tn_validToSeq = None, pv_title = title, pv_archived = False, pv_pinned = False,
                pv_color = None\<rparr>)"

definition removeParticipant :: "session_store \<Rightarrow> ident \<Rightarrow> string \<Rightarrow> time \<Rightarrow> session_store" where
  "removeParticipant st sid p now = (case session_window st sid p of
     None \<Rightarrow> st
   | Some w \<Rightarrow>
       if tn_validTo w = None
       then put_window st sid p
              (w\<lparr>tn_validTo := Some now, tn_validToSeq := Some (int (length (session_log st sid)))\<rparr>)
       else st)"

record view_patch =
  vp_title :: "string option option"
  vp_archived :: "bool option"
  vp_pinned :: "bool option"
  vp_color :: "string option option"

definition updateParticipantView :: "session_store \<Rightarrow> ident \<Rightarrow> string \<Rightarrow> view_patch \<Rightarrow> session_store" where
  "updateParticipantView st sid p patch = (case session_window st sid p of
     None \<Rightarrow> st
   | Some w \<Rightarrow> put_window st sid p
       (w\<lparr>pv_title := or_else (vp_title patch) (pv_title w),
          pv_archived := or_else (vp_archived patch) (pv_archived w),
          pv_pinned := or_else (vp_pinned patch) (pv_pinned w),
          pv_color := or_else (vp_color patch) (pv_color w)\<rparr>))"

definition within :: "participant_view \<Rightarrow> int \<Rightarrow> time \<Rightarrow> bool" where
  "within w sq t = entryWithinTenure sq t (tenure.truncate w)"

definition participantSession :: "session_store \<Rightarrow> ident \<Rightarrow> string \<Rightarrow> session option" where
  "participantSession st sid p = (case jget (ss_sessions st) sid of
     None \<Rightarrow> None
   | Some s \<Rightarrow>
       let view = session_window st sid p;
           all = session_log st sid;
           users = filter (\<lambda>e. en_type e = EtUser) all;
           last = foldl max (se_createdAt s) (map en_createdAt users);
           visible = (case view of None \<Rightarrow> False
              | Some w \<Rightarrow> list_ex (\<lambda>e. within w (en_seq e) (en_createdAt e)) all);
           s1 = s\<lparr>se_lastActivityAt := Some last, se_hasEntries := Some visible\<rparr>
       in Some (case view of None \<Rightarrow> s1
          | Some w \<Rightarrow> s1\<lparr>se_title := (if pv_title w \<noteq> None then pv_title w else se_title s),
                         se_archived := (pv_archived w \<or> se_archived s),
                         se_pinned := (pv_pinned w \<or> se_pinned s),
                         se_color := (if pv_color w \<noteq> None then pv_color w else se_color s)\<rparr>))"

text \<open>\<open>limit\<close> is a whole number.\<close>

definition listByParticipant :: "session_store \<Rightarrow> string \<Rightarrow> int option \<Rightarrow> session list" where
  "listByParticipant st p limit =
     (let out = List.map_filter (\<lambda>i. participantSession st i p) (or_else (jget (ss_participants st) p) [])
      in case limit of
           None \<Rightarrow> out
         | Some n \<Rightarrow> take (nat (max 0 n))
             (sort_key (\<lambda>s. - or_else (se_lastActivityAt s) (se_createdAt s)) out))"

definition getForParticipant :: "session_store \<Rightarrow> ident \<Rightarrow> string \<Rightarrow> session option" where
  "getForParticipant st sid p =
     (if sid \<in> set (or_else (jget (ss_participants st) p) []) then participantSession st sid p else None)"

definition visibleEntries :: "session_store \<Rightarrow> ident \<Rightarrow> string \<Rightarrow> session_entry list" where
  "visibleEntries st sid p = (case session_window st sid p of
     None \<Rightarrow> []
   | Some w \<Rightarrow> filter (\<lambda>e. within w (en_seq e) (en_createdAt e)) (session_log st sid))"

definition participantsOf :: "session_store \<Rightarrow> ident \<Rightarrow> string list" where
  "participantsOf st sid = map fst (filter (\<lambda>(_, w). tn_validTo w = None) (session_windows st sid))"

definition distinctParticipants :: "session_store \<Rightarrow> string list" where
  "distinctParticipants st = uniq (concat (map jkeys (jvals (ss_windows st))))"

definition participantWindowsOf :: "session_store \<Rightarrow> ident \<Rightarrow> (string \<times> tenure) list" where
  "participantWindowsOf st sid = map (\<lambda>(p, w). (p, tenure.truncate w)) (session_windows st sid)"

definition listParticipants :: "session_store \<Rightarrow> (ident \<times> string \<times> tenure) list" where
  "listParticipants st =
     concat (map (\<lambda>(sid, ws). map (\<lambda>(p, w). (sid, p, tenure.truncate w)) ws) (ss_windows st))"

subsection \<open>Pins\<close>

definition addPin ::
  "session_store \<Rightarrow> ident \<Rightarrow> ident \<Rightarrow> string option \<Rightarrow> int option \<Rightarrow> string \<Rightarrow> int option \<Rightarrow> time
     \<Rightarrow> session_store \<times> session_pin option" where
  "addPin st sid uuid text entrySeq addedBy maxPins now =
     (if jget (ss_sessions st) sid = None then (st, None)
      else
        let pins = or_else (jget (ss_pins st) sid) [] in
        if (case maxPins of None \<Rightarrow> False | Some m \<Rightarrow> int (length pins) \<ge> m) then (st, None)
        else
          let pin = \<lparr>pin_id = uuid, pin_sessionId = sid, pin_text = text, pin_entrySeq = entrySeq,
                     pin_addedBy = addedBy, pin_createdAt = now\<rparr>
          in (st\<lparr>ss_pins := jset (ss_pins st) sid (pins @ [pin])\<rparr>, Some pin))"

definition listPins :: "session_store \<Rightarrow> ident \<Rightarrow> session_pin list" where
  "listPins st sid = or_else (jget (ss_pins st) sid) []"

definition removePin :: "session_store \<Rightarrow> ident \<Rightarrow> ident \<Rightarrow> session_store \<times> bool" where
  "removePin st sid pinId = (case jget (ss_pins st) sid of
     None \<Rightarrow> (st, False)
   | Some pins \<Rightarrow>
       let next = filter (\<lambda>p. pin_id p \<noteq> pinId) pins
       in if length next = length pins then (st, False)
          else (st\<lparr>ss_pins := jset (ss_pins st) sid next\<rparr>, True))"

end
