(* ===== verification/SessionListings.thy ===== *)
theory SessionListings
  imports SessionStore
begin

section \<open>Search, recorded requests and the listings of the session store\<close>

text \<open>
  The second half of \<open>src/src/sessions/memory-session-store.ts\<close>: search over what a participant
  saw, the search index filled in later, the recorded model requests with their prompt envelopes,
  and the summaries, groups, rollups and statistics by scope. The previews of first and last
  messages are left out of the summaries. \<open>hash\<close> is the digest of an envelope's text.
\<close>

subsection \<open>Descending order\<close>

text \<open>
  The comparators order by times and sequence numbers descending and by identifiers descending.
  A stable sort by the last criterion first and the first last is a sort by all of them.
\<close>

definition sort_desc :: "('a \<Rightarrow> 'b :: linorder) \<Rightarrow> 'a list \<Rightarrow> 'a list" where
  "sort_desc f xs = rev (sort_key f (rev xs))"

lemma set_sort_desc [simp]: "set (sort_desc f xs) = set xs"
  by (simp add: sort_desc_def)

lemma length_sort_desc [simp]: "length (sort_desc f xs) = length xs"
  by (simp add: sort_desc_def)

lemma sorted_sort_desc: "sorted_wrt (\<ge>) (map f (sort_desc f xs))"
proof -
  have "sorted (map f (sort_key f (rev xs)))" by simp
  then have "sorted_wrt (\<ge>) (rev (map f (sort_key f (rev xs))))"
    by (simp add: sorted_wrt_rev)
  then show ?thesis by (simp add: sort_desc_def rev_map)
qed

subsection \<open>Search\<close>

record search_hit =
  sh_sessionId :: ident
  sh_scopeId :: scope_id
  sh_title :: "string option"
  sh_channelName :: "string option"
  sh_surface :: "string option"
  sh_archived :: bool
  sh_seq :: int
  sh_type :: entry_type
  sh_author :: "string option"
  sh_text :: string
  sh_at :: time

definition session_hits :: "session_store \<Rightarrow> string \<Rightarrow> string list \<Rightarrow> ident \<Rightarrow> search_hit list" where
  "session_hits st p terms sid =
     (case (session_window st sid p, jget (ss_sessions st) sid) of
        (Some w, Some s) \<Rightarrow>
          map (\<lambda>row. \<lparr>sh_sessionId = sid, sh_scopeId = se_scopeId s,
                 sh_title = (if pv_title w \<noteq> None then pv_title w else se_title s),
                 sh_channelName = se_channelName s, sh_surface = se_surface s,
                 sh_archived = pv_archived w, sh_seq = sr_seq row, sh_type = sr_type row,
                 sh_author = sr_author row, sh_text = sr_text row, sh_at = sr_at row\<rparr>)
            (filter (\<lambda>row. within w (sr_seq row) (sr_at row) \<and> matchesSearchTerms (sr_text row) terms)
               (search_index st sid))
      | _ \<Rightarrow> [])"

definition searchEntries :: "session_store \<Rightarrow> string \<Rightarrow> string \<Rightarrow> int \<Rightarrow> search_hit list" where
  "searchEntries st p q limit =
     (let terms = searchTerms q in
      if terms = [] then []
      else
        let hits = concat (map (session_hits st p terms) (or_else (jget (ss_participants st) p) []))
        in take (nat (max 1 (min limit 200)))
             (sort_desc sh_at (sort_desc sh_sessionId (sort_desc sh_seq hits))))"

fun add_search_rows :: "search_row list \<Rightarrow> int list \<Rightarrow> search_row list \<Rightarrow> search_row list" where
  "add_search_rows index seen [] = index"
| "add_search_rows index seen (row # rows) =
     (if sr_seq row \<in> set seen then add_search_rows index seen rows
      else add_search_rows (index @ [row]) (sr_seq row # seen) rows)"

definition appendSearchEntries ::
  "session_store \<Rightarrow> lease_ref \<Rightarrow> search_row list \<Rightarrow> (nat \<Rightarrow> time) \<Rightarrow> append_error + session_store" where
  "appendSearchEntries st l rows clk =
     (if \<not> lease_valid st l (clk 0) then Inl NoValidLease
      else
        let sid = lr_sessionId l; st1 = extend_lease st sid (clk 1);
            index = search_index st1 sid
        in Inr (st1\<lparr>ss_search := jset (ss_search st1) sid
                     (sort_key sr_seq (add_search_rows index (map sr_seq index) rows))\<rparr>))"

definition searchIndexCoverage :: "session_store \<Rightarrow> ident \<Rightarrow> int" where
  "searchIndexCoverage st sid =
     (let index = search_index st sid in if index = [] then -1 else sr_seq (last index))"

definition has_search_text :: "session_entry \<Rightarrow> bool" where
  "has_search_text e \<longleftrightarrow> searchable (en_type e) \<and>
     (case entrySearchText (en_payload e) of None \<Rightarrow> False | Some t \<Rightarrow> js_trim t \<noteq> [])"

definition missingSearchEntries :: "session_store \<Rightarrow> ident \<Rightarrow> nat" where
  "missingSearchEntries st sid =
     length (filter (\<lambda>e. has_search_text e \<and> en_seq e \<notin> set (map sr_seq (search_index st sid)))
       (session_log st sid))"

definition lastSearchableEntrySeq :: "session_store \<Rightarrow> ident \<Rightarrow> int" where
  "lastSearchableEntrySeq st sid =
     (case find has_search_text (rev (session_log st sid)) of None \<Rightarrow> -1 | Some e \<Rightarrow> en_seq e)"

subsection \<open>Recorded model requests\<close>

record new_llm_request =
  nl_turnSeq :: "int option"
  nl_step :: int
  nl_model :: string
  nl_scopeLabel :: scope_id
  nl_promptEnvelope :: "json option"
  nl_metrics :: json

definition recordLlmRequest ::
  "(json \<Rightarrow> string) \<Rightarrow> session_store \<Rightarrow> ident \<Rightarrow> ident \<Rightarrow> new_llm_request \<Rightarrow> time
     \<Rightarrow> session_store \<times> llm_request" where
  "recordLlmRequest hash st sid uuid r now =
     (let envelope = (case nl_promptEnvelope r of
            None \<Rightarrow> None | Some v \<Rightarrow> if v = JNull then None else Some (hash v, v));
          envelopes = (case envelope of
            None \<Rightarrow> ss_envelopes st
          | Some (h, body) \<Rightarrow>
              if jget (ss_envelopes st) h \<noteq> None then ss_envelopes st else jset (ss_envelopes st) h body);
          full = \<lparr>lq_id = uuid, lq_sessionId = sid, lq_turnSeq = nl_turnSeq r, lq_step = nl_step r,
                  lq_model = nl_model r, lq_scopeLabel = nl_scopeLabel r, lq_createdAt = now,
                  lq_promptHash = map_option fst envelope, lq_metrics = nl_metrics r\<rparr>
      in (st\<lparr>ss_envelopes := envelopes,
             ss_llm := jset (ss_llm st) sid (or_else (jget (ss_llm st) sid) [] @ [full]),
             ss_llmCount := ss_llmCount st + 1,
             ss_llmSeq := jset (ss_llmSeq st) uuid (ss_llmCount st + 1)\<rparr>, full))"

text \<open>\<open>turnSeqs\<close> and \<open>orphans\<close> filter; the envelope of each comes back unless it is omitted.\<close>

definition listLlmRequests ::
  "session_store \<Rightarrow> ident \<Rightarrow> int list option \<Rightarrow> bool \<Rightarrow> bool \<Rightarrow> (llm_request \<times> json option) list" where
  "listLlmRequests st sid turnSeqs orphans omitRequest =
     (let all = or_else (jget (ss_llm st) sid) [];
          filtered = (if turnSeqs \<noteq> None \<or> orphans
            then filter (\<lambda>r.
                (case (turnSeqs, lq_turnSeq r) of (Some want, Some t) \<Rightarrow> t \<in> set want | _ \<Rightarrow> False) \<or>
                (orphans \<and> lq_turnSeq r = None)) all
            else all)
      in map (\<lambda>r. (r, if omitRequest then None
                      else Option.bind (lq_promptHash r) (jget (ss_envelopes st)))) filtered)"

subsection \<open>Listings by scope\<close>

definition scanAll :: "session_store \<Rightarrow> session list" where
  "scanAll st = jvals (ss_sessions st)"

definition countSessions :: "session_store \<Rightarrow> nat" where
  "countSessions st = length (ss_sessions st)"

definition listByScope :: "session_store \<Rightarrow> scope_id \<Rightarrow> session list" where
  "listByScope st scope =
     sort_desc se_createdAt (sort_desc se_id (filter (\<lambda>s. se_scopeId s = scope) (scanAll st)))"

definition scopeHasSessions :: "session_store \<Rightarrow> scope_id \<Rightarrow> bool" where
  "scopeHasSessions st scope = list_ex (\<lambda>s. se_scopeId s = scope) (scanAll st)"

definition shown_user_entry :: "session \<Rightarrow> session_entry \<Rightarrow> bool" where
  "shown_user_entry s e \<longleftrightarrow>
     en_seq e > or_else (se_forkBoundarySeq s) (-1) \<and> en_type e = EtUser \<and>
     jfield (en_payload e) ''hidden'' \<noteq> Some (JBool True) \<and>
     jfield (en_payload e) ''overheard'' \<noteq> Some (JBool True)"

definition personal_conversation :: "session_store \<Rightarrow> scope_id \<Rightarrow> session \<Rightarrow> bool" where
  "personal_conversation st scope s \<longleftrightarrow>
     se_scopeId s = scope \<and> se_type s = Dm \<and> \<not> truthy (se_parentSessionId s) \<and>
     sessionOrigin (Some (se_threadRef s)) = OrConversation \<and>
     (let log = foldl (\<lambda>m e. jset m (en_seq e) e) [] (session_log st (se_id s));
          merged = foldl (\<lambda>m row. case transcriptEntryFromTape row of
              None \<Rightarrow> m | Some e \<Rightarrow> jset m (en_seq e) e) log (session_tape st (se_id s))
      in list_ex (shown_user_entry s) (jvals merged))"

fun count_upto :: "('a \<Rightarrow> bool) \<Rightarrow> nat \<Rightarrow> nat \<Rightarrow> 'a list \<Rightarrow> nat" where
  "count_upto p limit n [] = n"
| "count_upto p limit n (x # xs) =
     (if \<not> p x then count_upto p limit n xs
      else if n + 1 \<ge> limit then n + 1 else count_upto p limit (n + 1) xs)"

definition countPersonalConversations :: "session_store \<Rightarrow> scope_id \<Rightarrow> int \<Rightarrow> nat" where
  "countPersonalConversations st scope limit =
     (let bounded = nat (max 0 limit) in
      if bounded = 0 then 0 else count_upto (personal_conversation st scope) bounded 0 (scanAll st))"

definition sessionsByThreadRefs :: "session_store \<Rightarrow> string list \<Rightarrow> session list" where
  "sessionsByThreadRefs st refs = filter (\<lambda>s. se_threadRef s \<in> set refs) (scanAll st)"

definition distinctScopes :: "session_store \<Rightarrow> (scope_id \<times> string option) list" where
  "distinctScopes st = foldl (\<lambda>m s.
     case jget m (se_scopeId s) of
       None \<Rightarrow> jset m (se_scopeId s) (se_channelName s)
     | Some prev \<Rightarrow>
         if truthy (se_channelName s) \<and> \<not> truthy prev then jset m (se_scopeId s) (se_channelName s)
         else m) [] (scanAll st)"

definition user_turns :: "session_entry list \<Rightarrow> session_entry list" where
  "user_turns log = filter (\<lambda>e. en_type e = EtUser \<and> \<not> isOverheardEntry e) log"

definition last_activity :: "session_store \<Rightarrow> session \<Rightarrow> time" where
  "last_activity st s =
     (let log = session_log st (se_id s) in if log = [] then se_createdAt s else en_createdAt (last log))"

record session_page =
  pg_limit :: int
  pg_offset :: int
  pg_before :: "(time \<times> ident) option"
  pg_category :: "session_category option"
  pg_origin :: "session_origin option"
  pg_otherBackground :: bool
  pg_cronId :: "string option"

definition origin_passes :: "bool \<Rightarrow> session_origin option \<Rightarrow> session_origin \<Rightarrow> bool" where
  "origin_passes otherBackground filt orig =
     (if otherBackground then orig \<noteq> OrConversation \<and> orig \<noteq> OrCron
      else case filt of None \<Rightarrow> True | Some f \<Rightarrow> orig = f)"

definition page_passes :: "session_page \<Rightarrow> session \<Rightarrow> bool" where
  "page_passes pg s =
     (let orig = sessionOrigin (Some (se_threadRef s))
      in (case pg_category pg of None \<Rightarrow> True | Some c \<Rightarrow> sessionCategory orig = c) \<and>
         origin_passes (pg_otherBackground pg) (pg_origin pg) orig \<and>
         (if truthy (pg_cronId pg) then cronIdOf (Some (se_threadRef s)) = pg_cronId pg else True))"

record session_summary =
  sm_id :: ident
  sm_type :: session_type
  sm_origin :: session_origin
  sm_scopeId :: scope_id
  sm_threadRef :: string
  sm_turns :: nat
  sm_messages :: nat
  sm_lastActivity :: time
  sm_createdAt :: time

definition summary_of :: "session_store \<Rightarrow> session \<Rightarrow> session_summary" where
  "summary_of st s =
     \<lparr>sm_id = se_id s, sm_type = se_type s, sm_origin = sessionOrigin (Some (se_threadRef s)),
      sm_scopeId = se_scopeId s, sm_threadRef = se_threadRef s,
      sm_turns = length (user_turns (session_log st (se_id s))),
      sm_messages = length (session_log st (se_id s)), sm_lastActivity = last_activity st s,
      sm_createdAt = se_createdAt s\<rparr>"

text \<open>\<open>xs.slice(offset, offset + limit)\<close> for an offset and limit that are not negative.\<close>

definition scopeSessionSummaries ::
  "session_store \<Rightarrow> scope_id \<Rightarrow> bool \<Rightarrow> session_page option \<Rightarrow> ident list option \<Rightarrow> session_summary list" where
  "scopeSessionSummaries st scope orgWide page sessionIds =
     (let kept = filter (\<lambda>s. (orgWide \<or> se_scopeId s = scope) \<and>
                    (case sessionIds of None \<Rightarrow> True | Some ids \<Rightarrow> se_id s \<in> set ids) \<and>
                    (case page of None \<Rightarrow> True | Some pg \<Rightarrow> page_passes pg s)) (scanAll st);
          out = sort_desc sm_lastActivity (sort_desc sm_id (map (summary_of st) kept))
      in case page of
           None \<Rightarrow> out
         | Some pg \<Rightarrow> (case pg_before pg of
               Some (at, i) \<Rightarrow>
                 take (nat (pg_limit pg))
                   (filter (\<lambda>r. sm_lastActivity r < at \<or> sm_lastActivity r = at \<and> sm_id r < i) out)
             | None \<Rightarrow> take (nat (pg_limit pg)) (drop (nat (pg_offset pg)) out)))"

record cron_group =
  cg_cronId :: string
  cg_scopeId :: scope_id
  cg_sessions :: nat
  cg_turns :: nat
  cg_messages :: nat
  cg_lastActivity :: time
  cg_createdAt :: time

definition add_to_cron_group :: "session_store \<Rightarrow> (string, cron_group) jmap \<Rightarrow> session \<Rightarrow> (string, cron_group) jmap" where
  "add_to_cron_group st groups s =
     (case cronIdOf (Some (se_threadRef s)) of
        None \<Rightarrow> groups
      | Some c \<Rightarrow>
          let log = session_log st (se_id s);
              g = or_else (jget groups c)
                    \<lparr>cg_cronId = c, cg_scopeId = se_scopeId s, cg_sessions = 0, cg_turns = 0,
                     cg_messages = 0, cg_lastActivity = 0, cg_createdAt = se_createdAt s\<rparr>
          in jset groups c
               (g\<lparr>cg_sessions := cg_sessions g + 1, cg_turns := cg_turns g + length (user_turns log),
                  cg_messages := cg_messages g + length log,
                  cg_lastActivity := max (cg_lastActivity g) (last_activity st s),
                  cg_createdAt := min (cg_createdAt g) (se_createdAt s)\<rparr>))"

definition scopeCronGroups :: "session_store \<Rightarrow> scope_id \<Rightarrow> bool \<Rightarrow> cron_group list" where
  "scopeCronGroups st scope orgWide =
     sort_desc cg_lastActivity (sort_desc cg_cronId (jvals
       (foldl (add_to_cron_group st) [] (filter (\<lambda>s. orgWide \<or> se_scopeId s = scope) (scanAll st)))))"

record scope_rollup =
  ru_scopeId :: scope_id
  ru_sessions :: nat
  ru_backgroundSessions :: nat
  ru_lastActivity :: time
  ru_lastConversationActivity :: time
  ru_previewSessionId :: "ident option"

type_synonym rollup_state = "(scope_id, scope_rollup) jmap \<times> (scope_id, time \<times> ident) jmap"

definition add_to_rollup :: "session_store \<Rightarrow> rollup_state \<Rightarrow> session \<Rightarrow> rollup_state" where
  "add_to_rollup st acc s =
     (let (rollups, winners) = acc;
          at = last_activity st s;
          turns = length (user_turns (session_log st (se_id s)));
          r = or_else (jget rollups (se_scopeId s))
                \<lparr>ru_scopeId = se_scopeId s, ru_sessions = 0, ru_backgroundSessions = 0,
                 ru_lastActivity = 0, ru_lastConversationActivity = 0, ru_previewSessionId = None\<rparr>;
          r1 = r\<lparr>ru_lastActivity := max (ru_lastActivity r) at\<rparr>
      in if sessionCategory (sessionOrigin (Some (se_threadRef s))) = CatBackground
         then (jset rollups (se_scopeId s) (r1\<lparr>ru_backgroundSessions := ru_backgroundSessions r1 + 1\<rparr>), winners)
         else
           let r2 = r1\<lparr>ru_sessions := ru_sessions r1 + 1,
                       ru_lastConversationActivity := max (ru_lastConversationActivity r1) at\<rparr>;
               wins = (case jget winners (se_scopeId s) of
                  None \<Rightarrow> True | Some (t, i) \<Rightarrow> at > t \<or> (at = t \<and> se_id s > i))
           in if turns = 0 \<or> \<not> wins then (jset rollups (se_scopeId s) r2, winners)
              else (jset rollups (se_scopeId s) (r2\<lparr>ru_previewSessionId := Some (se_id s)\<rparr>),
                    jset winners (se_scopeId s) (at, se_id s)))"

definition scopeSessionRollups :: "session_store \<Rightarrow> scope_id \<Rightarrow> bool \<Rightarrow> scope_rollup list" where
  "scopeSessionRollups st scope orgWide =
     jvals (fst (foldl (add_to_rollup st) ([], [])
       (filter (\<lambda>s. orgWide \<or> se_scopeId s = scope) (scanAll st))))"

record scope_stats =
  st_total :: nat
  st_turns :: nat
  st_byType :: "(session_bucket, nat) jmap"
  st_byTypeAll :: "(session_bucket, nat) jmap"
  st_conversation :: nat
  st_background :: nat
  st_all :: nat
  st_crons :: "string list"

definition bump :: "(session_bucket, nat) jmap \<Rightarrow> session_bucket \<Rightarrow> (session_bucket, nat) jmap" where
  "bump m b = jset m b (or_else (jget m b) 0 + 1)"

definition stats_pass ::
  "session_category option \<Rightarrow> bool \<Rightarrow> session_origin option \<Rightarrow> string option \<Rightarrow> session \<Rightarrow> bool" where
  "stats_pass category otherBackground filt cronId s =
     (let orig = sessionOrigin (Some (se_threadRef s))
      in (case category of None \<Rightarrow> True | Some c \<Rightarrow> sessionCategory orig = c) \<and>
         origin_passes otherBackground filt orig \<and>
         (if truthy cronId then cronIdOf (Some (se_threadRef s)) = cronId else True))"

definition add_to_stats ::
  "session_store \<Rightarrow> (session \<Rightarrow> bool) \<Rightarrow> scope_stats \<Rightarrow> session \<Rightarrow> scope_stats" where
  "add_to_stats st pass a s =
     (let orig = sessionOrigin (Some (se_threadRef s));
          bucket = sessionBucket orig (se_type s);
          a1 = a\<lparr>st_conversation := st_conversation a + (if sessionCategory orig = CatConversation then 1 else 0),
                 st_background := st_background a + (if sessionCategory orig = CatBackground then 1 else 0),
                 st_all := st_all a + 1, st_byTypeAll := bump (st_byTypeAll a) bucket,
                 st_crons := (case cronIdOf (Some (se_threadRef s)) of
                    None \<Rightarrow> st_crons a | Some c \<Rightarrow> sadd (st_crons a) c)\<rparr>
      in if \<not> pass s then a1
         else a1\<lparr>st_total := st_total a1 + 1,
                 st_turns := st_turns a1 + length (user_turns (session_log st (se_id s))),
                 st_byType := bump (st_byType a1) bucket\<rparr>)"

definition scopeSessionStats ::
  "session_store \<Rightarrow> scope_id \<Rightarrow> bool \<Rightarrow> session_category option \<Rightarrow> bool \<Rightarrow> session_origin option
     \<Rightarrow> string option \<Rightarrow> scope_stats" where
  "scopeSessionStats st scope orgWide category otherBackground filt cronId =
     foldl (add_to_stats st (stats_pass category otherBackground filt cronId))
       \<lparr>st_total = 0, st_turns = 0, st_byType = [], st_byTypeAll = [], st_conversation = 0,
        st_background = 0, st_all = 0, st_crons = []\<rparr>
       (filter (\<lambda>s. orgWide \<or> se_scopeId s = scope) (scanAll st))"

subsection \<open>Turns by day\<close>

definition DAY :: int where "DAY = 86400000"

record attributed_turn =
  at_principalId :: string
  at_sessionId :: ident
  at_day :: int
  at_turns :: nat
  at_firstAt :: time
  at_lastAt :: time

definition add_to_day :: "string \<Rightarrow> ident \<Rightarrow> (int, attributed_turn) jmap \<Rightarrow> session_entry \<Rightarrow> (int, attributed_turn) jmap" where
  "add_to_day p sid buckets e =
     (let t = en_createdAt e; day = t div DAY
      in case jget buckets day of
           Some b \<Rightarrow> jset buckets day
             (b\<lparr>at_turns := at_turns b + 1, at_firstAt := min (at_firstAt b) t, at_lastAt := max (at_lastAt b) t\<rparr>)
         | None \<Rightarrow> jset buckets day
             \<lparr>at_principalId = p, at_sessionId = sid, at_day = day, at_turns = 1, at_firstAt = t, at_lastAt = t\<rparr>)"

definition attributedTurns :: "session_store \<Rightarrow> attributed_turn list" where
  "attributedTurns st =
     concat (map (\<lambda>(sid, byPrincipal).
       concat (map (\<lambda>(p, w).
         jvals (foldl (add_to_day p sid) []
           (filter (\<lambda>e. within w (en_seq e) (en_createdAt e)) (user_turns (session_log st sid)))))
         byPrincipal)) (ss_windows st))"

end
