(* ===== verification/SessionInv.thy ===== *)
theory SessionInv
  imports SessionListings
begin

section \<open>The shape of the session store\<close>

text \<open>
  What every operation of the session store keeps: one session per thread, a log whose entries are
  numbered by their position, a tape that projects to exactly the log, and leases and logs only for
  sessions that exist.
\<close>

definition log_ok :: "ident \<Rightarrow> session_entry list \<Rightarrow> bool" where
  "log_ok sid log \<longleftrightarrow>
     (\<forall>i < length log. en_seq (log ! i) = int i \<and> en_sessionId (log ! i) = sid \<and>
        en_parentSeq (log ! i) = (if i = 0 then None else Some (int i - 1)))"

text \<open>The projection of the tape holds exactly the entries of the log, each under its number.\<close>

definition tape_mirrors :: "tape_record list \<Rightarrow> session_entry list \<Rightarrow> bool" where
  "tape_mirrors rows log \<longleftrightarrow> jwf (project_tape rows) \<and>
     (\<forall>q. jget (project_tape rows) q =
        (if 0 \<le> q \<and> q < int (length log) then Some (log ! nat q) else None))"

definition session_inv :: "session_store \<Rightarrow> bool" where
  "session_inv st \<longleftrightarrow>
     (\<forall>i s. jget (ss_sessions st) i = Some s \<longrightarrow> se_id s = i \<and> i \<noteq> [] \<and>
        jget (ss_byThread st) (se_threadRef s) = Some i) \<and>
     (\<forall>t i. jget (ss_byThread st) t = Some i \<longrightarrow>
        (\<exists>s. jget (ss_sessions st) i = Some s \<and> se_threadRef s = t)) \<and>
     (\<forall>i. jget (ss_entries st) i \<noteq> None \<longleftrightarrow> jget (ss_sessions st) i \<noteq> None) \<and>
     (\<forall>i. jget (ss_sessions st) i = None \<longrightarrow>
        jget (ss_leases st) i = None \<and> jget (ss_tape st) i = None) \<and>
     (\<forall>i. log_ok i (session_log st i)) \<and>
     (\<forall>i. tape_mirrors (session_tape st i) (session_log st i))"

lemma session_invI:
  assumes "\<And>i s. jget (ss_sessions st) i = Some s \<Longrightarrow> se_id s = i \<and> i \<noteq> [] \<and>
        jget (ss_byThread st) (se_threadRef s) = Some i"
    and "\<And>t i. jget (ss_byThread st) t = Some i \<Longrightarrow>
        \<exists>s. jget (ss_sessions st) i = Some s \<and> se_threadRef s = t"
    and "\<And>i. jget (ss_entries st) i \<noteq> None \<longleftrightarrow> jget (ss_sessions st) i \<noteq> None"
    and "\<And>i. jget (ss_sessions st) i = None \<Longrightarrow> jget (ss_leases st) i = None \<and> jget (ss_tape st) i = None"
    and "\<And>i. log_ok i (session_log st i)"
    and "\<And>i. tape_mirrors (session_tape st i) (session_log st i)"
  shows "session_inv st"
  using assms unfolding session_inv_def by blast

lemma session_invD:
  assumes "session_inv st"
  shows "jget (ss_sessions st) i = Some s \<Longrightarrow> se_id s = i \<and> i \<noteq> [] \<and> jget (ss_byThread st) (se_threadRef s) = Some i"
    and "jget (ss_byThread st) t = Some i \<Longrightarrow> \<exists>s. jget (ss_sessions st) i = Some s \<and> se_threadRef s = t"
    and "jget (ss_entries st) i \<noteq> None \<longleftrightarrow> jget (ss_sessions st) i \<noteq> None"
    and "jget (ss_sessions st) i = None \<Longrightarrow> jget (ss_leases st) i = None \<and> jget (ss_tape st) i = None"
    and "log_ok i (session_log st i)"
    and "tape_mirrors (session_tape st i) (session_log st i)"
  using assms unfolding session_inv_def by blast+

text \<open>An operation that touches none of these parts keeps the shape.\<close>

lemma session_inv_same:
  assumes "session_inv st" "ss_sessions st' = ss_sessions st" "ss_byThread st' = ss_byThread st"
    "ss_entries st' = ss_entries st" "ss_tape st' = ss_tape st"
    "\<And>i. jget (ss_leases st) i = None \<Longrightarrow> jget (ss_sessions st) i = None \<Longrightarrow> jget (ss_leases st') i = None"
  shows "session_inv st'"
proof (rule session_invI)
  fix i
  show "jget (ss_sessions st') i = None \<Longrightarrow> jget (ss_leases st') i = None \<and> jget (ss_tape st') i = None"
    using session_invD(4) [OF assms(1), of i] assms(2,5,6) by simp
qed (use assms session_invD [OF assms(1)] in \<open>simp_all add: session_log_def session_tape_def\<close>)

subsection \<open>Logs and tapes\<close>

lemma project_tape_snoc:
  "project_tape (rows @ [row]) = (case transcriptEntryFromTape row of
     None \<Rightarrow> project_tape rows | Some e \<Rightarrow> jset (project_tape rows) (en_seq e) e)"
  by (simp add: project_tape_def split: option.split)

lemma log_ok_snoc:
  assumes "log_ok sid log"
  shows "log_ok sid (log @ [new_log_entry sid (length log) e now])"
  using assms by (auto simp: log_ok_def nth_append new_log_entry_def less_Suc_eq)

lemma tape_mirrors_snoc:
  assumes "tape_mirrors rows log" "transcriptEntryFromTape row = Some e" "en_seq e = int (length log)"
  shows "tape_mirrors (rows @ [row]) (log @ [e])"
  using assms by (auto simp: tape_mirrors_def project_tape_snoc nth_append)

lemma tape_mirrors_other:
  "tape_mirrors rows log \<Longrightarrow> transcriptEntryFromTape row = None \<Longrightarrow> tape_mirrors (rows @ [row]) log"
  by (simp add: tape_mirrors_def project_tape_snoc)

lemma tape_mirrors_update:
  assumes "tape_mirrors rows log" "transcriptEntryFromTape row = Some e" "en_seq e = int i" "i < length log"
  shows "tape_mirrors (rows @ [row]) (log[i := e])"
  using assms by (auto simp: tape_mirrors_def project_tape_snoc nth_list_update)

lemma tape_mirrors_Nil: "tape_mirrors [] []"
  by (simp add: tape_mirrors_def project_tape_def)

lemma log_ok_Nil: "log_ok sid []"
  by (simp add: log_ok_def)

lemma log_ok_update:
  assumes "log_ok sid log" "i < length log" "en_seq e = en_seq (log ! i)"
    "en_sessionId e = en_sessionId (log ! i)" "en_parentSeq e = en_parentSeq (log ! i)"
  shows "log_ok sid (log[i := e])"
  using assms by (auto simp: log_ok_def nth_list_update)

lemma mirror_of_new:
  "en_sessionId e = sid \<Longrightarrow>
     transcriptEntryFromTape (tape_record_of (tapeTranscriptEntryRecord e) sid sq t) = Some e"
  using transcript_mirror by blast

lemma set_entries_simps [simp]:
  "session_log (st\<lparr>ss_entries := m\<rparr>) i = or_else (jget m i) []"
  "session_tape (st\<lparr>ss_entries := m\<rparr>) i = session_tape st i"
  "session_window (st\<lparr>ss_entries := m\<rparr>) i p = session_window st i p"
  by (simp_all add: session_log_def session_tape_def session_window_def session_windows_def)

lemma extend_lease_fields [simp]:
  "ss_sessions (extend_lease st sid now) = ss_sessions st"
  "ss_byThread (extend_lease st sid now) = ss_byThread st"
  "ss_entries (extend_lease st sid now) = ss_entries st"
  "ss_tape (extend_lease st sid now) = ss_tape st"
  "ss_search (extend_lease st sid now) = ss_search st"
  "ss_windows (extend_lease st sid now) = ss_windows st"
  "ss_participants (extend_lease st sid now) = ss_participants st"
  "session_log (extend_lease st sid now) i = session_log st i"
  "session_tape (extend_lease st sid now) i = session_tape st i"
  "session_window (extend_lease st sid now) i p = session_window st i p"
  by (simp_all add: extend_lease_def session_log_def session_tape_def session_window_def
      session_windows_def split: option.split)

lemma extend_lease_leases:
  "jget (ss_leases (extend_lease st sid now)) i = None \<longleftrightarrow> jget (ss_leases st) i = None"
  by (auto simp: extend_lease_def split: option.split)

lemma extend_lease_inv: "session_inv st \<Longrightarrow> session_inv (extend_lease st sid now)"
  by (rule session_inv_same) (simp_all add: extend_lease_leases)

lemma index_entry_fields [simp]:
  "ss_sessions (index_entry st e) = ss_sessions st"
  "ss_byThread (index_entry st e) = ss_byThread st"
  "ss_entries (index_entry st e) = ss_entries st"
  "ss_tape (index_entry st e) = ss_tape st"
  "ss_leases (index_entry st e) = ss_leases st"
  "ss_windows (index_entry st e) = ss_windows st"
  "ss_participants (index_entry st e) = ss_participants st"
  "session_log (index_entry st e) i = session_log st i"
  "session_tape (index_entry st e) i = session_tape st i"
  "session_window (index_entry st e) i p = session_window st i p"
  by (simp_all add: index_entry_def Let_def session_log_def session_tape_def session_window_def
      session_windows_def split: option.split)

lemma push_tape_fields [simp]:
  "ss_sessions (push_tape st sid r now) = ss_sessions st"
  "ss_byThread (push_tape st sid r now) = ss_byThread st"
  "ss_entries (push_tape st sid r now) = ss_entries st"
  "ss_leases (push_tape st sid r now) = ss_leases st"
  "ss_windows (push_tape st sid r now) = ss_windows st"
  "ss_participants (push_tape st sid r now) = ss_participants st"
  "session_log (push_tape st sid r now) i = session_log st i"
  "session_window (push_tape st sid r now) i p = session_window st i p"
  "session_tape (push_tape st sid r now) i =
     (if i = sid then session_tape st sid @ [tape_record_of r sid (length (session_tape st sid)) now]
      else session_tape st i)"
  by (simp_all add: push_tape_def session_log_def session_tape_def session_window_def session_windows_def)

lemma lease_valid_session:
  assumes "session_inv st" "lease_valid st l now"
  shows "jget (ss_sessions st) (lr_sessionId l) \<noteq> None"
  using assms session_invD(4) [OF assms(1)] by (fastforce simp: lease_valid_def split: option.splits)

text \<open>A change of one log and its tape in step keeps the shape.\<close>

lemma session_inv_log:
  assumes "session_inv st" "jget (ss_sessions st) sid \<noteq> None"
    and "ss_sessions st' = ss_sessions st" "ss_byThread st' = ss_byThread st"
    and "ss_leases st' = ss_leases st"
    and "\<And>i. jget (ss_entries st') i \<noteq> None \<longleftrightarrow> jget (ss_entries st) i \<noteq> None"
    and "\<And>i. i \<noteq> sid \<Longrightarrow> jget (ss_tape st') i = jget (ss_tape st) i"
    and "\<And>i. i \<noteq> sid \<Longrightarrow> session_log st' i = session_log st i"
    and "log_ok sid (session_log st' sid)" "tape_mirrors (session_tape st' sid) (session_log st' sid)"
  shows "session_inv st'"
proof (rule session_invI)
  fix i
  show "jget (ss_sessions st') i = None \<Longrightarrow> jget (ss_leases st') i = None \<and> jget (ss_tape st') i = None"
    using session_invD(4) [OF assms(1)] assms by metis
  show "log_ok i (session_log st' i)"
    using session_invD(5) [OF assms(1)] assms by (cases "i = sid") simp_all
  have "i \<noteq> sid \<Longrightarrow> session_tape st' i = session_tape st i" using assms(7) by (simp add: session_tape_def)
  then show "tape_mirrors (session_tape st' i) (session_log st' i)"
    using session_invD(6) [OF assms(1)] assms by (cases "i = sid") simp_all
qed (use assms session_invD [OF assms(1)] in simp_all)

lemma append_entry_shape:
  assumes "session_inv st" "append_entry st l e clk = Inr (st', full)"
  shows "session_inv st' \<and> lease_valid st l (clk 0) \<and>
    full = new_log_entry (lr_sessionId l) (length (session_log st (lr_sessionId l))) e (clk 2) \<and>
    session_log st' (lr_sessionId l) = session_log st (lr_sessionId l) @ [full] \<and>
    (\<forall>i. i \<noteq> lr_sessionId l \<longrightarrow> session_log st' i = session_log st i) \<and>
    (\<forall>i p. session_window st' i p = session_window st i p) \<and>
    ss_sessions st' = ss_sessions st \<and> ss_participants st' = ss_participants st"
proof -
  let ?sid = "lr_sessionId l"
  let ?st1 = "extend_lease st ?sid (clk 1)"
  from assms(2) have valid: "lease_valid st l (clk 0)"
    by (auto simp: append_entry_def split: if_splits)
  from assms(2) valid obtain log where log: "jget (ss_entries st) ?sid = Some log"
    by (auto simp: append_entry_def Let_def split: option.splits)
  then have slog: "session_log st ?sid = log" by (simp add: session_log_def)
  let ?full = "new_log_entry ?sid (length log) e (clk 2)"
  let ?st2 = "?st1\<lparr>ss_entries := jset (ss_entries st) ?sid (log @ [?full])\<rparr>"
  let ?st3 = "push_tape ?st2 ?sid (tapeTranscriptEntryRecord ?full) (clk 3)"
  have "append_entry st l e clk = Inr (index_entry ?st3 ?full, ?full)"
    using valid log by (simp add: append_entry_def Let_def)
  with assms(2) have full: "full = ?full" and st': "st' = index_entry ?st3 ?full" by auto
  have "session_inv ?st3"
  proof (rule session_inv_log [OF extend_lease_inv [OF assms(1)], of ?sid])
    show "jget (ss_sessions ?st1) ?sid \<noteq> None"
      using lease_valid_session [OF assms(1) valid] by simp
    show "log_ok ?sid (session_log ?st3 ?sid)"
      using log_ok_snoc session_invD(5) [OF assms(1), of ?sid] slog by simp
    show "tape_mirrors (session_tape ?st3 ?sid) (session_log ?st3 ?sid)"
    proof -
      have "transcriptEntryFromTape (tape_record_of (tapeTranscriptEntryRecord ?full) ?sid sq t) = Some ?full" for sq t
        by (rule mirror_of_new) (simp add: new_log_entry_def)
      moreover have "en_seq ?full = int (length log)" by (simp add: new_log_entry_def)
      ultimately show ?thesis
        using session_invD(6) [OF assms(1), of ?sid] slog
        by (simp add: tape_mirrors_snoc)
    qed
  qed (auto simp: push_tape_def log session_log_def)
  then have "session_inv st'"
    unfolding st' by (rule session_inv_same) simp_all
  with valid full slog show ?thesis
    by (simp add: st' session_log_def)
qed

lemma append_state_inv:
  assumes "session_inv st" shows "session_inv (append_state st l e clk)"
proof (cases "append_entry st l e clk")
  case (Inl err)
  with assms show ?thesis by (cases err) (simp_all add: append_state_def extend_lease_inv)
next
  case (Inr r)
  then obtain st' full where "append_entry st l e clk = Inr (st', full)" by (cases r) auto
  with append_entry_shape [OF assms this] show ?thesis by (simp add: append_state_def)
qed

subsection \<open>The other operations\<close>

lemma upd_session_inv:
  assumes "session_inv st" "\<And>s. se_id (f s) = se_id s" "\<And>s. se_threadRef (f s) = se_threadRef s"
  shows "session_inv (upd_session st sid f)"
proof (cases "jget (ss_sessions st) sid")
  case (Some s)
  let ?st = "st\<lparr>ss_sessions := jset (ss_sessions st) sid (f s)\<rparr>"
  note inv = session_invD [OF assms(1)]
  have "session_inv ?st"
  proof (rule session_invI)
    fix i r
    assume "jget (ss_sessions ?st) i = Some r"
    then show "se_id r = i \<and> i \<noteq> [] \<and> jget (ss_byThread ?st) (se_threadRef r) = Some i"
      using inv(1) [of i] inv(1) [OF Some] assms(2,3) by (auto split: if_splits)
  next
    fix t i
    assume "jget (ss_byThread ?st) t = Some i"
    then show "\<exists>r. jget (ss_sessions ?st) i = Some r \<and> se_threadRef r = t"
      using inv(2) [of t i] Some assms(3) by auto
  next
    fix i
    show "(jget (ss_entries ?st) i \<noteq> None) = (jget (ss_sessions ?st) i \<noteq> None)"
      using inv(3) [of i] Some by simp
    show "jget (ss_sessions ?st) i = None \<Longrightarrow> jget (ss_leases ?st) i = None \<and> jget (ss_tape ?st) i = None"
      using inv(4) [of i] by (simp split: if_splits)
    show "log_ok i (session_log ?st i)" using inv(5) [of i] by (simp add: session_log_def)
    show "tape_mirrors (session_tape ?st i) (session_log ?st i)"
      using inv(6) [of i] by (simp add: session_log_def session_tape_def)
  qed
  with Some show ?thesis by (simp add: upd_session_def)
qed (use assms(1) in \<open>simp add: upd_session_def\<close>)

lemma touch_session_same [simp]:
  "se_id (touch_session c s x) = se_id x" "se_threadRef (touch_session c s x) = se_threadRef x"
  by (simp_all add: touch_session_def Let_def)

lemma getOrCreate_inv:
  assumes "session_inv st" "uuid \<noteq> []" "jget (ss_sessions st) uuid = None"
  shows "session_inv (fst (getOrCreateByThread st uuid t ty scope c surf now))"
proof (cases "jget (ss_byThread st) t")
  case (Some i)
  then obtain s where s: "jget (ss_sessions st) i = Some s" using session_invD(2) [OF assms(1)] by blast
  then have "i \<noteq> []" using session_invD(1) [OF assms(1)] by blast
  with Some s have "fst (getOrCreateByThread st uuid t ty scope c surf now) = upd_session st i (touch_session c surf)"
    by (simp add: getOrCreateByThread_def upd_session_def Let_def)
  with upd_session_inv [OF assms(1), of "touch_session c surf"] show ?thesis by simp
next
  case None
  let ?s = "new_session uuid t ty scope c surf now"
  let ?st = "st\<lparr>ss_sessions := jset (ss_sessions st) uuid ?s,
      ss_entries := jset (ss_entries st) uuid [], ss_byThread := jset (ss_byThread st) t uuid\<rparr>"
  note inv = session_invD [OF assms(1)]
  have log: "session_log ?st i = (if i = uuid then [] else session_log st i)" for i
    by (simp add: session_log_def)
  have tape: "session_tape ?st i = session_tape st i" for i by (simp add: session_tape_def)
  have s: "se_id ?s = uuid" "se_threadRef ?s = t" by (simp_all add: new_session_def)
  have notape: "session_tape st uuid = []" using inv(4) [OF assms(3)] by (simp add: session_tape_def)
  have "session_inv ?st"
  proof (rule session_invI)
    fix i r
    assume r: "jget (ss_sessions ?st) i = Some r"
    show "se_id r = i \<and> i \<noteq> [] \<and> jget (ss_byThread ?st) (se_threadRef r) = Some i"
    proof (cases "i = uuid")
      case True
      with r s assms(2) show ?thesis by simp
    next
      case False
      with r have "jget (ss_sessions st) i = Some r" by simp
      from inv(1) [OF this] None show ?thesis by auto
    qed
  next
    fix t' i
    assume "jget (ss_byThread ?st) t' = Some i"
    then show "\<exists>r. jget (ss_sessions ?st) i = Some r \<and> se_threadRef r = t'"
      using inv(2) [of t' i] s assms(3) by (auto split: if_splits)
  next
    fix i
    show "(jget (ss_entries ?st) i \<noteq> None) = (jget (ss_sessions ?st) i \<noteq> None)"
      using inv(3) [of i] by simp
    show "jget (ss_sessions ?st) i = None \<Longrightarrow> jget (ss_leases ?st) i = None \<and> jget (ss_tape ?st) i = None"
      using inv(4) [of i] by (simp split: if_splits)
    show "log_ok i (session_log ?st i)" using inv(5) [of i] by (simp add: log log_ok_Nil)
    show "tape_mirrors (session_tape ?st i) (session_log ?st i)"
      using inv(6) [of i] notape by (simp add: log tape tape_mirrors_Nil)
  qed
  with None show ?thesis by (simp add: getOrCreateByThread_def Let_def)
qed

lemma acquireLease_inv:
  "session_inv st \<Longrightarrow> session_inv (fst (acquireLease st sid h tok clk))"
  by (erule session_inv_same) (auto simp: acquireLease_def split: option.splits if_splits)

lemma release_inv:
  "session_inv st \<Longrightarrow> session_inv (releaseSessionLease st l)"
  "session_inv st \<Longrightarrow> session_inv (forceReleaseLease st sid)"
  by (erule session_inv_same; simp add: releaseSessionLease_def forceReleaseLease_def)+

lemma renewLease_inv: "session_inv st \<Longrightarrow> session_inv (fst (renewLease st l clk))"
  by (simp add: renewLease_def extend_lease_inv)

lemma deleteSession_inv:
  assumes "session_inv st" shows "session_inv (deleteSession st sid)"
proof (cases "jget (ss_sessions st) sid")
  case None
  note inv = session_invD [OF assms]
  have "jget (ss_entries st) sid = None" using inv(3) [of sid] None by simp
  then have "session_log st sid = []" "jget (ss_tape st) sid = None"
    using inv(4) [OF None] by (simp_all add: session_log_def)
  show ?thesis
  proof (rule session_invI)
    fix t i
    assume "jget (ss_byThread (deleteSession st sid)) t = Some i"
    then show "\<exists>s. jget (ss_sessions (deleteSession st sid)) i = Some s \<and> se_threadRef s = t"
      using inv(2) [of t i] None by (auto simp: deleteSession_def)
  qed (use inv None in \<open>auto simp: deleteSession_def session_log_def session_tape_def log_ok_Nil
      tape_mirrors_Nil split: if_splits\<close>)
next
  case (Some s)
  note inv = session_invD [OF assms]
  note sinv = inv(1) [OF Some]
  show ?thesis
  proof (rule session_invI)
    fix i r
    assume "jget (ss_sessions (deleteSession st sid)) i = Some r"
    then have r: "i \<noteq> sid" "jget (ss_sessions st) i = Some r"
      by (auto simp: deleteSession_def split: if_splits)
    from inv(1) [OF r(2)] r(1) sinv show "se_id r = i \<and> i \<noteq> [] \<and>
        jget (ss_byThread (deleteSession st sid)) (se_threadRef r) = Some i"
      by (auto simp: deleteSession_def Some)
  next
    fix t i
    assume "jget (ss_byThread (deleteSession st sid)) t = Some i"
    then have t: "t \<noteq> se_threadRef s" "jget (ss_byThread st) t = Some i"
      by (auto simp: deleteSession_def Some split: if_splits)
    from inv(2) [OF t(2)] obtain r where "jget (ss_sessions st) i = Some r" "se_threadRef r = t" by blast
    with t(1) Some show "\<exists>r. jget (ss_sessions (deleteSession st sid)) i = Some r \<and> se_threadRef r = t"
      by (auto simp: deleteSession_def)
  next
    fix i
    show "(jget (ss_entries (deleteSession st sid)) i \<noteq> None) = (jget (ss_sessions (deleteSession st sid)) i \<noteq> None)"
      using inv(3) [of i] by (simp add: deleteSession_def)
    show "jget (ss_sessions (deleteSession st sid)) i = None \<Longrightarrow>
        jget (ss_leases (deleteSession st sid)) i = None \<and> jget (ss_tape (deleteSession st sid)) i = None"
      using inv(4) [of i] by (simp add: deleteSession_def split: if_splits)
    show "log_ok i (session_log (deleteSession st sid) i)"
      using inv(5) [of i] by (simp add: deleteSession_def session_log_def log_ok_Nil)
    show "tape_mirrors (session_tape (deleteSession st sid) i) (session_log (deleteSession st sid) i)"
      using inv(6) [of i] by (simp add: deleteSession_def session_log_def session_tape_def tape_mirrors_Nil)
  qed
qed

lemma deleteSessionIfEmpty_inv: "session_inv st \<Longrightarrow> session_inv (fst (deleteSessionIfEmpty st sid now))"
  by (simp add: deleteSessionIfEmpty_def deleteSession_inv)

lemma without_taint_same:
  "without_taint e = Some e' \<Longrightarrow> en_seq e' = en_seq e \<and> en_sessionId e' = en_sessionId e \<and>
     en_parentSeq e' = en_parentSeq e"
  by (auto simp: without_taint_def split: json.splits if_splits)

lemma clear_taint_loop_inv:
  assumes "session_inv st" "jget (ss_sessions st) sid \<noteq> None" "\<forall>i \<in> set is. i < length (session_log st sid)"
  shows "session_inv (clear_taint_loop st sid is clk)"
  using assms
proof (induction "is" arbitrary: st)
  case (Cons i "is")
  let ?log = "session_log st sid"
  show ?case
  proof (cases "without_taint (?log ! i)")
    case (Some e)
    let ?st1 = "st\<lparr>ss_entries := jset (ss_entries st) sid (?log[i := e])\<rparr>"
    let ?st2 = "push_tape ?st1 sid (tapeTranscriptEntryRecord e) (clk i)"
    have i: "i < length ?log" using Cons.prems(3) by simp
    have lg: "log_ok sid ?log" by (rule session_invD(5) [OF Cons.prems(1)])
    then have ei: "en_seq (?log ! i) = int i" "en_sessionId (?log ! i) = sid"
      using i by (simp_all add: log_ok_def)
    note same = without_taint_same [OF Some]
    have "jget (ss_entries st) sid \<noteq> None"
      using session_invD(3) [OF Cons.prems(1), of sid] Cons.prems(2) by simp
    have "session_inv ?st2"
    proof (rule session_inv_log [OF Cons.prems(1,2)])
      show "log_ok sid (session_log ?st2 sid)"
        using log_ok_update [OF lg i] same by simp
      show "tape_mirrors (session_tape ?st2 sid) (session_log ?st2 sid)"
        using tape_mirrors_update [OF session_invD(6) [OF Cons.prems(1), of sid] mirror_of_new _ i]
          same ei by simp
    qed (use \<open>jget (ss_entries st) sid \<noteq> None\<close> in \<open>auto simp: push_tape_def session_log_def\<close>)
    from Cons.IH [OF this] Cons.prems(2,3) Some show ?thesis by (simp add: Let_def)
  qed (use Cons in simp)
qed simp

lemma clearSecurityTaint_inv: "session_inv st \<Longrightarrow> session_inv (fst (clearSecurityTaint st sid clk))"
  using session_invD(3) [of st sid]
  by (auto simp: clearSecurityTaint_def session_log_def intro!: clear_taint_loop_inv split: option.split)

text \<open>A record appended to the tape is not itself a mirrored transcript entry.\<close>

definition foreign_record :: "new_tape_record \<Rightarrow> bool" where
  "foreign_record r \<longleftrightarrow> jfield (tp_payload r) ''event'' \<noteq> Some (JStr ''transcript_entry'')"

lemma foreign_not_entry: "foreign_record r \<Longrightarrow> transcriptEntryFromTape (tape_record_of r sid sq t) = None"
  by (simp add: foreign_record_def transcriptEntryFromTape_def tape_record_of_def new_tape_record.defs
      tape_record.defs split: option.split)

definition appendTape_state :: "session_store \<Rightarrow> lease_ref \<Rightarrow> new_tape_record \<Rightarrow> (nat \<Rightarrow> time) \<Rightarrow> session_store" where
  "appendTape_state st l r clk = (case appendTape st l r clk of Inl _ \<Rightarrow> st | Inr (st', _) \<Rightarrow> st')"

lemma appendTape_inv:
  assumes "session_inv st" "foreign_record r" shows "session_inv (appendTape_state st l r clk)"
proof (cases "lease_valid st l (clk 0)")
  case True
  let ?sid = "lr_sessionId l"
  let ?st1 = "extend_lease st ?sid (clk 1)"
  have "session_inv (push_tape ?st1 ?sid r (clk 2))"
  proof (rule session_inv_log [OF extend_lease_inv [OF assms(1)], of ?sid])
    show "jget (ss_sessions ?st1) ?sid \<noteq> None" using lease_valid_session [OF assms(1) True] by simp
    show "log_ok ?sid (session_log (push_tape ?st1 ?sid r (clk 2)) ?sid)"
      using session_invD(5) [OF assms(1)] by simp
    show "tape_mirrors (session_tape (push_tape ?st1 ?sid r (clk 2)) ?sid)
        (session_log (push_tape ?st1 ?sid r (clk 2)) ?sid)"
      using session_invD(6) [OF assms(1), of ?sid] tape_mirrors_other foreign_not_entry [OF assms(2)] by simp
  qed (auto simp: push_tape_def session_log_def)
  with True show ?thesis by (simp add: appendTape_state_def appendTape_def Let_def)
qed (use assms in \<open>simp add: appendTape_state_def appendTape_def\<close>)

lemma put_window_fields [simp]:
  "ss_sessions (put_window st sid p w) = ss_sessions st"
  "ss_byThread (put_window st sid p w) = ss_byThread st"
  "ss_entries (put_window st sid p w) = ss_entries st"
  "ss_tape (put_window st sid p w) = ss_tape st"
  "ss_leases (put_window st sid p w) = ss_leases st"
  "ss_search (put_window st sid p w) = ss_search st"
  "ss_participants (put_window st sid p w) = ss_participants st"
  "session_log (put_window st sid p w) i = session_log st i"
  "session_window (put_window st sid p w) i q = (if i = sid \<and> q = p then Some w else session_window st i q)"
  by (auto simp: put_window_def session_log_def session_window_def session_windows_def)

lemma participants_inv:
  assumes "session_inv st"
  shows "session_inv (addParticipant st sid p title hist now)"
    and "session_inv (removeParticipant st sid p now)"
    and "session_inv (updateParticipantView st sid p patch)"
    and "session_inv (fst (addPin st sid uuid tx sq by mx now))"
    and "session_inv (fst (removePin st sid pid))"
    and "session_inv (fst (recordLlmRequest hash st sid uuid r now))"
  by (rule session_inv_same [OF assms];
      simp add: addParticipant_def removeParticipant_def updateParticipantView_def addPin_def removePin_def
        recordLlmRequest_def Let_def split: option.split)+

definition appendSearch_state :: "session_store \<Rightarrow> lease_ref \<Rightarrow> search_row list \<Rightarrow> (nat \<Rightarrow> time) \<Rightarrow> session_store" where
  "appendSearch_state st l rows clk = (case appendSearchEntries st l rows clk of Inl _ \<Rightarrow> st | Inr st' \<Rightarrow> st')"

lemma appendSearch_inv: "session_inv st \<Longrightarrow> session_inv (appendSearch_state st l rows clk)"
  by (erule session_inv_same) (simp_all add: appendSearch_state_def appendSearchEntries_def Let_def extend_lease_leases)

end
