(* ===== verification/SessionProps.thy ===== *)
theory SessionProps
  imports SessionInv
begin

section \<open>What the session store guarantees\<close>

text \<open>
  The shape along every sequence of operations; the two views of a transcript; the lease of the
  writer; what a participant sees; search; the bounded transcript; paging.
\<close>

datatype session_op =
    SoGetOrCreate ident string session_type scope_id "string option" "string option" time
  | SoTitle ident string
  | SoFork ident json int
  | SoParent ident "ident option"
  | SoSpawn ident json
  | SoAcquire ident "lease_holder option" string "nat \<Rightarrow> time"
  | SoRenew lease_ref "nat \<Rightarrow> time"
  | SoRelease lease_ref
  | SoForceRelease ident
  | SoDelete ident
  | SoDeleteIfEmpty ident time
  | SoAppend lease_ref new_entry "nat \<Rightarrow> time"
  | SoAppendTape lease_ref new_tape_record "nat \<Rightarrow> time"
  | SoClearTaint ident "nat \<Rightarrow> time"
  | SoAdd ident string "string option" bool time
  | SoRemove ident string time
  | SoView ident string view_patch
  | SoPin ident ident "string option" "int option" string "int option" time
  | SoUnpin ident ident
  | SoLlm ident ident new_llm_request time
  | SoSearchRows lease_ref "search_row list" "nat \<Rightarrow> time"

fun session_step :: "(json \<Rightarrow> string) \<Rightarrow> session_store \<Rightarrow> session_op \<Rightarrow> session_store" where
  "session_step hash st (SoGetOrCreate u t ty sc c su now) = fst (getOrCreateByThread st u t ty sc c su now)"
| "session_step hash st (SoTitle i t) = updateTitle st i t"
| "session_step hash st (SoFork i f b) = updateForkProvenance st i f b"
| "session_step hash st (SoParent i p) = setParentSession st i p"
| "session_step hash st (SoSpawn i m) = setSpawnMeta st i m"
| "session_step hash st (SoAcquire i h tok clk) = fst (acquireLease st i h tok clk)"
| "session_step hash st (SoRenew l clk) = fst (renewLease st l clk)"
| "session_step hash st (SoRelease l) = releaseSessionLease st l"
| "session_step hash st (SoForceRelease i) = forceReleaseLease st i"
| "session_step hash st (SoDelete i) = deleteSession st i"
| "session_step hash st (SoDeleteIfEmpty i now) = fst (deleteSessionIfEmpty st i now)"
| "session_step hash st (SoAppend l e clk) = append_state st l e clk"
| "session_step hash st (SoAppendTape l r clk) = appendTape_state st l r clk"
| "session_step hash st (SoClearTaint i clk) = fst (clearSecurityTaint st i clk)"
| "session_step hash st (SoAdd i p t h now) = addParticipant st i p t h now"
| "session_step hash st (SoRemove i p now) = removeParticipant st i p now"
| "session_step hash st (SoView i p patch) = updateParticipantView st i p patch"
| "session_step hash st (SoPin i u t sq by mx now) = fst (addPin st i u t sq by mx now)"
| "session_step hash st (SoUnpin i pid) = fst (removePin st i pid)"
| "session_step hash st (SoLlm i u r now) = fst (recordLlmRequest hash st i u r now)"
| "session_step hash st (SoSearchRows l rows clk) = appendSearch_state st l rows clk"

text \<open>
  The inputs: \<open>randomUUID()\<close> is a non-empty identifier no session has, and only \<open>append\<close> and
  \<open>clearSecurityTaint\<close> write transcript entries on the tape.
\<close>

fun session_ok :: "session_store \<Rightarrow> session_op \<Rightarrow> bool" where
  "session_ok st (SoGetOrCreate u t ty sc c su now) = (u \<noteq> [] \<and> jget (ss_sessions st) u = None)"
| "session_ok st (SoAppendTape l r clk) = foreign_record r"
| "session_ok st _ = True"

lemma session_edits_inv:
  assumes "session_inv st"
  shows "session_inv (updateTitle st i t)" "session_inv (updateForkProvenance st i f b)"
    "session_inv (setParentSession st i p)" "session_inv (setSpawnMeta st i m)"
  unfolding updateTitle_def updateForkProvenance_def setParentSession_def setSpawnMeta_def
  by (rule upd_session_inv [OF assms]; simp)+

lemma session_step_inv:
  "session_inv st \<Longrightarrow> session_ok st x \<Longrightarrow> session_inv (session_step hash st x)"
  by (cases x) (simp_all add: getOrCreate_inv session_edits_inv acquireLease_inv renewLease_inv release_inv
      deleteSession_inv deleteSessionIfEmpty_inv append_state_inv appendTape_inv clearSecurityTaint_inv
      participants_inv appendSearch_inv)

interpretation sessions: op_invariant "session_step hash" session_ok session_inv for hash
  by unfold_locales (rule session_step_inv)

lemma empty_session_inv: "session_inv (createMemorySessionStore ttl)"
  by (simp add: session_inv_def createMemorySessionStore_def session_log_def session_tape_def
      log_ok_Nil tape_mirrors_Nil)

text \<open>
  C30. After any sequence of operations a thread has one session and a session one thread, the
  entries of every log are numbered by their position with their parent before them, the tape of
  every session projects to exactly its log (also after the taint of entries was cleared), and
  leases exist only for sessions that do.
\<close>

theorem session_store_invariant:
  assumes "ok_run (session_step hash) session_ok (createMemorySessionStore ttl) ops"
  shows "session_inv (foldl (session_step hash) (createMemorySessionStore ttl) ops)"
  by (rule sessions.run_keeps [OF empty_session_inv assms])

definition sample_note :: "string \<Rightarrow> new_entry" where
  "sample_note t = \<lparr>ne_type = EtUser, ne_payload = JObj [(''text'', JStr t), (''securityTainted'', JBool True)],
     ne_scopeLabel = ''org:o''\<rparr>"

definition sample_lease :: lease_ref where
  "sample_lease = \<lparr>lr_sessionId = ''s'', lr_token = ''tok''\<rparr>"

definition sample_session_ops :: "session_op list" where
  "sample_session_ops =
     [SoGetOrCreate ''s'' ''web:1'' Dm ''org:o'' None None 0, SoAcquire ''s'' None ''tok'' (\<lambda>_. 1),
      SoAppend sample_lease (sample_note ''hello'') (\<lambda>_. 2),
      SoAppend sample_lease (sample_note ''world'') (\<lambda>_. 3), SoClearTaint ''s'' (\<lambda>_. 4)]"

lemma sample_session_ok:
  "ok_run (session_step (\<lambda>_. [])) session_ok (createMemorySessionStore None) sample_session_ops"
  by (simp add: sample_session_ops_def createMemorySessionStore_def)

definition sample_sessions :: session_store where
  "sample_sessions = foldl (session_step (\<lambda>_. [])) (createMemorySessionStore None) sample_session_ops"

theorem session_store_invariant_witness: "session_inv sample_sessions"
  unfolding sample_sessions_def by (rule session_store_invariant [OF sample_session_ok])

lemma sample_sessions_inv: "session_inv sample_sessions"
  unfolding sample_sessions_def by (rule sessions.run_keeps [OF empty_session_inv sample_session_ok])

subsection \<open>The transcript is the log\<close>

lemma log_seqs: "log_ok sid log \<Longrightarrow> map en_seq log = map int [0 ..< length log]"
  by (rule nth_equalityI) (simp_all add: log_ok_def)

lemma sort_projection:
  assumes "tape_mirrors rows log" "log_ok sid log"
  shows "sort_key en_seq (jvals (project_tape rows)) = log"
proof (rule map_sorted_distinct_set_unique [where f = en_seq])
  let ?m = "project_tape rows"
  have wf: "jwf ?m" and get: "\<And>q. jget ?m q = (if 0 \<le> q \<and> q < int (length log) then Some (log ! nat q) else None)"
    using assms(1) by (simp_all add: tape_mirrors_def)
  have ent: "en_seq e = q \<and> e \<in> set log" if "(q, e) \<in> set ?m" for q e
  proof -
    from that wf get [of q] have q: "0 \<le> q" "q < int (length log)" "e = log ! nat q"
      by (auto simp: jwf_in_iff split: if_splits)
    then have "nat q < length log" by linarith
    with assms(2) q show ?thesis by (auto simp: log_ok_def)
  qed
  have ke: "map en_seq (jvals ?m) = jkeys ?m" using ent by auto
  have keys: "distinct (map en_seq (jvals ?m))" unfolding ke using wf by (simp add: jwf_def)
  show "distinct (map en_seq (sort_key en_seq (jvals ?m)))"
    using keys unfolding distinct_map distinct_sort set_sort .
  show "sorted (map en_seq (sort_key en_seq (jvals ?m)))" by simp
  show "sorted (map en_seq log)" "distinct (map en_seq log)"
    unfolding log_seqs [OF assms(2)] by (simp_all add: distinct_map sorted_map)
  have "e \<in> set (jvals ?m)" if "e \<in> set log" for e
  proof -
    from that obtain i where "i < length log" "e = log ! i" by (auto simp: in_set_conv_nth)
    then have "jget ?m (int i) = Some e" using get [of "int i"] by simp
    then have "(int i, e) \<in> set ?m" by (simp add: jwf_in_iff [OF wf])
    then show ?thesis by force
  qed
  then show "set (sort_key en_seq (jvals ?m)) = set log" using ent by force
  show "inj_on en_seq (set (sort_key en_seq (jvals ?m)) \<union> set log)"
    unfolding \<open>set (sort_key en_seq (jvals ?m)) = set log\<close>
    using \<open>distinct (map en_seq log)\<close> by (simp add: distinct_map)
qed

lemma transcript_reads:
  assumes "session_inv st"
  shows "(eq_limit q \<noteq> Some 0 \<longrightarrow> getTranscriptEntries st sid q = getEntries st sid q) \<and>
    (eq_limit q = Some 0 \<longrightarrow> getTranscriptEntries st sid q = [] \<and>
       getEntries st sid q = filter (in_range q) (session_log st sid))"
proof -
  have "sort_key en_seq (filter (in_range q) (jvals (project_tape (session_tape st sid)))) =
      filter (in_range q) (session_log st sid)"
    using sort_projection [OF session_invD(6,5) [OF assms], of sid] by (simp add: filter_sort [symmetric])
  then show ?thesis
    by (auto simp: getTranscriptEntries_def getEntries_def Let_def slice_last_def split: option.split)
qed

lemmas transcript_read = transcript_reads [THEN conjunct1, rule_format]

text \<open>
  C31. The transcript read from the tape is the log, for every session and every range and limit,
  except the limit zero: there the transcript is empty while \<open>getEntries\<close> answers with everything
  in the range.
\<close>

theorem transcript_is_log:
  assumes "session_inv st"
  shows "(eq_limit q \<noteq> Some 0 \<longrightarrow> getTranscriptEntries st sid q = getEntries st sid q) \<and>
    (eq_limit q = Some 0 \<longrightarrow> getTranscriptEntries st sid q = [] \<and>
       getEntries st sid q = filter (in_range q) (session_log st sid))"
  by (rule transcript_reads [OF assms])

theorem transcript_is_log_witness:
  "getTranscriptEntries sample_sessions ''s'' \<lparr>eq_sinceSeq = Some 1, eq_beforeSeq = None, eq_limit = Some 5\<rparr> =
     getEntries sample_sessions ''s'' \<lparr>eq_sinceSeq = Some 1, eq_beforeSeq = None, eq_limit = Some 5\<rparr>"
  using transcript_is_log [OF sample_sessions_inv] by simp

subsection \<open>The writer's lease\<close>




end
