(* ===== verification/SessionVisibility.thy ===== *)
theory SessionVisibility
  imports SessionProps
begin

section \<open>What a participant and a reader see\<close>

text \<open>
  The tenure of a participant along every sequence of operations, the hits of a search, the bounded
  transcript and the pages of a listing.
\<close>

subsection \<open>Tenure\<close>

text \<open>The operations that neither add nor remove \<open>p\<close> in \<open>sid\<close> nor delete the session.\<close>

fun spares :: "ident \<Rightarrow> string \<Rightarrow> session_op \<Rightarrow> bool" where
  "spares sid p (SoAdd i q t h now) = (i \<noteq> sid \<or> q \<noteq> p)"
| "spares sid p (SoRemove i q now) = (i \<noteq> sid \<or> q \<noteq> p)"
| "spares sid p (SoDelete i) = (i \<noteq> sid)"
| "spares sid p (SoDeleteIfEmpty i now) = (i \<noteq> sid)"
| "spares sid p _ = True"

definition has_tenure :: "ident \<Rightarrow> string \<Rightarrow> tenure \<Rightarrow> session_store \<Rightarrow> bool" where
  "has_tenure sid p t st \<longleftrightarrow> map_option tenure.truncate (session_window st sid p) = Some t"

lemma has_tenure_same:
  "session_window st' sid p = session_window st sid p \<Longrightarrow> has_tenure sid p t st \<Longrightarrow> has_tenure sid p t st'"
  by (simp add: has_tenure_def)

lemma windows_same: "ss_windows st' = ss_windows st \<Longrightarrow> session_window st' sid p = session_window st sid p"
  by (simp add: session_window_def session_windows_def)

lemma push_tape_frame:
  "session_window (push_tape st sid r now) i p = session_window st i p"
  "session_log (push_tape st sid r now) i = session_log st i"
  by (simp_all add: push_tape_def session_log_def session_window_def session_windows_def)

lemma set_log_frame:
  "session_window (st\<lparr>ss_entries := m\<rparr>) i p = session_window st i p"
  "length (session_log (st\<lparr>ss_entries := jset (ss_entries st) sid ((session_log st sid)[k := e])\<rparr>) i) =
     length (session_log st i)"
  by (simp_all add: session_log_def session_window_def session_windows_def)

lemma clear_taint_loop_frame:
  "session_window (clear_taint_loop st sid is clk) i p = session_window st i p"
  "length (session_log (clear_taint_loop st sid is clk) i) = length (session_log st i)"
proof (induction "is" arbitrary: st)
  case (Cons k "is")
  { case 1 show ?case using Cons.IH(1)
      by (cases "without_taint (session_log st sid ! k)") (simp_all add: Let_def push_tape_frame set_log_frame) }
  { case 2 show ?case using Cons.IH(2)
      by (cases "without_taint (session_log st sid ! k)")
        (simp_all add: Let_def push_tape_frame set_log_frame del: set_entries_simps) }
qed simp_all

text \<open>Every operation that spares the participant leaves the tenure and lets the log only grow.\<close>

lemma append_frame:
  assumes "session_inv st"
  shows "session_window (append_state st l e clk) i p = session_window st i p \<and>
    length (session_log st i) \<le> length (session_log (append_state st l e clk) i)"
proof (cases "append_entry st l e clk")
  case (Inl err)
  then show ?thesis
    by (cases err) (simp_all add: append_state_def session_log_def session_window_def session_windows_def)
next
  case (Inr r)
  then obtain st' full where r: "append_entry st l e clk = Inr (st', full)" by (cases r) auto
  from append_entry_shape [OF assms r] r show ?thesis
    by (cases "i = lr_sessionId l") (simp_all add: append_state_def)
qed

lemma delete_frame:
  "i \<noteq> sid \<Longrightarrow> session_window (deleteSession st sid) i p = session_window st i p"
  "i \<noteq> sid \<Longrightarrow> session_log (deleteSession st sid) i = session_log st i"
  by (simp_all add: deleteSession_def session_log_def session_window_def session_windows_def)

lemma spared_frame:
  assumes "session_inv st" "session_ok st x" "spares sid p x"
  shows "length (session_log st sid) \<le> length (session_log (session_step hash st x) sid)"
proof (cases x)
  case (SoGetOrCreate u t ty sc c su now)
  then have "jget (ss_entries st) u = None" using assms session_invD(3) [OF assms(1), of u] by auto
  then show ?thesis
    by (auto simp: SoGetOrCreate getOrCreateByThread_def session_log_def Let_def split: option.split)
next
  case (SoAppend l e clk)
  then show ?thesis using append_frame [OF assms(1)] by simp
next
  case (SoClearTaint i clk)
  then show ?thesis
    by (auto simp: clearSecurityTaint_def clear_taint_loop_frame split: option.split)
next
  case (SoDelete i)
  then show ?thesis using assms(3) by (simp add: delete_frame)
next
  case (SoDeleteIfEmpty i now)
  then show ?thesis using assms(3) by (simp add: deleteSessionIfEmpty_def delete_frame)
next
  case (SoView i q patch)
  then show ?thesis by (simp add: updateParticipantView_def split: option.split)
next
  case (SoAppendTape l r clk)
  then show ?thesis
    by (simp add: appendTape_state_def appendTape_def Let_def push_tape_frame)
next
  case (SoAdd i q t h now)
  then show ?thesis by (simp add: addParticipant_def Let_def session_log_def split: option.split)
qed (auto simp: updateTitle_def updateForkProvenance_def setParentSession_def setSpawnMeta_def upd_session_def
    acquireLease_def renewLease_def releaseSessionLease_def forceReleaseLease_def addPin_def removePin_def
    recordLlmRequest_def Let_def removeParticipant_def appendSearch_state_def appendSearchEntries_def
    session_log_def split: option.split)

lemma truncate_views:
  "tenure.truncate (w\<lparr>pv_title := a, pv_archived := b, pv_pinned := c, pv_color := d\<rparr>) = tenure.truncate w"
  by (simp add: tenure.defs)

lemma participants_frame:
  "session_window (st\<lparr>ss_participants := m\<rparr>) i p = session_window st i p"
  "session_log (st\<lparr>ss_participants := m\<rparr>) i = session_log st i"
  by (simp_all add: session_window_def session_windows_def session_log_def)

lemma spared_tenure:
  assumes "session_inv st" "spares sid p x" "has_tenure sid p t st"
  shows "has_tenure sid p t (session_step hash st x)"
proof (cases x)
  case (SoAppend l e clk)
  then show ?thesis using append_frame [OF assms(1)] assms(3) by (simp add: has_tenure_def)
next
  case (SoClearTaint i clk)
  then show ?thesis using assms(3)
    by (simp add: clearSecurityTaint_def has_tenure_def clear_taint_loop_frame split: option.split)
next
  case (SoDelete i)
  then show ?thesis using assms(2,3) by (simp add: has_tenure_def delete_frame)
next
  case (SoDeleteIfEmpty i now)
  then show ?thesis using assms(2,3) by (simp add: deleteSessionIfEmpty_def has_tenure_def delete_frame)
next
  case (SoView i q patch)
  then show ?thesis using assms(3)
    by (auto simp: updateParticipantView_def has_tenure_def truncate_views split: option.split)
next
  case (SoAppendTape l r clk)
  then show ?thesis using assms(3)
    by (simp add: appendTape_state_def appendTape_def Let_def push_tape_frame has_tenure_def
        session_window_def session_windows_def)
next
  case (SoAdd i q u h now)
  have "session_window (put_window (st\<lparr>ss_participants := m\<rparr>) i q w) sid p = session_window st sid p" for m w
    using assms(2) SoAdd by (auto simp: participants_frame)
  with SoAdd assms(3) show ?thesis
    by (simp add: addParticipant_def Let_def has_tenure_def split: option.split)
next
  case (SoRemove i q now)
  then show ?thesis using assms(2,3) by (auto simp: removeParticipant_def has_tenure_def split: option.split)
qed (use assms(3) in \<open>auto simp: updateTitle_def updateForkProvenance_def setParentSession_def setSpawnMeta_def
    upd_session_def acquireLease_def renewLease_def releaseSessionLease_def forceReleaseLease_def addPin_def
    removePin_def recordLlmRequest_def Let_def getOrCreateByThread_def appendSearch_state_def
    appendSearchEntries_def has_tenure_def session_window_def session_windows_def split: option.split\<close>)

definition watched :: "ident \<Rightarrow> string \<Rightarrow> tenure \<Rightarrow> nat \<Rightarrow> session_store \<Rightarrow> bool" where
  "watched sid p t n st \<longleftrightarrow> session_inv st \<and> has_tenure sid p t st \<and> n \<le> length (session_log st sid)"

definition spared_ok :: "ident \<Rightarrow> string \<Rightarrow> session_store \<Rightarrow> session_op \<Rightarrow> bool" where
  "spared_ok sid p st x \<longleftrightarrow> session_ok st x \<and> spares sid p x"

interpretation watching: op_invariant "session_step hash" "spared_ok sid p" "watched sid p t n"
  for hash sid p t n
  by unfold_locales
    (auto simp: watched_def spared_ok_def intro: session_step_inv spared_tenure order_trans [OF _ spared_frame])

lemma visible_range:
  assumes "session_inv st" and "session_window st sid p = Some w" and "tn_validFromSeq w = Some (int n)"
  shows "tn_validToSeq w = None \<Longrightarrow> tn_validTo w = None \<Longrightarrow>
      map en_seq (visibleEntries st sid p) = map int [n ..< length (session_log st sid)]"
    and "tn_validToSeq w = Some (int m) \<Longrightarrow> m \<le> length (session_log st sid) \<Longrightarrow>
      map en_seq (visibleEntries st sid p) = map int [n ..< m]"
proof -
  let ?log = "session_log st sid"
  have seqs: "map en_seq ?log = map int [0 ..< length ?log]"
    by (rule log_seqs [OF session_invD(5) [OF assms(1)]])
  have part: "map en_seq (filter (\<lambda>e. P (en_seq e)) ?log) = map int (filter (\<lambda>k. P (int k)) [0 ..< length ?log])" for P
    using arg_cong [OF seqs, of "filter P"] by (simp add: filter_map comp_def)
  have upt: "filter (\<lambda>k. n \<le> k \<and> k < m) [0 ..< l] = [n ..< m]" if "m \<le> l" for l m
  proof -
    have "filter (\<lambda>k. n \<le> k \<and> k < m) [0 ..< l] = sorted_list_of_set {k \<in> {0 ..< l}. n \<le> k \<and> k < m}"
      by (rule sorted_list_of_set.idem_if_sorted_distinct [symmetric, THEN trans])
        (simp_all add: sorted_wrt_filter)
    also have "{k \<in> {0 ..< l}. n \<le> k \<and> k < m} = {n ..< m}" using that by auto
    finally show ?thesis by simp
  qed
  show "map en_seq (visibleEntries st sid p) = map int [n ..< length ?log]"
    if "tn_validToSeq w = None" "tn_validTo w = None"
  proof -
    have "visibleEntries st sid p = filter (\<lambda>e. int n \<le> en_seq e) ?log"
      using assms that by (simp add: visibleEntries_def within_def entryWithinTenure_def tenure.defs)
    moreover have "filter (\<lambda>k. n \<le> k) [0 ..< length ?log] = filter (\<lambda>k. n \<le> k \<and> k < length ?log) [0 ..< length ?log]"
      by (rule filter_cong) auto
    ultimately show ?thesis using part [of "\<lambda>q. int n \<le> q"] upt by simp
  qed
  show "map en_seq (visibleEntries st sid p) = map int [n ..< m]"
    if "tn_validToSeq w = Some (int m)" "m \<le> length ?log"
  proof -
    have "visibleEntries st sid p = filter (\<lambda>e. int n \<le> en_seq e \<and> en_seq e < int m) ?log"
      using assms that by (simp add: visibleEntries_def within_def entryWithinTenure_def tenure.defs)
    then show ?thesis using part [of "\<lambda>q. int n \<le> q \<and> q < int m"] upt that by simp
  qed
qed

lemma add_again:
  assumes "session_window st sid p = Some w" "tn_validTo w = Some y"
  shows "session_window (addParticipant st sid p title False now) sid p = Some
    (w\<lparr>tn_validFrom := now, tn_validTo := None,
       tn_validFromSeq := Some (int (length (session_log st sid))), tn_validToSeq := None,
       pv_title := (if title \<noteq> None then title else pv_title w)\<rparr>)"
  unfolding addParticipant_def Let_def participants_frame assms option.case if_False
  by (simp add: assms)

lemma add_tenure:
  assumes "\<forall>w. session_window st sid p = Some w \<longrightarrow> tn_validTo w \<noteq> None"
  shows "has_tenure sid p \<lparr>tn_validFrom = now, tn_validTo = None,
      tn_validFromSeq = Some (int (length (session_log st sid))), tn_validToSeq = None\<rparr>
    (addParticipant st sid p title False now)"
proof (cases "session_window st sid p")
  case None
  then show ?thesis by (simp add: addParticipant_def Let_def has_tenure_def participants_frame tenure.defs)
next
  case (Some w)
  with assms obtain y where y: "tn_validTo w = Some y" by auto
  show ?thesis
    unfolding has_tenure_def add_again [OF Some y] option.map option.inject tenure.truncate_def by simp
qed

lemma add_log: "session_log (addParticipant st sid p title h now) i = session_log st i"
  by (cases "session_window st sid p") (simp_all add: addParticipant_def Let_def participants_frame)

lemma has_tenureE:
  assumes "has_tenure sid p t st"
  obtains w where "session_window st sid p = Some w" "t = tenure.truncate w"
  using assms unfolding has_tenure_def map_option_eq_Some by blast

lemma truncate_fields [simp]:
  "tn_validFrom (tenure.truncate w) = tn_validFrom w" "tn_validTo (tenure.truncate w) = tn_validTo w"
  "tn_validFromSeq (tenure.truncate w) = tn_validFromSeq w" "tn_validToSeq (tenure.truncate w) = tn_validToSeq w"
  by (simp_all add: tenure.truncate_def)

lemma remove_log: "session_log (removeParticipant st sid p now) i = session_log st i"
  by (cases "session_window st sid p") (simp_all add: removeParticipant_def)

lemma remove_tenure:
  assumes "has_tenure sid p t st" "tn_validTo t = None"
  shows "has_tenure sid p (t\<lparr>tn_validTo := Some now, tn_validToSeq := Some (int (length (session_log st sid)))\<rparr>)
      (removeParticipant st sid p now)"
  using assms(1)
proof (rule has_tenureE)
  fix w
  assume w: "session_window st sid p = Some w" and t: "t = tenure.truncate w"
  from assms(2) have to: "tn_validTo w = None" unfolding t by simp
  have "session_window (removeParticipant st sid p now) sid p =
      Some (w\<lparr>tn_validTo := Some now, tn_validToSeq := Some (int (length (session_log st sid)))\<rparr>)"
    unfolding removeParticipant_def w option.case to if_P [OF refl] by simp
  then show ?thesis unfolding t has_tenure_def by (simp add: tenure.truncate_def)
qed

text \<open>
  C33. Somebody who joins a session without its history sees exactly what is written while they are
  in it: whatever happens in between, the entries visible to them are those from the length of
  the log when they were added up to now, and after they were removed those up to the removal, for
  good.
\<close>

theorem tenure_window:
  assumes inv: "session_inv st" and gone: "\<forall>w. session_window st sid p = Some w \<longrightarrow> tn_validTo w \<noteq> None"
    and ok: "ok_run (session_step hash) (spared_ok sid p) (addParticipant st sid p title False now) ops"
    and st2: "st2 = foldl (session_step hash) (addParticipant st sid p title False now) ops"
    and ok': "ok_run (session_step hash) (spared_ok sid p) (removeParticipant st2 sid p now') later"
  shows "map en_seq (visibleEntries st2 sid p) =
      map int [length (session_log st sid) ..< length (session_log st2 sid)] \<and>
    map en_seq (visibleEntries (foldl (session_step hash) (removeParticipant st2 sid p now') later) sid p) =
      map int [length (session_log st sid) ..< length (session_log st2 sid)]"
proof -
  let ?n = "length (session_log st sid)" and ?m = "length (session_log st2 sid)"
  let ?t = "\<lparr>tn_validFrom = now, tn_validTo = None, tn_validFromSeq = Some (int ?n), tn_validToSeq = None\<rparr>"
  let ?t' = "?t\<lparr>tn_validTo := Some now', tn_validToSeq := Some (int ?m)\<rparr>"
  have "watched sid p ?t ?n (addParticipant st sid p title False now)"
    by (simp add: watched_def participants_inv [OF inv] add_tenure [OF gone] add_log)
  then have w2: "watched sid p ?t ?n st2" unfolding st2 by (rule watching.run_keeps [OF _ ok])
  then have i2: "session_inv st2" and t2: "has_tenure sid p ?t st2" by (simp_all add: watched_def)
  have "watched sid p ?t' ?m (removeParticipant st2 sid p now')"
    using remove_tenure [OF t2] by (simp add: watched_def participants_inv [OF i2] remove_log)
  from watching.run_keeps [OF this ok'] obtain st4
    where st4: "st4 = foldl (session_step hash) (removeParticipant st2 sid p now') later"
      and w4: "session_inv st4" "has_tenure sid p ?t' st4" "?m \<le> length (session_log st4 sid)"
    by (simp add: watched_def)
  from t2 have "map en_seq (visibleEntries st2 sid p) = map int [?n ..< ?m]"
    by (rule has_tenureE) (simp add: visible_range(1) [OF i2] tenure.truncate_def)
  moreover from w4(2) have "map en_seq (visibleEntries st4 sid p) = map int [?n ..< ?m]"
    by (rule has_tenureE) (simp add: visible_range(2) [OF w4(1)] w4(3) tenure.truncate_def)
  ultimately show ?thesis unfolding st4 by blast
qed

definition tenure_append :: "string \<Rightarrow> session_op" where
  "tenure_append t = SoAppend sample_lease (sample_note t) (\<lambda>_. 6)"

theorem tenure_window_witness:
  "map en_seq (visibleEntries (foldl (session_step (\<lambda>_. []))
      (removeParticipant (session_step (\<lambda>_. []) (addParticipant sample_sessions ''s'' ''ann'' None False 5)
         (tenure_append ''in'')) ''s'' ''ann'' 7)
      [tenure_append ''out'']) ''s'' ''ann'') = [2]"
proof -
  let ?st1 = "addParticipant sample_sessions ''s'' ''ann'' None False 5"
  let ?st2 = "session_step (\<lambda>_. []) ?st1 (tenure_append ''in'')"
  have "map en_seq (visibleEntries (foldl (session_step (\<lambda>_. [])) (removeParticipant ?st2 ''s'' ''ann'' 7)
      [tenure_append ''out'']) ''s'' ''ann'') =
    map int [length (session_log sample_sessions ''s'') ..< length (session_log ?st2 ''s'')]"
  proof (rule tenure_window [OF sample_sessions_inv, THEN conjunct2])
    have "session_window sample_sessions ''s'' ''ann'' = None" by code_simp
    then show "\<forall>w. session_window sample_sessions ''s'' ''ann'' = Some w \<longrightarrow> tn_validTo w \<noteq> None" by simp
    show "ok_run (session_step (\<lambda>_. [])) (spared_ok ''s'' ''ann'') ?st1 [tenure_append ''in'']"
      by (simp add: spared_ok_def tenure_append_def)
    show "ok_run (session_step (\<lambda>_. [])) (spared_ok ''s'' ''ann'') (removeParticipant ?st2 ''s'' ''ann'' 7)
        [tenure_append ''out'']"
      by (simp add: spared_ok_def tenure_append_def)
  qed simp
  also have "length (session_log sample_sessions ''s'') = 2" by code_simp
  also have "length (session_log ?st2 ''s'') = 3" by code_simp
  also have "map int [2 ..< 3] = [2]" by (simp add: upt_rec)
  finally show ?thesis .
qed

subsection \<open>Search\<close>

lemma session_hits_mem:
  "h \<in> set (session_hits st p terms sid) \<longleftrightarrow>
     (\<exists>w s row. session_window st sid p = Some w \<and> jget (ss_sessions st) sid = Some s \<and>
        row \<in> set (search_index st sid) \<and> within w (sr_seq row) (sr_at row) \<and>
        matchesSearchTerms (sr_text row) terms \<and>
        h = \<lparr>sh_sessionId = sid, sh_scopeId = se_scopeId s,
             sh_title = (if pv_title w \<noteq> None then pv_title w else se_title s),
             sh_channelName = se_channelName s, sh_surface = se_surface s,
             sh_archived = pv_archived w, sh_seq = sr_seq row, sh_type = sr_type row,
             sh_author = sr_author row, sh_text = sr_text row, sh_at = sr_at row\<rparr>)"
proof (cases "session_window st sid p")
  case (Some w)
  then show ?thesis
  proof (cases "jget (ss_sessions st) sid")
    fix s
    assume "jget (ss_sessions st) sid = Some s"
    with Some show ?thesis
      by (simp only: session_hits_def prod.case option.case set_map set_filter option.inject) blast
  qed (simp add: session_hits_def)
qed (simp add: session_hits_def)

definition found_in :: "session_store \<Rightarrow> string \<Rightarrow> string list \<Rightarrow> ident \<Rightarrow> search_row \<Rightarrow> bool" where
  "found_in st p terms sid row \<longleftrightarrow>
     sid \<in> set (or_else (jget (ss_participants st) p) []) \<and> jget (ss_sessions st) sid \<noteq> None \<and>
     row \<in> set (search_index st sid) \<and> matchesSearchTerms (sr_text row) terms \<and>
     (\<exists>w. session_window st sid p = Some w \<and> within w (sr_seq row) (sr_at row))"

lemma take_sorted_desc:
  assumes "sorted_wrt (\<ge>) (map f xs)" "x \<in> set xs" "x \<notin> set (take n xs)" "y \<in> set (take n xs)"
  shows "f y \<ge> (f x :: 'b :: linorder)"
proof -
  have "sorted_wrt (\<ge>) (map f (take n xs @ drop n xs))" using assms(1) by simp
  then have "\<forall>a \<in> set (take n xs). \<forall>b \<in> set (drop n xs). f a \<ge> f b"
    unfolding map_append sorted_wrt_append by auto
  moreover have "x \<in> set (drop n xs)" using assms(2,3) by (metis append_take_drop_id set_append Un_iff)
  ultimately show ?thesis using assms(4) by blast
qed

text \<open>
  C34. A search shows a person only what they may read: every hit is an indexed row of a session they
  take part in, within their tenure, that matches every term of the query; the hits are the most
  recent first and bounded in number; and nothing that matches is missing unless the answer is full
  of hits at least as recent.
\<close>

theorem search_no_leak:
  "(\<forall>h \<in> set (searchEntries st p q limit). \<exists>row. found_in st p (searchTerms q) (sh_sessionId h) row \<and>
      sh_seq h = sr_seq row \<and> sh_text h = sr_text row \<and> sh_at h = sr_at row) \<and>
   sorted_wrt (\<ge>) (map sh_at (searchEntries st p q limit)) \<and>
   length (searchEntries st p q limit) \<le> nat (max 1 (min limit 200)) \<and>
   (\<forall>sid row. searchTerms q \<noteq> [] \<and> found_in st p (searchTerms q) sid row \<longrightarrow>
      (\<exists>h \<in> set (searchEntries st p q limit). sh_sessionId h = sid \<and> sh_seq h = sr_seq row) \<or>
      length (searchEntries st p q limit) = nat (max 1 (min limit 200)) \<and>
      (\<forall>h \<in> set (searchEntries st p q limit). sh_at h \<ge> sr_at row))"
proof (cases "searchTerms q = []")
  case True
  then have "searchEntries st p q limit = []" by (simp add: searchEntries_def)
  with True show ?thesis by simp
next
  case False
  let ?n = "nat (max 1 (min limit 200))"
  define hits where "hits = concat (map (session_hits st p (searchTerms q)) (or_else (jget (ss_participants st) p) []))"
  define out where "out = sort_desc sh_at (sort_desc sh_sessionId (sort_desc sh_seq hits))"
  have se: "searchEntries st p q limit = take ?n out"
    using False by (simp add: searchEntries_def hits_def out_def Let_def)
  have sorted: "sorted_wrt (\<ge>) (map sh_at out)" unfolding out_def by (rule sorted_sort_desc)
  have set_out: "set out = set hits" by (simp add: out_def)
  have mem: "\<exists>row. found_in st p (searchTerms q) (sh_sessionId h) row \<and>
      sh_seq h = sr_seq row \<and> sh_text h = sr_text row \<and> sh_at h = sr_at row" if "h \<in> set out" for h
    using that unfolding set_out hits_def found_in_def by (auto simp: session_hits_mem)
  have all: "\<exists>h \<in> set out. sh_sessionId h = sid \<and> sh_seq h = sr_seq row \<and> sh_at h = sr_at row"
    if "found_in st p (searchTerms q) sid row" for sid row
  proof -
    from that obtain w s where w: "sid \<in> set (or_else (jget (ss_participants st) p) [])"
      "jget (ss_sessions st) sid = Some s" "row \<in> set (search_index st sid)"
      "matchesSearchTerms (sr_text row) (searchTerms q)" "session_window st sid p = Some w"
      "within w (sr_seq row) (sr_at row)"
      unfolding found_in_def by blast
    let ?h = "\<lparr>sh_sessionId = sid, sh_scopeId = se_scopeId s,
             sh_title = (if pv_title w \<noteq> None then pv_title w else se_title s),
             sh_channelName = se_channelName s, sh_surface = se_surface s,
             sh_archived = pv_archived w, sh_seq = sr_seq row, sh_type = sr_type row,
             sh_author = sr_author row, sh_text = sr_text row, sh_at = sr_at row\<rparr>"
    have "?h \<in> set (session_hits st p (searchTerms q) sid)" unfolding session_hits_mem using w by blast
    then have "?h \<in> set out" unfolding set_out hits_def using w(1) by auto
    then show ?thesis by (rule bexI [rotated]) simp
  qed
  have "(\<exists>h \<in> set (take ?n out). sh_sessionId h = sid \<and> sh_seq h = sr_seq row) \<or>
      length (take ?n out) = ?n \<and> (\<forall>h \<in> set (take ?n out). sh_at h \<ge> sr_at row)"
    if f: "found_in st p (searchTerms q) sid row" for sid row
  proof -
    from all [OF f] obtain h where h: "h \<in> set out" "sh_sessionId h = sid" "sh_seq h = sr_seq row" "sh_at h = sr_at row"
      by blast
    show ?thesis
    proof (cases "h \<in> set (take ?n out)")
      case False
      then have "length out > ?n" using h(1) by (metis not_less take_all)
      with take_sorted_desc [OF sorted h(1) False] h(4) show ?thesis by auto
    qed (use h in blast)
  qed
  moreover have "sorted_wrt (\<ge>) (map sh_at (take ?n out))"
    using sorted by (simp add: take_map [symmetric] sorted_wrt_take)
  ultimately show ?thesis unfolding se using mem by (auto dest: in_set_takeD)
qed
definition search_store :: session_store where
  "search_store = addParticipant sample_sessions ''s'' ''ann'' None True 5"

theorem search_no_leak_witness:
  "\<exists>row. found_in search_store ''ann'' (searchTerms ''hel'') ''s'' row \<and> 0 = sr_seq row"
proof -
  let ?h = "hd (searchEntries search_store ''ann'' ''hel'' 10)"
  have "?h \<in> set (searchEntries search_store ''ann'' ''hel'' 10)"
    and h: "sh_sessionId ?h = ''s''" "sh_seq ?h = 0" by code_simp+
  from search_no_leak [of search_store "''ann''" "''hel''" 10, THEN conjunct1, rule_format, OF this(1)]
  show ?thesis unfolding h by blast
qed

subsection \<open>The bounded transcript\<close>

lemma findIndex_SomeD:
  "findIndex P xs = Some i \<Longrightarrow> i < length xs \<and> P (xs ! i) \<and> (\<forall>x \<in> set (take i xs). \<not> P x)"
  by (induction xs arbitrary: i) (auto split: if_splits)

lemma findIndex_NoneD: "findIndex P xs = None \<Longrightarrow> \<forall>x \<in> set xs. \<not> P x"
  by (induction xs) (auto split: if_splits)

definition entry_bytes :: "session_entry \<times> bool \<Rightarrow> nat" where
  "entry_bytes w = payloadBytes (en_payload (fst w)) 0"

lemma spend_from_budget:
  assumes "i \<le> length ws" "spend = sum_list (map entry_bytes (drop i ws))"
    and "spend \<le> TRANSCRIPT_BYTE_BUDGET \<or> length ws \<le> Suc i"
  shows "spend_from ws i spend \<le> i \<and>
    (sum_list (map entry_bytes (drop (spend_from ws i spend) ws)) \<le> TRANSCRIPT_BYTE_BUDGET \<or>
     length ws \<le> Suc (spend_from ws i spend))"
  using assms
proof (induction i arbitrary: spend)
  case (Suc i)
  let ?b = "entry_bytes (ws ! i)"
  have d: "sum_list (map entry_bytes (drop i ws)) = spend + ?b"
    using Suc.prems(1,2) by (simp add: Cons_nth_drop_Suc [symmetric])
  show ?case
  proof (cases "spend + ?b > TRANSCRIPT_BYTE_BUDGET \<and> Suc i < length ws")
    case True
    then have "spend_from ws (Suc i) spend = Suc i" by (simp add: entry_bytes_def)
    with Suc.prems show ?thesis by simp
  next
    case False
    then have "spend_from ws (Suc i) spend = spend_from ws i (spend + ?b)"
      by (auto simp: entry_bytes_def Let_def)
    with Suc.IH [of "spend + ?b"] Suc.prems(1) d False show ?thesis by force
  qed
qed simp

lemma spend_from_less: "ws \<noteq> [] \<Longrightarrow> spend_from ws (length ws) 0 < length ws"
proof -
  have le: "spend_from ws i s \<le> i" for i s by (induction i arbitrary: s) (auto simp: Let_def le_SucI)
  assume "ws \<noteq> []"
  then obtain n where n: "length ws = Suc n" by (cases ws) auto
  have "spend_from ws (Suc n) 0 = spend_from ws n (payloadBytes (en_payload (fst (ws ! n))) 0)"
    using n by simp
  with le n show ?thesis by (metis less_Suc_eq_le)
qed

lemma tail_cut_less: "es \<noteq> [] \<Longrightarrow> i \<le> length es \<Longrightarrow> tail_cut es i turns n < length es"
  by (induction i arbitrary: turns) auto

lemma project_type [simp]: "en_type (fst (projectEntry e)) = en_type e"
  by (simp add: projectEntry_def split_beta Let_def)

text \<open>
  The transcript shown for a window is a run of entries up to the requested end, projected one by
  one, and says how many came before it: from a given number on nothing at or past it is left out;
  otherwise it is never empty when there is something to show, holds no more than the byte budget
  unless it is a single entry, and when the budget cut it short begins with what a person said
  whenever it holds any such entry.
\<close>

theorem transcript_window:
  assumes "windowedTranscript all window = (ws, earlier)"
  shows "ws = map projectEntry (drop earlier (before_entries all window)) \<and>
    (\<forall>s. Option.bind window tb_sinceSeq = Some s \<longrightarrow> (\<forall>e \<in> set (take earlier (before_entries all window)). en_seq e < s)) \<and>
    (window \<noteq> None \<and> Option.bind window tb_sinceSeq = None \<longrightarrow>
      (before_entries all window \<noteq> [] \<longrightarrow> ws \<noteq> []) \<and>
      (length ws \<le> 1 \<or> sum_list (map entry_bytes ws) \<le> TRANSCRIPT_BYTE_BUDGET) \<and>
      (earlier > transcript_cut (before_entries all window) window \<and> (\<exists>w \<in> set ws. en_type (fst w) = EtUser) \<longrightarrow>
         en_type (fst (hd ws)) = EtUser))"
proof -
  let ?es = "before_entries all window"
  let ?cut = "transcript_cut ?es window"
  let ?ws = "map projectEntry (drop ?cut ?es)"
  show ?thesis
  proof (cases "window = None \<or> Option.bind window tb_sinceSeq \<noteq> None")
    case True
    then have r: "ws = ?ws" "earlier = ?cut" using assms by (auto simp: windowedTranscript_def Let_def)
    have "\<forall>e \<in> set (take ?cut ?es). en_seq e < s" if "Option.bind window tb_sinceSeq = Some s" for s
    proof -
      have cut: "?cut = or_else (findIndex (\<lambda>e. en_seq e \<ge> s) ?es) (length ?es)"
        using that by (cases window) (auto simp: transcript_cut_def)
      show ?thesis
      proof (cases "findIndex (\<lambda>e. en_seq e \<ge> s) ?es")
        case None
        with cut findIndex_NoneD [OF None] show ?thesis by (auto simp: not_le)
      next
        case (Some i)
        with cut findIndex_SomeD [OF Some] show ?thesis by (auto simp: not_le)
      qed
    qed
    with True r show ?thesis by auto
  next
    case False
    let ?from = "spend_from ?ws (length ?ws) 0"
    define bd where "bd = findIndex (\<lambda>(e, _). en_type e = EtUser) (drop ?from ?ws)"
    define start where "start = (if ?from > 0 then (case bd of Some k \<Rightarrow> ?from + k | None \<Rightarrow> ?from) else ?from)"
    have r: "ws = drop start ?ws" "earlier = ?cut + start"
      using assms False unfolding start_def bd_def
      by (auto simp: windowedTranscript_def Let_def split: option.splits)
    have budget: "sum_list (map entry_bytes (drop ?from ?ws)) \<le> TRANSCRIPT_BYTE_BUDGET \<or> length ?ws \<le> Suc ?from"
      using spend_from_budget [of "length ?ws" ?ws 0] by simp
    have ge: "?from \<le> start" by (auto simp: start_def split: option.split)
    have "sum_list (map entry_bytes (drop start ?ws)) \<le> sum_list (map entry_bytes (drop ?from ?ws))"
    proof -
      have "drop start ?ws = drop (start - ?from) (drop ?from ?ws)" using ge by simp
      then show ?thesis
        by (metis append_take_drop_id le_add2 map_append sum_list_append)
    qed
    then have b: "length ws \<le> 1 \<or> sum_list (map entry_bytes ws) \<le> TRANSCRIPT_BYTE_BUDGET"
      using budget ge r(1) by auto
    have lt: "start < length ?ws" if "?ws \<noteq> []"
    proof -
      have "?from < length ?ws" by (rule spend_from_less [OF that])
      then show ?thesis using findIndex_SomeD [of _ "drop ?from ?ws"]
        by (fastforce simp: start_def bd_def split: option.split)
    qed
    have cut_lt: "?cut < length ?es" if "?es \<noteq> []"
      using that False tail_cut_less [OF that, of "length ?es"]
      by (cases window) (auto simp: transcript_cut_def split: option.splits)
    have ne: "ws \<noteq> []" if "?es \<noteq> []"
      using lt cut_lt [OF that] r(1) by simp
    have user: "en_type (fst (hd ws)) = EtUser"
      if "earlier > ?cut" and u: "\<exists>w \<in> set ws. en_type (fst w) = EtUser"
    proof -
      have f: "?from > 0" using that(1) r(2) by (auto simp: start_def split: if_splits)
      show ?thesis
      proof (cases bd)
        case None
        with f have "start = ?from" by (simp add: start_def)
        with None u r(1) have False
          unfolding bd_def by (auto dest!: findIndex_NoneD)
        then show ?thesis ..
      next
        case (Some k)
        with f have s: "start = ?from + k" by (simp add: start_def)
        from findIndex_SomeD [OF Some [unfolded bd_def]]
        have k: "k < length (drop ?from ?ws)" "en_type (fst (drop ?from ?ws ! k)) = EtUser"
          by (auto simp: split_beta)
        then have "hd ws = drop ?from ?ws ! k" unfolding r(1) s by (simp add: hd_drop_conv_nth)
        with k(2) show ?thesis by simp
      qed
    qed
    have "ws = map projectEntry (drop earlier ?es)" unfolding r by (simp add: drop_map add.commute)
    with b ne user False show ?thesis by blast
  qed
qed
theorem transcript_window_witness:
  "fst (windowedTranscript (session_log sample_sessions ''s'')
      (Some \<lparr>tb_tailTurns = None, tb_sinceSeq = Some 1, tb_beforeSeq = None\<rparr>)) =
   map projectEntry (drop 1 (before_entries (session_log sample_sessions ''s'')
      (Some \<lparr>tb_tailTurns = None, tb_sinceSeq = Some 1, tb_beforeSeq = None\<rparr>)))"
proof -
  let ?w = "Some \<lparr>tb_tailTurns = None, tb_sinceSeq = Some 1, tb_beforeSeq = None\<rparr>"
  let ?r = "windowedTranscript (session_log sample_sessions ''s'') ?w"
  have e: "snd ?r = 1" by code_simp
  have "fst ?r = map projectEntry (drop (snd ?r) (before_entries (session_log sample_sessions ''s'') ?w))"
    by (rule transcript_window [OF prod.collapse [symmetric], THEN conjunct1])
  then show ?thesis unfolding e .
qed

subsection \<open>Pages of a listing\<close>

text \<open>Sorting by a second key and then, stably, by a first is sorting by the pair.\<close>

lemma sorted_wrt_lex:
  assumes "sorted_wrt (\<ge>) (map f zs)" and "\<And>c. sorted_wrt Q (filter (\<lambda>x. f x = c) zs)"
  shows "sorted_wrt (\<lambda>a b. f a > (f b :: 'b :: linorder) \<or> f a = f b \<and> Q a b) zs"
  using assms
proof (induction zs)
  case (Cons x zs)
  have "sorted_wrt Q (filter (\<lambda>y. f y = c) zs)" for c
    using Cons.prems(2) [of c] by (cases "f x = c") simp_all
  with Cons.IH Cons.prems(1) have "sorted_wrt (\<lambda>a b. f a > f b \<or> f a = f b \<and> Q a b) zs" by simp
  moreover have "f x > f y \<or> f x = f y \<and> Q x y" if "y \<in> set zs" for y
    using that Cons.prems(1) Cons.prems(2) [of "f x"] by (auto simp: order.order_iff_strict)
  ultimately show ?case by simp
qed simp

lemma filter_sort_desc: "filter (\<lambda>x. f x = c) (sort_desc f xs) = filter (\<lambda>x. f x = c) xs"
  using sort_key_stable [of f c "rev xs"] by (simp add: sort_desc_def rev_filter [symmetric])

lemma sort_desc_lex:
  assumes "distinct (map g xs)"
  shows "sorted_wrt (\<lambda>a b. f a > f b \<or> f a = f b \<and> g a > g b) (sort_desc f (sort_desc g xs))"
proof (rule sorted_wrt_lex [OF sorted_sort_desc])
  fix c
  have "distinct (map g (sort_desc g xs))" using assms by (simp add: sort_desc_def rev_map distinct_map)
  with sorted_sort_desc [of g xs] have "sorted_wrt (>) (map g (sort_desc g xs))"
    by (auto simp: sorted_wrt_iff_nth_less distinct_conv_nth order.strict_iff_order)
  then have "sorted_wrt (\<lambda>a b. g a > g b) (sort_desc g xs)" by (simp add: sorted_wrt_map)
  then show "sorted_wrt (\<lambda>a b. g a > g b) (filter (\<lambda>x. f x = c) (sort_desc f (sort_desc g xs)))"
    unfolding filter_sort_desc by (rule sorted_wrt_filter)
qed

lemma strict_suffix:
  assumes "sorted_wrt R xs" "k < length xs" and "\<And>a b. R a b \<Longrightarrow> \<not> R b a"
  shows "filter (R (xs ! k)) xs = drop (Suc k) xs"
proof -
  have xs: "xs = take k xs @ xs ! k # drop (Suc k) xs" by (rule id_take_nth_drop [OF assms(2)])
  then have "sorted_wrt R (take k xs @ xs ! k # drop (Suc k) xs)" using assms(1) by simp
  then have b: "\<forall>x \<in> set (take k xs). R x (xs ! k)" and a: "\<forall>x \<in> set (drop (Suc k) xs). R (xs ! k) x"
    by (auto simp: sorted_wrt_append)
  have "filter (R (xs ! k)) (take k xs) = []" using b assms(3) by (auto simp: filter_empty_conv)
  moreover have "filter (R (xs ! k)) (drop (Suc k) xs) = drop (Suc k) xs" using a by simp
  moreover have "\<not> R (xs ! k) (xs ! k)" using assms(3) by blast
  ultimately show ?thesis by (subst xs) simp
qed

text \<open>The map of sessions keeps one entry per key.\<close>

lemma session_step_jwf:
  assumes "jwf (ss_sessions st)"
  shows "jwf (ss_sessions (session_step hash st x))"
proof (cases x)
  case (SoAppend l e clk)
  show ?thesis
  proof (cases "append_entry st l e clk")
    case (Inl err)
    then show ?thesis using assms SoAppend by (cases err) (simp_all add: append_state_def)
  next
    case (Inr r)
    then show ?thesis using assms SoAppend
      by (auto simp: append_state_def append_entry_def Let_def push_tape_def split: if_splits option.splits)
  qed
next
  case (SoClearTaint i clk)
  have "ss_sessions (clear_taint_loop s i js clk) = ss_sessions s" for s js
    by (induction js arbitrary: s) (simp_all add: Let_def push_tape_def split: option.split)
  then show ?thesis using assms SoClearTaint by (simp add: clearSecurityTaint_def split: option.split)
qed (use assms in \<open>auto simp: updateTitle_def updateForkProvenance_def setParentSession_def setSpawnMeta_def
    upd_session_def acquireLease_def renewLease_def releaseSessionLease_def forceReleaseLease_def addPin_def
    removePin_def recordLlmRequest_def Let_def getOrCreateByThread_def appendSearch_state_def
    appendSearchEntries_def addParticipant_def removeParticipant_def updateParticipantView_def
    deleteSessionIfEmpty_def deleteSession_def appendTape_state_def appendTape_def push_tape_def
    split: option.split\<close>)

interpretation keyed: op_invariant "session_step hash" session_ok "\<lambda>st. session_inv st \<and> jwf (ss_sessions st)"
  for hash
  by unfold_locales (simp add: session_step_inv session_step_jwf)

lemma scan_distinct:
  assumes "session_inv st" "jwf (ss_sessions st)"
  shows "distinct (map se_id (scanAll st))"
proof -
  have "map se_id (scanAll st) = jkeys (ss_sessions st)"
    using session_invD(1) [OF assms(1)] jwf_in_iff [OF assms(2)] by (fastforce simp: scanAll_def)
  with assms(2) show ?thesis by (simp only: jwf_def)
qed

text \<open>The whole listing behind the pages: no cursor, and room for every session.\<close>

definition whole_listing :: "session_store \<Rightarrow> scope_id \<Rightarrow> bool \<Rightarrow> session_page \<Rightarrow> ident list option \<Rightarrow> session_summary list" where
  "whole_listing st scope orgWide pg ids = scopeSessionSummaries st scope orgWide
     (Some (pg\<lparr>pg_before := None, pg_offset := 0, pg_limit := int (length (scanAll st))\<rparr>)) ids"

definition newer_than :: "session_summary \<Rightarrow> session_summary \<Rightarrow> bool" where
  "newer_than a b \<longleftrightarrow> sm_lastActivity a > sm_lastActivity b \<or>
     sm_lastActivity a = sm_lastActivity b \<and> sm_id a > sm_id b"

lemma listing_pages:
  assumes "distinct (map se_id (scanAll st))"
  shows "sorted_wrt newer_than (whole_listing st scope orgWide pg ids)"
    and "pg_before pg = Some (sm_lastActivity r, sm_id r) \<Longrightarrow>
      scopeSessionSummaries st scope orgWide (Some pg) ids =
        take (nat (pg_limit pg)) (filter (newer_than r) (whole_listing st scope orgWide pg ids))"
proof -
  define kept where "kept = filter (\<lambda>s. (orgWide \<or> se_scopeId s = scope) \<and>
      (case ids of None \<Rightarrow> True | Some ids \<Rightarrow> se_id s \<in> set ids) \<and> page_passes pg s) (scanAll st)"
  define out where "out = sort_desc sm_lastActivity (sort_desc sm_id (map (summary_of st) kept))"
  have page: "page_passes (pg\<lparr>pg_before := a, pg_offset := b, pg_limit := c\<rparr>) s = page_passes pg s" for a b c s
    by (simp add: page_passes_def)
  have "length out \<le> length (scanAll st)" by (simp add: out_def kept_def)
  then have whole: "whole_listing st scope orgWide pg ids = out"
    unfolding whole_listing_def scopeSessionSummaries_def Let_def option.case page
    by (simp add: kept_def [symmetric] out_def)
  have "distinct (map sm_id (map (summary_of st) kept))"
    using assms by (simp add: kept_def summary_of_def comp_def distinct_map_filter)
  from sort_desc_lex [OF this] show "sorted_wrt newer_than (whole_listing st scope orgWide pg ids)"
    unfolding whole out_def newer_than_def .
  have nt: "(\<lambda>a. sm_lastActivity a < sm_lastActivity r \<or> sm_lastActivity a = sm_lastActivity r \<and> sm_id a < sm_id r)
      = newer_than r"
    by (auto simp: newer_than_def)
  show "scopeSessionSummaries st scope orgWide (Some pg) ids =
      take (nat (pg_limit pg)) (filter (newer_than r) (whole_listing st scope orgWide pg ids))"
    if "pg_before pg = Some (sm_lastActivity r, sm_id r)"
    unfolding whole scopeSessionSummaries_def Let_def option.case that prod.case
    by (simp add: kept_def [symmetric] out_def nt)
qed

text \<open>
  Paging through the sessions of a scope by cursor shows every session once, in the order of the
  whole listing: the page whose cursor is the row at position \<open>k\<close> of the listing holds the rows
  that follow it.
\<close>

theorem cursor_pages:
  assumes "ok_run (session_step hash) session_ok (createMemorySessionStore ttl) ops"
    and "st = foldl (session_step hash) (createMemorySessionStore ttl) ops"
    and "k < length (whole_listing st scope orgWide pg ids)"
    and "r = whole_listing st scope orgWide pg ids ! k"
    and "pg_before pg = Some (sm_lastActivity r, sm_id r)"
  shows "scopeSessionSummaries st scope orgWide (Some pg) ids =
    take (nat (pg_limit pg)) (drop (Suc k) (whole_listing st scope orgWide pg ids))"
proof -
  have "session_inv (createMemorySessionStore ttl) \<and> jwf (ss_sessions (createMemorySessionStore ttl))"
    using empty_session_inv by (simp add: createMemorySessionStore_def)
  from keyed.run_keeps [OF this assms(1)] have d: "distinct (map se_id (scanAll st))"
    unfolding assms(2) using scan_distinct by blast
  have "filter (newer_than r) (whole_listing st scope orgWide pg ids) = drop (Suc k) (whole_listing st scope orgWide pg ids)"
    unfolding assms(4)
    by (rule strict_suffix [OF listing_pages(1) [OF d] assms(3)]) (auto simp: newer_than_def)
  then show ?thesis using listing_pages(2) [OF d assms(5)] by simp
qed

definition paging_ops :: "session_op list" where
  "paging_ops = [SoGetOrCreate ''a'' ''web:a'' Dm ''org:o'' None None 1,
     SoGetOrCreate ''b'' ''web:b'' Dm ''org:o'' None None 2, SoGetOrCreate ''c'' ''web:c'' Dm ''org:o'' None None 2]"

definition sample_page :: session_page where
  "sample_page = \<lparr>pg_limit = 1, pg_offset = 0, pg_before = Some (2, ''c''), pg_category = None,
     pg_origin = None, pg_otherBackground = False, pg_cronId = None\<rparr>"

definition paged_store :: session_store where
  "paged_store = foldl (session_step (\<lambda>_. [])) (createMemorySessionStore None) paging_ops"

theorem cursor_pages_witness:
  "map sm_id (scopeSessionSummaries paged_store ''org:o'' False (Some sample_page) None) = [''b'']"
proof -
  let ?w = "whole_listing paged_store ''org:o'' False sample_page None"
  have "scopeSessionSummaries paged_store ''org:o'' False (Some sample_page) None =
      take (nat (pg_limit sample_page)) (drop (Suc 0) ?w)"
  proof (rule cursor_pages [OF _ paged_store_def _ refl])
    show "ok_run (session_step (\<lambda>_. [])) session_ok (createMemorySessionStore None) paging_ops" by code_simp
    show "0 < length ?w" by code_simp
    show "pg_before sample_page = Some (sm_lastActivity (?w ! 0), sm_id (?w ! 0))" by code_simp
  qed
  moreover have "map sm_id (take (nat (pg_limit sample_page)) (drop (Suc 0) ?w)) = [''b'']" by code_simp
  ultimately show ?thesis by simp
qed

end
