(* ===== verification/Delivery.thy ===== *)
theory Delivery
  imports LoopGovernance Sessions
begin

section \<open>The outbox of deliveries\<close>

text \<open>
  The in-memory delivery store (\<open>src/src/delivery/delivery-store.ts\<close>): messages to be sent are
  enqueued under an idempotency key, claimed by a sender for a time, acknowledged once, and
  dropped when nobody sent them for too long. An absent list of attachments is the empty list, a
  destination is the record of \<open>LoopGovernance\<close>, listeners are numbers and a call of a listener is
  an entry of a log. Dropping a delivery only logs besides marking it; the log line is left out.
\<close>

definition DELIVERY_MAX_AGE_MS :: time where
  "DELIVERY_MAX_AGE_MS = 6 * 3600000"

record delivery_provenance =
  dp_sourceTitle :: "string option"
  dp_trigger :: string
  dp_surface :: string
  dp_fireKey :: string
  dp_sourceScopeId :: scope_id
  dp_sourceThreadRef :: string
  dp_sourceSessionId :: "ident option"
  dp_sourceUserSeq :: "int option"
  dp_sourceAssistantEntrySeq :: "int option"

record delivery =
  dl_id :: ident
  dl_destination :: destination
  dl_text :: string
  dl_attachments :: "json list"
  dl_provenance :: "delivery_provenance option"
  dl_idempotencyKey :: string
  dl_createdAt :: time
  dl_deliveredAt :: "time option"
  dl_expiredAt :: "time option"
  dl_shadow :: bool
  dl_recipientThreadRef :: "string option"
  dl_deliverLatencyMs :: "time option"
  dl_slackApiMs :: "int option"

record delivery_store =
  dv_maxAgeMs :: time
  dv_deliveries :: "(ident, delivery) jmap"
  dv_byKey :: "(string, ident) jmap"
  dv_claimedUntil :: "(ident, time) jmap"
  dv_listeners :: "nat list"
  dv_called :: "nat list"

record delivery_input =
  di_destination :: destination
  di_text :: string
  di_attachments :: "json list"
  di_provenance :: "delivery_provenance option"
  di_idempotencyKey :: string
  di_shadow :: bool

definition createDeliveryStore :: "time option \<Rightarrow> delivery_store" where
  "createDeliveryStore maxAgeMs =
     \<lparr>dv_maxAgeMs = or_else maxAgeMs DELIVERY_MAX_AGE_MS, dv_deliveries = [], dv_byKey = [],
      dv_claimedUntil = [], dv_listeners = [], dv_called = []\<rparr>"

definition turnDeliveryProvenance ::
  "bool \<Rightarrow> string option \<Rightarrow> string \<Rightarrow> scope_id \<Rightarrow> string \<Rightarrow> ident option \<Rightarrow> int option \<Rightarrow> int option
     \<Rightarrow> delivery_provenance" where
  "turnDeliveryProvenance automation surface fireKey scope threadRef sid userSeq assistantSeq =
     \<lparr>dp_sourceTitle = None,
      dp_trigger = (if automation then or_else surface ''wake'' else ''conversation''),
      dp_surface = or_else surface ''unknown'', dp_fireKey = fireKey, dp_sourceScopeId = scope,
      dp_sourceThreadRef = threadRef, dp_sourceSessionId = sid, dp_sourceUserSeq = userSeq,
      dp_sourceAssistantEntrySeq = assistantSeq\<rparr>"

subsection \<open>Enqueueing\<close>

definition put_delivery :: "delivery_store \<Rightarrow> delivery \<Rightarrow> delivery_store" where
  "put_delivery st d = st\<lparr>dv_deliveries := jset (dv_deliveries st) (dl_id d) d\<rparr>"

definition call_listeners :: "delivery_store \<Rightarrow> delivery \<Rightarrow> delivery_store" where
  "call_listeners st d = (if dl_shadow d then st else st\<lparr>dv_called := dv_called st @ dv_listeners st\<rparr>)"

text \<open>The delivery of an expired, never delivered entry under the same key starts over.\<close>

definition revived :: "delivery_input \<Rightarrow> time \<Rightarrow> delivery \<Rightarrow> delivery" where
  "revived inp now d = d\<lparr>dl_destination := di_destination inp, dl_text := di_text inp,
     dl_attachments := di_attachments inp, dl_provenance := di_provenance inp, dl_createdAt := now,
     dl_expiredAt := None, dl_shadow := di_shadow inp\<rparr>"

definition new_delivery :: "ident \<Rightarrow> delivery_input \<Rightarrow> time \<Rightarrow> delivery" where
  "new_delivery uuid inp now =
     \<lparr>dl_id = uuid, dl_destination = di_destination inp, dl_text = di_text inp,
      dl_attachments = di_attachments inp, dl_provenance = di_provenance inp,
      dl_idempotencyKey = di_idempotencyKey inp, dl_createdAt = now, dl_deliveredAt = None,
      dl_expiredAt = None, dl_shadow = di_shadow inp, dl_recipientThreadRef = None,
      dl_deliverLatencyMs = None, dl_slackApiMs = None\<rparr>"

definition delivery_id_of :: "delivery_store \<Rightarrow> string \<Rightarrow> ident option" where
  "delivery_id_of st key = (case jget (dv_byKey st) key of
     None \<Rightarrow> None | Some i \<Rightarrow> if i = [] then None else Some i)"

text \<open>The result is \<open>None\<close> where the code would read a field of \<open>undefined\<close> and throw.\<close>

definition enqueue_delivery ::
  "delivery_store \<Rightarrow> ident \<Rightarrow> delivery_input \<Rightarrow> time \<Rightarrow> delivery_store \<times> delivery option" where
  "enqueue_delivery st uuid inp now =
     (case delivery_id_of st (di_idempotencyKey inp) of
        Some i \<Rightarrow> (case jget (dv_deliveries st) i of
            None \<Rightarrow> (st, None)
          | Some d \<Rightarrow>
              if dl_deliveredAt d = None \<and> dl_expiredAt d \<noteq> None
              then
                let d' = revived inp now d;
                    st1 = put_delivery (st\<lparr>dv_claimedUntil := jdel (dv_claimedUntil st) (dl_id d)\<rparr>) d'
                in (call_listeners st1 d', Some d')
              else (st, Some d))
      | None \<Rightarrow>
          let d = new_delivery uuid inp now;
              st1 = put_delivery st d;
              st2 = st1\<lparr>dv_byKey := jset (dv_byKey st1) (dl_idempotencyKey d) (dl_id d)\<rparr>
          in (call_listeners st2 d, Some d))"

subsection \<open>Claiming\<close>

definition claimed_until :: "delivery_store \<Rightarrow> ident \<Rightarrow> time" where
  "claimed_until st i = or_else (jget (dv_claimedUntil st) i) 0"

definition overaged :: "delivery_store \<Rightarrow> time \<Rightarrow> delivery \<Rightarrow> bool" where
  "overaged st now d \<longleftrightarrow>
     \<not> (dl_deliveredAt d \<noteq> None \<or> dl_shadow d \<or> dl_expiredAt d \<noteq> None) \<and>
     \<not> claimed_until st (dl_id d) > now \<and> \<not> now - dl_createdAt d < dv_maxAgeMs st"

definition expireOveraged :: "delivery_store \<Rightarrow> time \<Rightarrow> delivery_store" where
  "expireOveraged st now = st\<lparr>dv_deliveries :=
     map (\<lambda>(i, d). (i, if overaged st now d then d\<lparr>dl_expiredAt := Some now\<rparr> else d)) (dv_deliveries st)\<rparr>"

definition waiting :: "string \<Rightarrow> string option \<Rightarrow> delivery \<Rightarrow> bool" where
  "waiting type targetPrefix d \<longleftrightarrow>
     dl_deliveredAt d = None \<and> dl_expiredAt d = None \<and> \<not> dl_shadow d \<and>
     de_type (dl_destination d) = type \<and>
     (case targetPrefix of None \<Rightarrow> True | Some p \<Rightarrow> prefix p (de_target (dl_destination d)))"

definition pending_deliveries :: "delivery_store \<Rightarrow> string \<Rightarrow> string option \<Rightarrow> delivery list" where
  "pending_deliveries st type targetPrefix = filter (waiting type targetPrefix) (jvals (dv_deliveries st))"

definition claimPending ::
  "delivery_store \<Rightarrow> string \<Rightarrow> time \<Rightarrow> string option \<Rightarrow> time \<Rightarrow> delivery_store \<times> delivery list" where
  "claimPending st type ttlMs targetPrefix now =
     (let st1 = expireOveraged st now;
          rows = filter (\<lambda>d. waiting type targetPrefix d \<and> claimed_until st1 (dl_id d) \<le> now)
                   (jvals (dv_deliveries st1))
      in (st1\<lparr>dv_claimedUntil :=
            foldl (\<lambda>m d. jset m (dl_id d) (now + ttlMs)) (dv_claimedUntil st1) rows\<rparr>, rows))"

definition releaseClaim :: "delivery_store \<Rightarrow> ident \<Rightarrow> delivery_store" where
  "releaseClaim st i = st\<lparr>dv_claimedUntil := jdel (dv_claimedUntil st) i\<rparr>"

subsection \<open>Acknowledging\<close>

definition upd_delivery :: "delivery_store \<Rightarrow> ident \<Rightarrow> (delivery \<Rightarrow> delivery) \<Rightarrow> delivery_store" where
  "upd_delivery st i f = (case jget (dv_deliveries st) i of
     None \<Rightarrow> st | Some d \<Rightarrow> st\<lparr>dv_deliveries := jset (dv_deliveries st) i (f d)\<rparr>)"

definition delivered_at :: "time \<Rightarrow> delivery \<Rightarrow> delivery" where
  "delivered_at t d =
     (if dl_deliveredAt d = None then d\<lparr>dl_deliveredAt := Some t, dl_expiredAt := None\<rparr> else d)"

definition ack :: "delivery_store \<Rightarrow> ident \<Rightarrow> time \<Rightarrow> int option \<Rightarrow> delivery_store" where
  "ack st i t slackApiMs = upd_delivery st i (\<lambda>d.
     if dl_deliveredAt d = None
     then (delivered_at t d)\<lparr>dl_deliverLatencyMs := Some (max 0 (t - dl_createdAt d)),
        dl_slackApiMs := (if slackApiMs \<noteq> None then slackApiMs else dl_slackApiMs d)\<rparr>
     else d)"

definition tombstone :: "ident \<Rightarrow> string \<Rightarrow> time \<Rightarrow> delivery" where
  "tombstone uuid key t =
     \<lparr>dl_id = uuid, dl_destination = \<lparr>de_type = ''ack-tombstone'', de_target = [], de_rest = JObj []\<rparr>,
      dl_text = [], dl_attachments = [], dl_provenance = None, dl_idempotencyKey = key,
      dl_createdAt = t, dl_deliveredAt = Some t, dl_expiredAt = None, dl_shadow = False,
      dl_recipientThreadRef = None, dl_deliverLatencyMs = None, dl_slackApiMs = None\<rparr>"

definition ackByKey :: "delivery_store \<Rightarrow> ident \<Rightarrow> string \<Rightarrow> time \<Rightarrow> delivery_store" where
  "ackByKey st uuid key t = (case delivery_id_of st key of
     Some i \<Rightarrow> upd_delivery st i (delivered_at t)
   | None \<Rightarrow>
       let st1 = put_delivery st (tombstone uuid key t)
       in st1\<lparr>dv_byKey := jset (dv_byKey st1) key uuid\<rparr>)"

definition with_editRef :: "string \<Rightarrow> destination \<Rightarrow> destination" where
  "with_editRef editRef d = d\<lparr>de_rest := (case de_rest d of
     JObj fs \<Rightarrow> JObj (jset fs ''editRef'' (JStr editRef)) | v \<Rightarrow> JObj [(''editRef'', JStr editRef)])\<rparr>"

definition setEditRefByKey :: "delivery_store \<Rightarrow> string \<Rightarrow> string \<Rightarrow> delivery_store" where
  "setEditRefByKey st key editRef = (case delivery_id_of st key of
     None \<Rightarrow> st
   | Some i \<Rightarrow> upd_delivery st i (\<lambda>d.
       if dl_deliveredAt d = None then d\<lparr>dl_destination := with_editRef editRef (dl_destination d)\<rparr> else d))"

definition get_delivery :: "delivery_store \<Rightarrow> ident \<Rightarrow> delivery option" where
  "get_delivery st i = jget (dv_deliveries st) i"

definition recordRecipientThread :: "delivery_store \<Rightarrow> ident \<Rightarrow> string \<Rightarrow> time \<Rightarrow> delivery_store" where
  "recordRecipientThread st i ref t = upd_delivery st i (\<lambda>d.
     if de_type (dl_destination d) \<noteq> ''principal'' then d
     else delivered_at t (d\<lparr>dl_recipientThreadRef := Some ref\<rparr>))"

subsection \<open>Listings\<close>

definition listShadow :: "delivery_store \<Rightarrow> int option \<Rightarrow> delivery list" where
  "listShadow st limit =
     slice0 (max 1 (or_else limit 100))
       (sort_key (\<lambda>d. - dl_createdAt d)
          (filter (\<lambda>d. dl_shadow d \<and> dl_deliveredAt d = None) (jvals (dv_deliveries st))))"

definition newest_last :: "delivery_store \<Rightarrow> int option \<Rightarrow> (delivery \<Rightarrow> bool) \<Rightarrow> delivery list" where
  "newest_last st limit keep =
     last_n (nat (max 1 (or_else limit 20)))
       (sort_key dl_createdAt (filter keep (jvals (dv_deliveries st))))"

definition listByRecipientThread :: "delivery_store \<Rightarrow> string \<Rightarrow> int option \<Rightarrow> delivery list" where
  "listByRecipientThread st ref limit = newest_last st limit
     (\<lambda>d. dl_recipientThreadRef d = Some ref \<and> de_type (dl_destination d) = ''principal'')"

definition from_source :: "ident \<Rightarrow> string \<Rightarrow> delivery \<Rightarrow> bool" where
  "from_source sid threadRef d = (case dl_provenance d of
     None \<Rightarrow> False
   | Some p \<Rightarrow> dp_sourceSessionId p = Some sid \<or> dp_sourceThreadRef p = threadRef)"

definition listBySourceSession :: "delivery_store \<Rightarrow> ident \<Rightarrow> string \<Rightarrow> int option \<Rightarrow> delivery list" where
  "listBySourceSession st sid threadRef limit = newest_last st limit (from_source sid threadRef)"

text \<open>Sessions and threads are given as pairs; a thread listed twice means its last session.\<close>

definition source_session :: "(ident \<times> string) list \<Rightarrow> delivery \<Rightarrow> ident option" where
  "source_session sources d =
     (if dl_shadow d \<or> dl_expiredAt d \<noteq> None then None
      else case dl_provenance d of
        None \<Rightarrow> None
      | Some p \<Rightarrow>
          if truthy (dp_sourceSessionId p)
          then (if the (dp_sourceSessionId p) \<in> fst ` set sources then dp_sourceSessionId p else None)
          else if dp_sourceThreadRef p \<noteq> []
          then jget (foldl (\<lambda>m (sid, ref). jset m ref sid) [] sources) (dp_sourceThreadRef p)
          else None)"

definition count_up :: "(string, nat) jmap \<Rightarrow> string \<Rightarrow> (string, nat) jmap" where
  "count_up m k = jset m k (or_else (jget m k) 0 + 1)"

definition sentCountsBySourceSessions :: "delivery_store \<Rightarrow> (ident \<times> string) list \<Rightarrow> (ident, nat) jmap" where
  "sentCountsBySourceSessions st sources =
     foldl (\<lambda>m d. case source_session sources d of
         None \<Rightarrow> m | Some i \<Rightarrow> if i = [] then m else count_up m i) []
       (jvals (dv_deliveries st))"

definition source_cron :: "string list \<Rightarrow> delivery \<Rightarrow> (string \<times> string) option" where
  "source_cron cronIds d =
     (if dl_shadow d \<or> dl_expiredAt d \<noteq> None then None
      else case dl_provenance d of
        None \<Rightarrow> None
      | Some p \<Rightarrow>
          if dp_sourceThreadRef p = [] then None
          else case cronIdOf (Some (dp_sourceThreadRef p)) of
            None \<Rightarrow> None
          | Some c \<Rightarrow> if c = [] \<or> c \<notin> set cronIds then None
                      else Some (c, or_else (dp_sourceSessionId p) (dp_sourceThreadRef p)))"

definition sentRunCountsByCron :: "delivery_store \<Rightarrow> string list \<Rightarrow> (string, nat) jmap" where
  "sentRunCountsByCron st cronIds =
     map (\<lambda>(c, runs). (c, length runs))
       (foldl (\<lambda>m d. case source_cron cronIds d of
           None \<Rightarrow> m | Some (c, r) \<Rightarrow> jset m c (sadd (or_else (jget m c) []) r)) []
         (jvals (dv_deliveries st)))"

datatype delivery_status = StPending | StDelivered | StFailed

text \<open>The deliveries of one fire of a cron: by its session or thread, and by its key.\<close>

definition deliveryStatusForRun ::
  "delivery_store option \<Rightarrow> ident option \<Rightarrow> string \<Rightarrow> string \<Rightarrow> delivery_status option" where
  "deliveryStatusForRun store sessionId threadRef fireKey =
     (case store of
        None \<Rightarrow> None
      | Some st \<Rightarrow>
          let rows = listBySourceSession st (or_else sessionId []) threadRef (Some 100);
              related = filter (\<lambda>d. \<not> dl_shadow d \<and>
                map_option dp_fireKey (dl_provenance d) = Some fireKey) rows
          in if list_ex (\<lambda>d. dl_expiredAt d \<noteq> None) related then Some StFailed
             else if list_ex (\<lambda>d. dl_deliveredAt d = None) related then Some StPending
             else if related \<noteq> [] then Some StDelivered else None)"

definition onEnqueue :: "delivery_store \<Rightarrow> nat \<Rightarrow> delivery_store" where
  "onEnqueue st l = st\<lparr>dv_listeners := sadd (dv_listeners st) l\<rparr>"

definition offEnqueue :: "delivery_store \<Rightarrow> nat \<Rightarrow> delivery_store" where
  "offEnqueue st l = st\<lparr>dv_listeners := filter (\<lambda>x. x \<noteq> l) (dv_listeners st)\<rparr>"

end
