(* ===== verification/DeliveryProps.thy ===== *)
theory DeliveryProps
  imports Delivery
begin

section \<open>What the outbox guarantees\<close>

text \<open>
  One delivery per idempotency key, a delivery once made is final, and a claim is exclusive until it
  lapses while nothing unclaimed is lost.
\<close>

datatype delivery_op =
    DoEnqueue ident delivery_input time
  | DoClaim string time "string option" time
  | DoRelease ident
  | DoAck ident time "int option"
  | DoAckByKey ident string time
  | DoEditRef string string
  | DoThread ident string time
  | DoOn nat
  | DoOff nat

fun delivery_step :: "delivery_store \<Rightarrow> delivery_op \<Rightarrow> delivery_store" where
  "delivery_step st (DoEnqueue u inp now) = fst (enqueue_delivery st u inp now)"
| "delivery_step st (DoClaim ty ttl pre now) = fst (claimPending st ty ttl pre now)"
| "delivery_step st (DoRelease i) = releaseClaim st i"
| "delivery_step st (DoAck i t ms) = ack st i t ms"
| "delivery_step st (DoAckByKey u k t) = ackByKey st u k t"
| "delivery_step st (DoEditRef k r) = setEditRefByKey st k r"
| "delivery_step st (DoThread i r t) = recordRecipientThread st i r t"
| "delivery_step st (DoOn l) = onEnqueue st l"
| "delivery_step st (DoOff l) = offEnqueue st l"

text \<open>\<open>randomUUID()\<close> is a non-empty identifier no delivery has.\<close>

fun delivery_ok :: "delivery_store \<Rightarrow> delivery_op \<Rightarrow> bool" where
  "delivery_ok st (DoEnqueue u inp now) = (u \<noteq> [] \<and> jget (dv_deliveries st) u = None)"
| "delivery_ok st (DoAckByKey u k t) = (u \<noteq> [] \<and> jget (dv_deliveries st) u = None)"
| "delivery_ok st _ = True"

definition delivery_wf :: "ident \<Rightarrow> delivery_store \<Rightarrow> delivery \<Rightarrow> bool" where
  "delivery_wf i st d \<longleftrightarrow> dl_id d = i \<and> i \<noteq> [] \<and> jget (dv_byKey st) (dl_idempotencyKey d) = Some i \<and>
     (dl_deliveredAt d \<noteq> None \<longrightarrow> dl_expiredAt d = None)"

definition delivery_inv :: "delivery_store \<Rightarrow> bool" where
  "delivery_inv st \<longleftrightarrow> jwf (dv_deliveries st) \<and>
     (\<forall>i d. jget (dv_deliveries st) i = Some d \<longrightarrow> delivery_wf i st d) \<and>
     (\<forall>k i. jget (dv_byKey st) k = Some i \<longrightarrow>
        (\<exists>d. jget (dv_deliveries st) i = Some d \<and> dl_idempotencyKey d = k))"

lemma delivery_invD:
  assumes "delivery_inv st"
  shows "jwf (dv_deliveries st)"
    and "jget (dv_deliveries st) i = Some d \<Longrightarrow> delivery_wf i st d"
    and "jget (dv_byKey st) k = Some i \<Longrightarrow> \<exists>d. jget (dv_deliveries st) i = Some d \<and> dl_idempotencyKey d = k"
  using assms unfolding delivery_inv_def by blast+

lemma delivery_id_of_Some:
  assumes "delivery_inv st"
  shows "delivery_id_of st k = jget (dv_byKey st) k"
  using delivery_invD(3) [OF assms, of k] delivery_invD(2) [OF assms]
  by (fastforce simp: delivery_id_of_def delivery_wf_def split: option.split)

lemma delivery_invI:
  assumes "jwf (dv_deliveries st)"
    and "\<And>i d. jget (dv_deliveries st) i = Some d \<Longrightarrow> delivery_wf i st d"
    and "\<And>k i. jget (dv_byKey st) k = Some i \<Longrightarrow> \<exists>d. jget (dv_deliveries st) i = Some d \<and> dl_idempotencyKey d = k"
  shows "delivery_inv st"
  using assms unfolding delivery_inv_def by blast

text \<open>A change of one delivery that keeps its identity, and of nothing else, keeps the shape.\<close>

lemma delivery_inv_update:
  assumes "delivery_inv st" "jget (dv_deliveries st) i = Some d"
    and "dl_id d' = dl_id d" "dl_idempotencyKey d' = dl_idempotencyKey d"
    and "dl_deliveredAt d' \<noteq> None \<longrightarrow> dl_expiredAt d' = None"
    and st': "dv_deliveries st' = jset (dv_deliveries st) i d'" "dv_byKey st' = dv_byKey st"
  shows "delivery_inv st'"
proof (rule delivery_invI)
  show "jwf (dv_deliveries st')" using delivery_invD(1) [OF assms(1)] by (simp add: st')
  show "delivery_wf j st' e" if "jget (dv_deliveries st') j = Some e" for j e
    using that assms(3-5) delivery_invD(2) [OF assms(1,2)] delivery_invD(2) [OF assms(1), of j e]
    by (cases "j = i") (auto simp: st' delivery_wf_def)
  show "\<exists>e. jget (dv_deliveries st') j = Some e \<and> dl_idempotencyKey e = k" if "jget (dv_byKey st') k = Some j" for k j
    using that assms(2,4) delivery_invD(3) [OF assms(1), of k j] by (cases "j = i") (auto simp: st')
qed

lemma delivery_inv_insert:
  assumes "delivery_inv st" "jget (dv_deliveries st) i = None" "i \<noteq> []" "jget (dv_byKey st) k = None"
    and "dl_id d = i" "dl_idempotencyKey d = k" "dl_deliveredAt d \<noteq> None \<longrightarrow> dl_expiredAt d = None"
    and st': "dv_deliveries st' = jset (dv_deliveries st) i d" "dv_byKey st' = jset (dv_byKey st) k i"
  shows "delivery_inv st'"
proof (rule delivery_invI)
  show "jwf (dv_deliveries st')" using delivery_invD(1) [OF assms(1)] by (simp add: st')
  show "delivery_wf j st' e" if "jget (dv_deliveries st') j = Some e" for j e
  proof (cases "j = i")
    case True
    with that assms(3,5-7) show ?thesis by (auto simp: st' delivery_wf_def)
  next
    case False
    with that have "jget (dv_deliveries st) j = Some e" by (simp add: st')
    from delivery_invD(2) [OF assms(1) this] assms(4) show ?thesis by (auto simp: st' delivery_wf_def)
  qed
  show "\<exists>e. jget (dv_deliveries st') j = Some e \<and> dl_idempotencyKey e = q" if "jget (dv_byKey st') q = Some j" for q j
  proof (cases "q = k")
    case True
    with that assms(6) show ?thesis by (simp add: st')
  next
    case False
    with that have "jget (dv_byKey st) q = Some j" by (simp add: st')
    from delivery_invD(3) [OF assms(1) this] assms(2) show ?thesis by (auto simp: st')
  qed
qed

lemma delivery_inv_same:
  "delivery_inv st \<Longrightarrow> dv_deliveries st' = dv_deliveries st \<Longrightarrow> dv_byKey st' = dv_byKey st \<Longrightarrow> delivery_inv st'"
  by (simp add: delivery_inv_def delivery_wf_def)

lemma call_listeners_fields [simp]:
  "dv_deliveries (call_listeners st d) = dv_deliveries st" "dv_byKey (call_listeners st d) = dv_byKey st"
  "dv_claimedUntil (call_listeners st d) = dv_claimedUntil st" "dv_maxAgeMs (call_listeners st d) = dv_maxAgeMs st"
  by (simp_all add: call_listeners_def)

lemma expire_get:
  "jget (dv_deliveries (expireOveraged st now)) i =
     map_option (\<lambda>d. if overaged st now d then d\<lparr>dl_expiredAt := Some now\<rparr> else d) (jget (dv_deliveries st) i)"
  by (simp add: expireOveraged_def map_of_map)

lemma expire_fields [simp]:
  "dv_byKey (expireOveraged st now) = dv_byKey st" "dv_claimedUntil (expireOveraged st now) = dv_claimedUntil st"
  "dv_maxAgeMs (expireOveraged st now) = dv_maxAgeMs st"
  by (simp_all add: expireOveraged_def)

lemma expire_inv: "delivery_inv st \<Longrightarrow> delivery_inv (expireOveraged st now)"
proof -
  assume inv: "delivery_inv st"
  have "jkeys (dv_deliveries (expireOveraged st now)) = jkeys (dv_deliveries st)"
    by (simp add: expireOveraged_def split_beta comp_def)
  then have "jwf (dv_deliveries (expireOveraged st now))"
    using delivery_invD(1) [OF inv] by (simp only: jwf_def)
  moreover have "delivery_wf i (expireOveraged st now) d"
    if "jget (dv_deliveries (expireOveraged st now)) i = Some d" for i d
  proof -
    from that obtain e where e: "jget (dv_deliveries st) i = Some e"
      and d: "d = (if overaged st now e then e\<lparr>dl_expiredAt := Some now\<rparr> else e)"
      unfolding expire_get by blast
    from delivery_invD(2) [OF inv e] show ?thesis
      by (cases "overaged st now e") (simp_all add: d delivery_wf_def overaged_def)
  qed
  moreover have "\<exists>d. jget (dv_deliveries (expireOveraged st now)) i = Some d \<and> dl_idempotencyKey d = k"
    if "jget (dv_byKey (expireOveraged st now)) k = Some i" for k i
  proof -
    from that delivery_invD(3) [OF inv, of k i] obtain e
      where e: "jget (dv_deliveries st) i = Some e" "dl_idempotencyKey e = k" by auto
    then show ?thesis by (cases "overaged st now e") (simp_all add: expire_get)
  qed
  ultimately show ?thesis unfolding delivery_inv_def by blast
qed

lemma enqueue_delivery_inv:
  assumes inv: "delivery_inv st" and "u \<noteq> []" "jget (dv_deliveries st) u = None"
  shows "delivery_inv (fst (enqueue_delivery st u inp now))"
proof (cases "delivery_id_of st (di_idempotencyKey inp)")
  case None
  with delivery_id_of_Some [OF inv] have "jget (dv_byKey st) (di_idempotencyKey inp) = None" by simp
  with None assms show ?thesis
    by (simp add: enqueue_delivery_def Let_def put_delivery_def
        delivery_inv_insert [OF inv, of u "di_idempotencyKey inp" "new_delivery u inp now"] new_delivery_def)
next
  case (Some i)
  show ?thesis
  proof (cases "jget (dv_deliveries st) i")
    fix d
    assume d: "jget (dv_deliveries st) i = Some d"
    then have "dl_id d = i" using delivery_invD(2) [OF inv] by (simp add: delivery_wf_def)
    with Some d inv show ?thesis
      by (auto simp: enqueue_delivery_def Let_def put_delivery_def revived_def
          intro: delivery_inv_update [OF inv d, of "revived inp now d"])
  qed (use Some inv in \<open>simp add: enqueue_delivery_def\<close>)
qed

lemma upd_inv:
  assumes "delivery_inv st"
    and "\<And>d. dl_id (f d) = dl_id d \<and> dl_idempotencyKey (f d) = dl_idempotencyKey d"
    and "\<And>d. dl_deliveredAt d \<noteq> None \<longrightarrow> dl_expiredAt d = None \<Longrightarrow> dl_deliveredAt (f d) \<noteq> None \<longrightarrow> dl_expiredAt (f d) = None"
  shows "delivery_inv (upd_delivery st i f)"
proof (cases "jget (dv_deliveries st) i")
  case (Some d)
  have "dl_deliveredAt d \<noteq> None \<longrightarrow> dl_expiredAt d = None"
    using delivery_invD(2) [OF assms(1) Some] by (simp add: delivery_wf_def)
  then have "dl_deliveredAt (f d) \<noteq> None \<longrightarrow> dl_expiredAt (f d) = None" by (rule assms(3))
  with Some show ?thesis
    using assms(2) by (simp add: upd_delivery_def delivery_inv_update [OF assms(1) Some, of "f d"])
qed (simp add: upd_delivery_def assms(1))

lemma ack_inv:
  assumes "delivery_inv st"
  shows "delivery_inv (ack st i t ms)" "delivery_inv (setEditRefByKey st k r)"
    "delivery_inv (recordRecipientThread st i r t)" "delivery_inv (upd_delivery st i (delivered_at t))"
proof -
  show "delivery_inv (ack st i t ms)" unfolding ack_def
    by (rule upd_inv [OF assms]) (auto simp: delivered_at_def)
  show "delivery_inv (setEditRefByKey st k r)" unfolding setEditRefByKey_def
    using assms upd_inv [OF assms] by (auto split: option.split)
  show "delivery_inv (recordRecipientThread st i r t)" unfolding recordRecipientThread_def
    by (rule upd_inv [OF assms]) (auto simp: delivered_at_def)
  show "delivery_inv (upd_delivery st i (delivered_at t))"
    by (rule upd_inv [OF assms]) (auto simp: delivered_at_def)
qed

lemma ackByKey_inv:
  assumes inv: "delivery_inv st" and "u \<noteq> []" "jget (dv_deliveries st) u = None"
  shows "delivery_inv (ackByKey st u k t)"
proof (cases "delivery_id_of st k")
  case None
  with delivery_id_of_Some [OF inv] have "jget (dv_byKey st) k = None" by simp
  with None assms show ?thesis
    by (simp add: ackByKey_def Let_def put_delivery_def tombstone_def
        delivery_inv_insert [OF inv, of u k "tombstone u k t"])
qed (simp add: ackByKey_def ack_inv [OF inv])

lemma frame_inv:
  assumes "delivery_inv st"
  shows "delivery_inv (releaseClaim st i)" "delivery_inv (onEnqueue st l)" "delivery_inv (offEnqueue st l)"
    "delivery_inv (fst (claimPending st ty ttl pre now))"
  using assms delivery_inv_same [OF expire_inv [OF assms]]
  by (simp_all add: releaseClaim_def onEnqueue_def offEnqueue_def claimPending_def Let_def delivery_inv_same [OF assms])

lemma delivery_step_inv: "delivery_inv st \<Longrightarrow> delivery_ok st x \<Longrightarrow> delivery_inv (delivery_step st x)"
  by (cases x) (simp_all add: enqueue_delivery_inv ackByKey_inv ack_inv frame_inv)

interpretation deliveries: op_invariant delivery_step delivery_ok delivery_inv
  by unfold_locales (rule delivery_step_inv)

lemma empty_delivery_inv: "delivery_inv (createDeliveryStore ttl)"
  by (simp add: delivery_inv_def createDeliveryStore_def)

subsection \<open>A delivery made is final\<close>

definition made :: "ident \<Rightarrow> delivery \<Rightarrow> delivery_store \<Rightarrow> bool" where
  "made i d st \<longleftrightarrow> delivery_inv st \<and>
     (\<exists>r. jget (dv_deliveries st) i = Some (d\<lparr>dl_recipientThreadRef := r\<rparr>))"

lemma made_upd:
  assumes "jget (dv_deliveries st) i = Some e" "f e = e\<lparr>dl_recipientThreadRef := r\<rparr>"
  shows "jget (dv_deliveries (upd_delivery st j f)) i =
    (if j = i then Some (e\<lparr>dl_recipientThreadRef := r\<rparr>) else Some e)"
  using assms by (auto simp: upd_delivery_def split: option.split)

lemma made_step:
  assumes "made i d st" "dl_deliveredAt d = Some t" "delivery_ok st x"
  shows "made i d (delivery_step st x)"
proof -
  from assms(1) obtain r where inv: "delivery_inv st"
    and e: "jget (dv_deliveries st) i = Some (d\<lparr>dl_recipientThreadRef := r\<rparr>)" unfolding made_def by blast
  let ?e = "d\<lparr>dl_recipientThreadRef := r\<rparr>"
  note final = made_upd [OF e, of _ r]
  have "\<exists>r'. jget (dv_deliveries (delivery_step st x)) i = Some (d\<lparr>dl_recipientThreadRef := r'\<rparr>)"
  proof (cases x)
    case (DoEnqueue u inp now)
    show ?thesis
    proof (cases "delivery_id_of st (di_idempotencyKey inp)")
      case None
      have "u \<noteq> i" using assms(3) e DoEnqueue by auto
      with None DoEnqueue e show ?thesis
        by (auto simp: enqueue_delivery_def Let_def put_delivery_def new_delivery_def)
    next
      case (Some j)
      have "dl_id c = j" if "jget (dv_deliveries st) j = Some c" for c
        using delivery_invD(2) [OF inv that] by (simp add: delivery_wf_def)
      with Some DoEnqueue e assms(2) show ?thesis
        by (cases "j = i") (auto simp: enqueue_delivery_def Let_def put_delivery_def revived_def split: option.split)
    qed
  next
    case (DoClaim ty ttl pre now)
    have "\<not> overaged st now ?e" using assms(2) by (simp add: overaged_def)
    with DoClaim e show ?thesis by (auto simp: claimPending_def Let_def expire_get)
  next
    case (DoAck j t' ms)
    with final [of "\<lambda>d. if dl_deliveredAt d = None then (delivered_at t' d)\<lparr>dl_deliverLatencyMs :=
        Some (max 0 (t' - dl_createdAt d)), dl_slackApiMs := (if ms \<noteq> None then ms else dl_slackApiMs d)\<rparr> else d" j]
      assms(2) show ?thesis by (auto simp: ack_def)
  next
    case (DoAckByKey u k t')
    show ?thesis
    proof (cases "delivery_id_of st k")
      case None
      have "u \<noteq> i" using assms(3) e DoAckByKey by auto
      with None DoAckByKey e show ?thesis
        by (auto simp: ackByKey_def Let_def put_delivery_def tombstone_def)
    next
      case (Some j)
      with DoAckByKey final [of "delivered_at t'" j] assms(2) show ?thesis
        by (auto simp: ackByKey_def delivered_at_def)
    qed
  next
    case (DoEditRef k ref)
    then show ?thesis
      using final [of "\<lambda>d. if dl_deliveredAt d = None
          then d\<lparr>dl_destination := with_editRef ref (dl_destination d)\<rparr> else d"] e assms(2)
      by (auto simp: setEditRefByKey_def split: option.split)
  next
    case (DoThread j ref t')
    then show ?thesis
      using made_upd [OF e, of "\<lambda>d. if de_type (dl_destination d) \<noteq> ''principal'' then d
          else delivered_at t' (d\<lparr>dl_recipientThreadRef := Some ref\<rparr>)"
          "if de_type (dl_destination d) \<noteq> ''principal'' then r else Some ref" j] assms(2) e
      by (auto simp: recordRecipientThread_def delivered_at_def)
  qed (use e in \<open>auto simp: releaseClaim_def onEnqueue_def offEnqueue_def\<close>)
  then show ?thesis using delivery_step_inv [OF inv assms(3)] by (simp add: made_def)
qed

interpretation final: op_invariant delivery_step delivery_ok "\<lambda>st. dl_deliveredAt d = Some t \<and> made i d st" for d t i
  by unfold_locales (blast intro: made_step)

text \<open>Whom a claim finds: what waits, is unclaimed and is not too old, and nothing else.\<close>

lemma claimPending_rows:
  assumes inv: "delivery_inv st"
  shows "d \<in> set (snd (claimPending st ty ttl pre now)) \<longleftrightarrow>
    get_delivery st (dl_id d) = Some d \<and> waiting ty pre d \<and> claimed_until st (dl_id d) \<le> now \<and>
    now - dl_createdAt d < dv_maxAgeMs st"
proof -
  let ?st1 = "expireOveraged st now"
  have v: "d \<in> set (jvals (dv_deliveries ?st1)) \<longleftrightarrow> (\<exists>i. jget (dv_deliveries ?st1) i = Some d)"
    by (rule jvals_iff [OF delivery_invD(1) [OF expire_inv [OF inv]]])
  have "d \<in> set (snd (claimPending st ty ttl pre now)) \<longleftrightarrow>
      d \<in> set (jvals (dv_deliveries ?st1)) \<and> waiting ty pre d \<and> claimed_until st (dl_id d) \<le> now"
    by (simp only: claimPending_def Let_def snd_conv set_filter mem_Collect_eq claimed_until_def expire_fields)
  also have "\<dots> \<longleftrightarrow>
      (\<exists>i. jget (dv_deliveries ?st1) i = Some d) \<and> waiting ty pre d \<and> claimed_until st (dl_id d) \<le> now"
    unfolding v ..
  also have "(\<exists>i. jget (dv_deliveries ?st1) i = Some d) \<and> waiting ty pre d \<and> claimed_until st (dl_id d) \<le> now \<longleftrightarrow>
      get_delivery st (dl_id d) = Some d \<and> waiting ty pre d \<and> claimed_until st (dl_id d) \<le> now \<and>
      now - dl_createdAt d < dv_maxAgeMs st" (is "?l \<longleftrightarrow> ?r")
  proof
    assume l: ?l
    then obtain i e where e: "jget (dv_deliveries st) i = Some e"
      and d: "d = (if overaged st now e then e\<lparr>dl_expiredAt := Some now\<rparr> else e)"
      unfolding expire_get by blast
    with l have "\<not> overaged st now e" by (auto simp: waiting_def)
    with d have de: "d = e" by simp
    moreover have "dl_id e = i" using delivery_invD(2) [OF inv e] by (simp add: delivery_wf_def)
    ultimately show ?r using l e \<open>\<not> overaged st now e\<close>
      by (auto simp: get_delivery_def overaged_def waiting_def)
  next
    assume r: ?r
    then have "\<not> overaged st now d" by (simp add: overaged_def)
    with r show ?l unfolding expire_get get_delivery_def by auto
  qed
  finally show ?thesis .
qed


definition sample_message :: delivery_input where
  "sample_message = \<lparr>di_destination = \<lparr>de_type = ''slack'', de_target = ''C1'', de_rest = JObj []\<rparr>,
     di_text = ''hello'', di_attachments = [], di_provenance = None, di_idempotencyKey = ''k'',
     di_shadow = False\<rparr>"

definition sample_outbox :: delivery_store where
  "sample_outbox = foldl delivery_step (createDeliveryStore (Some 1000)) [DoEnqueue ''d'' sample_message 0]"

lemma sample_outbox_ok:
  "ok_run delivery_step delivery_ok (createDeliveryStore (Some 1000)) [DoEnqueue ''d'' sample_message 0]"
  by (simp add: createDeliveryStore_def)


subsection \<open>A claim is exclusive\<close>

fun respects_claim :: "ident \<Rightarrow> time \<Rightarrow> delivery_op \<Rightarrow> bool" where
  "respects_claim i u (DoClaim ty ttl pre now) = (now < u)"
| "respects_claim i u (DoRelease j) = (j \<noteq> i)"
| "respects_claim i u _ = True"

definition claim_ok :: "ident \<Rightarrow> time \<Rightarrow> delivery_store \<Rightarrow> delivery_op \<Rightarrow> bool" where
  "claim_ok i u st x \<longleftrightarrow> delivery_ok st x \<and> respects_claim i u x"

definition claimed :: "ident \<Rightarrow> time \<Rightarrow> delivery_store \<Rightarrow> bool" where
  "claimed i u st \<longleftrightarrow> delivery_inv st \<and> claimed_until st i \<ge> u \<and>
     (\<exists>d. jget (dv_deliveries st) i = Some d \<and> dl_expiredAt d = None)"

lemma fold_claims:
  "jget (foldl (\<lambda>m d. jset m (dl_id d) t) m ds) i = (if i \<in> dl_id ` set ds then Some t else jget m i)"
  by (induction ds arbitrary: m) auto

lemma claimPending_claims:
  "claimed_until (fst (claimPending st ty ttl pre now)) i =
     (if i \<in> dl_id ` set (snd (claimPending st ty ttl pre now)) then now + ttl else claimed_until st i)"
  by (simp add: claimPending_def Let_def claimed_until_def fold_claims)

lemma claimPending_get:
  "jget (dv_deliveries (fst (claimPending st ty ttl pre now))) i = jget (dv_deliveries (expireOveraged st now)) i"
  by (simp add: claimPending_def Let_def)

lemma upd_delivery_claims [simp]: "dv_claimedUntil (upd_delivery st i f) = dv_claimedUntil st"
  by (simp add: upd_delivery_def split: option.split)

lemma upd_unexpired:
  assumes "jget (dv_deliveries st) i = Some e" "dl_expiredAt e = None" "\<And>d. dl_expiredAt d = None \<Longrightarrow> dl_expiredAt (f d) = None"
  shows "\<exists>d. jget (dv_deliveries (upd_delivery st j f)) i = Some d \<and> dl_expiredAt d = None"
  using assms by (cases "j = i") (auto simp: upd_delivery_def split: option.split)

lemma claimed_step:
  assumes "claimed i u st" "claim_ok i u st x"
  shows "claimed i u (delivery_step st x)"
proof -
  from assms(1) obtain e where inv: "delivery_inv st" and c: "claimed_until st i \<ge> u"
    and e: "jget (dv_deliveries st) i = Some e" "dl_expiredAt e = None"
    unfolding claimed_def by blast
  have ok: "delivery_ok st x" and r: "respects_claim i u x" using assms(2) by (simp_all add: claim_ok_def)
  note upd = upd_unexpired [OF e]
  have "claimed_until (delivery_step st x) i \<ge> u \<and>
      (\<exists>d. jget (dv_deliveries (delivery_step st x)) i = Some d \<and> dl_expiredAt d = None)"
  proof (cases x)
    case (DoEnqueue w inp now)
    show ?thesis
    proof (cases "delivery_id_of st (di_idempotencyKey inp)")
      case None
      have "w \<noteq> i" using ok e DoEnqueue by auto
      with None DoEnqueue e c show ?thesis
        by (simp add: enqueue_delivery_def Let_def put_delivery_def new_delivery_def claimed_until_def)
    next
      case (Some j)
      show ?thesis
      proof (cases "jget (dv_deliveries st) j")
        fix b
        assume b: "jget (dv_deliveries st) j = Some b"
        then have "dl_id b = j" using delivery_invD(2) [OF inv] by (simp add: delivery_wf_def)
        with Some DoEnqueue e c b show ?thesis
          by (cases "j = i")
            (auto simp: enqueue_delivery_def Let_def put_delivery_def revived_def claimed_until_def)
      qed (use Some DoEnqueue e c in \<open>simp add: enqueue_delivery_def\<close>)
    qed
  next
    case (DoClaim ty ttl pre now)
    with r c have "claimed_until st i > now" by simp
    moreover have "dl_id e = i" using delivery_invD(2) [OF inv e(1)] by (simp add: delivery_wf_def)
    ultimately have "\<not> overaged st now e" "i \<notin> dl_id ` set (snd (claimPending st ty ttl pre now))"
      using claimPending_rows [OF inv] by (auto simp: overaged_def)
    with DoClaim e c show ?thesis by (simp add: claimPending_claims claimPending_get expire_get)
  next
    case (DoAckByKey w k t)
    show ?thesis
    proof (cases "delivery_id_of st k")
      case None
      have "w \<noteq> i" using ok e DoAckByKey by auto
      with None DoAckByKey e c show ?thesis
        by (simp add: ackByKey_def Let_def put_delivery_def tombstone_def claimed_until_def)
    next
      case (Some j)
      with DoAckByKey c upd [of "delivered_at t" j] show ?thesis
        by (simp add: ackByKey_def claimed_until_def delivered_at_def)
    qed
  next
    case (DoAck j t ms)
    then show ?thesis using c by (simp add: ack_def claimed_until_def) (rule upd, simp add: delivered_at_def)
  next
    case (DoThread j ref t)
    then show ?thesis using c
      by (simp add: recordRecipientThread_def claimed_until_def) (rule upd, simp add: delivered_at_def)
  next
    case (DoEditRef k ref)
    show ?thesis
    proof (cases "delivery_id_of st k")
      case (Some j)
      with DoEditRef c show ?thesis
        by (simp add: setEditRefByKey_def claimed_until_def) (rule upd, simp)
    qed (use DoEditRef e c in \<open>simp add: setEditRefByKey_def\<close>)
  qed (use r e c in \<open>simp_all add: releaseClaim_def onEnqueue_def offEnqueue_def claimed_until_def\<close>)
  then show ?thesis using delivery_step_inv [OF inv ok] by (simp add: claimed_def)
qed

interpretation claiming: op_invariant delivery_step "claim_ok i u" "claimed i u" for i u
  by unfold_locales (rule claimed_step)

text \<open>
  C36. A claim is exclusive and nothing is lost: a claim hands out exactly the deliveries of its type
  that wait, are not claimed by another sender and are not too old; and until the time it was
  claimed for is over, unless the sender gives it back, no other claim hands out the same delivery,
  whatever else happens.
\<close>

theorem claim_exclusive:
  assumes inv: "delivery_inv st" and cl: "claimPending st ty ttl pre now = (st1, rows)"
  shows "(\<forall>d. d \<in> set rows \<longleftrightarrow> get_delivery st (dl_id d) = Some d \<and> waiting ty pre d \<and>
      claimed_until st (dl_id d) \<le> now \<and> now - dl_createdAt d < dv_maxAgeMs st) \<and>
    (\<forall>d \<in> set rows. \<forall>ops ty' ttl' pre' now'.
      ok_run delivery_step (claim_ok (dl_id d) (now + ttl)) st1 ops \<and> now' < now + ttl \<longrightarrow>
      dl_id d \<notin> dl_id ` set (snd (claimPending (foldl delivery_step st1 ops) ty' ttl' pre' now')))"
proof (intro conjI ballI allI impI)
  have rows: "rows = snd (claimPending st ty ttl pre now)" and st1: "st1 = fst (claimPending st ty ttl pre now)"
    using cl by simp_all
  show "d \<in> set rows \<longleftrightarrow> get_delivery st (dl_id d) = Some d \<and> waiting ty pre d \<and>
      claimed_until st (dl_id d) \<le> now \<and> now - dl_createdAt d < dv_maxAgeMs st" for d
    unfolding rows by (rule claimPending_rows [OF inv])
  fix d ops ty' ttl' pre' now'
  assume d: "d \<in> set rows" and run: "ok_run delivery_step (claim_ok (dl_id d) (now + ttl)) st1 ops \<and> now' < now + ttl"
  from d have w: "get_delivery st (dl_id d) = Some d" "waiting ty pre d" "now - dl_createdAt d < dv_maxAgeMs st"
    unfolding rows claimPending_rows [OF inv] by blast+
  then have "\<not> overaged st now d" by (simp add: overaged_def)
  with w have "jget (dv_deliveries st1) (dl_id d) = Some d" "dl_expiredAt d = None"
    unfolding st1 claimPending_get expire_get get_delivery_def by (simp_all add: waiting_def)
  moreover have "claimed_until st1 (dl_id d) = now + ttl"
    using d unfolding st1 rows claimPending_claims by simp
  moreover have "delivery_inv st1" unfolding st1 by (rule frame_inv [OF inv])
  ultimately have "claimed (dl_id d) (now + ttl) st1" by (simp add: claimed_def)
  from claiming.run_keeps [OF this run [THEN conjunct1]]
  have c: "delivery_inv (foldl delivery_step st1 ops)"
    "claimed_until (foldl delivery_step st1 ops) (dl_id d) \<ge> now + ttl" unfolding claimed_def by blast+
  then show "dl_id d \<notin> dl_id ` set (snd (claimPending (foldl delivery_step st1 ops) ty' ttl' pre' now'))"
    using run by (auto simp: claimPending_rows [OF c(1)])
qed

lemma sample_outbox_inv: "delivery_inv sample_outbox"
  unfolding sample_outbox_def by (rule deliveries.run_keeps [OF empty_delivery_inv sample_outbox_ok])

theorem claim_exclusive_witness:
  "map dl_id (snd (claimPending sample_outbox ''slack'' 100 None 10)) = [''d''] \<and>
   ''d'' \<notin> dl_id ` set (snd (claimPending (fst (claimPending sample_outbox ''slack'' 100 None 10)) ''slack'' 5 None 60))"
proof -
  have m: "map dl_id (snd (claimPending sample_outbox ''slack'' 100 None 10)) = [''d'']" by code_simp
  then obtain d where d: "d \<in> set (snd (claimPending sample_outbox ''slack'' 100 None 10))" "dl_id d = ''d''"
    by (cases "snd (claimPending sample_outbox ''slack'' 100 None 10)") auto
  have "dl_id d \<notin> dl_id ` set (snd (claimPending (foldl delivery_step
      (fst (claimPending sample_outbox ''slack'' 100 None 10)) []) ''slack'' 5 None 60))"
    by (rule claim_exclusive [OF sample_outbox_inv prod.collapse [symmetric], THEN conjunct2, rule_format, OF d(1)]) simp
  with m show ?thesis unfolding d(2) by simp
qed

end
