(* ===== verification/Cron.thy ===== *)
theory Cron
  imports LoopGovernance
begin

section \<open>Crons: schedules, slots and the log of fires\<close>

text \<open>
  The schedule of a cron (\<open>src/src/cron/schedule.ts\<close>), the store of crons over the durable map
  (\<open>src/src/cron/cron-store.ts\<close>) and the in-memory log of fires (\<open>src/src/cron/fire-store.ts\<close>).

  The library that reads a five-field expression and the time zones of the platform are
  parameters: \<open>cl_zone\<close> says whether a time zone exists, \<open>cl_next\<close> gives the next run of an
  expression in a zone strictly after an instant (the outer \<open>None\<close>: the library throws, the inner:
  there is no next run). Numbers of a schedule are whole; a whole number is refused when it is not
  a safe integer. What throws is a value of \<open>cron_error\<close>.
\<close>

record cron_calendar =
  cl_zone :: "string \<Rightarrow> bool"
  cl_next :: "string \<Rightarrow> string \<Rightarrow> time \<Rightarrow> time option option"

datatype cron_error =
    CronEmpty | CronCombined | CronNotFiveFields | CronRequired | CronUnreadable | NoFutureFire
  | BadTimezone string | TimezoneWithoutCron | EveryMsTooLong | NotATimestamp | NotPositiveMs
  | EveryMsTooShort | FirstFireInThePast | CronEscalation

definition bind_r :: "'e + 'a \<Rightarrow> ('a \<Rightarrow> 'e + 'b) \<Rightarrow> 'e + 'b" where
  "bind_r x f = (case x of Inl e \<Rightarrow> Inl e | Inr v \<Rightarrow> f v)"

lemma bind_r_simps [simp]: "bind_r (Inl e) f = Inl e" "bind_r (Inr v) f = f v"
  by (simp_all add: bind_r_def)

lemma bind_r_Inr: "bind_r x f = Inr r \<longleftrightarrow> (\<exists>v. x = Inr v \<and> f v = Inr r)"
  by (cases x) simp_all

subsection \<open>Schedules\<close>

record cron_schedule =
  cs_cron :: "string option"
  cs_timezone :: "string option"
  cs_everyMs :: "int option"
  cs_firstFireAt :: "time option"

definition DEFAULT_CRON_TIMEZONE :: string where
  "DEFAULT_CRON_TIMEZONE = ''America/Los_Angeles''"

definition DAY_MS :: time where "DAY_MS = 24 * 60 * 60 * 1000"
definition MIN_RECURRING_CRON_MS :: time where "MIN_RECURRING_CRON_MS = 60000"
definition PAST_FIRE_GRACE_MS :: time where "PAST_FIRE_GRACE_MS = 5 * 60000"

text \<open>A field of a request body: of the right type or absent, where the empty value counts as absent.\<close>

definition body_text :: "(string \<times> json) list \<Rightarrow> string \<Rightarrow> string option option" where
  "body_text b k = (case jget b k of
     None \<Rightarrow> Some None
   | Some (JStr s) \<Rightarrow> Some (if js_trim s \<noteq> [] then Some (js_trim s) else None)
   | Some _ \<Rightarrow> None)"

definition body_number :: "(string \<times> json) list \<Rightarrow> string \<Rightarrow> int option option" where
  "body_number b k = (case jget b k of
     None \<Rightarrow> Some None
   | Some (JNum n) \<Rightarrow> Some (if n \<noteq> 0 then Some n else None)
   | Some _ \<Rightarrow> None)"

definition userScheduleFromBody :: "json \<Rightarrow> string \<Rightarrow> cron_schedule option" where
  "userScheduleFromBody value defaultTimezone = (case value of
     JObj b \<Rightarrow>
       (case (body_text b ''cron'', body_text b ''timezone'', body_number b ''everyMs'', body_number b ''firstFireAt'') of
          (Some cron, Some timezone, Some everyMs, Some firstFireAt) \<Rightarrow>
            if cron \<noteq> None
            then (if everyMs \<noteq> None \<or> firstFireAt \<noteq> None then None
                  else Some \<lparr>cs_cron = cron, cs_timezone = Some (or_else timezone defaultTimezone),
                             cs_everyMs = None, cs_firstFireAt = None\<rparr>)
            else if timezone \<noteq> None \<or> everyMs = None \<and> firstFireAt = None then None
            else Some \<lparr>cs_cron = None, cs_timezone = None, cs_everyMs = everyMs, cs_firstFireAt = firstFireAt\<rparr>
        | _ \<Rightarrow> None)
   | JArr _ \<Rightarrow> None
   | _ \<Rightarrow> None)"

definition isCalendarSchedule :: "cron_schedule \<Rightarrow> bool" where
  "isCalendarSchedule s \<longleftrightarrow> cs_cron s \<noteq> None"

definition safe_integer :: "int \<Rightarrow> bool" where
  "safe_integer n \<longleftrightarrow> \<bar>n\<bar> \<le> 9007199254740991"

definition finiteEpochMs :: "time option \<Rightarrow> cron_error + time option" where
  "finiteEpochMs value = (case value of
     None \<Rightarrow> Inr None
   | Some v \<Rightarrow> if \<not> safe_integer v then Inl NotATimestamp else Inr (Some v))"

definition finitePositiveMs :: "int option \<Rightarrow> cron_error + int option" where
  "finitePositiveMs value = (case value of
     None \<Rightarrow> Inr None
   | Some v \<Rightarrow> if \<not> safe_integer v \<or> v \<le> 0 then Inl NotPositiveMs else Inr (Some v))"

definition normalizeTimezone :: "cron_calendar \<Rightarrow> string option \<Rightarrow> string \<Rightarrow> cron_error + string" where
  "normalizeTimezone cal inp fallback =
     (let given = (case inp of None \<Rightarrow> [] | Some z \<Rightarrow> js_trim z);
          tz = js_trim (if given \<noteq> [] then given else fallback)
      in if cl_zone cal tz then Inr tz else Inl (BadTimezone tz))"

definition normalizeCronExpression :: "string \<Rightarrow> cron_error + string" where
  "normalizeCronExpression inp =
     (let cron = collapse_spaces (js_trim inp)
      in if count_list cron CHR '' '' + 1 \<noteq> 5 then Inl CronNotFiveFields else Inr cron)"

definition nextCalendarFireAfter :: "cron_calendar \<Rightarrow> cron_schedule \<Rightarrow> time \<Rightarrow> cron_error + time option" where
  "nextCalendarFireAfter cal s after = (case cs_cron s of
     None \<Rightarrow> Inl CronRequired
   | Some c \<Rightarrow>
       if c = [] then Inl CronRequired
       else bind_r (normalizeTimezone cal (cs_timezone s) DEFAULT_CRON_TIMEZONE)
         (\<lambda>tz. case cl_next cal c tz after of None \<Rightarrow> Inl CronUnreadable | Some r \<Rightarrow> Inr r))"

definition normalizeSchedule ::
  "cron_calendar \<Rightarrow> cron_schedule \<Rightarrow> time \<Rightarrow> string \<Rightarrow> cron_error + (cron_schedule \<times> time option)" where
  "normalizeSchedule cal inp now defaultTimezone = (case cs_cron inp of
     Some c \<Rightarrow>
       if js_trim c = [] then Inl CronEmpty
       else if cs_everyMs inp \<noteq> None \<or> cs_firstFireAt inp \<noteq> None then Inl CronCombined
       else bind_r (normalizeCronExpression c) (\<lambda>cron.
         bind_r (normalizeTimezone cal (cs_timezone inp) defaultTimezone) (\<lambda>tz.
           let s = \<lparr>cs_cron = Some cron, cs_timezone = Some tz, cs_everyMs = None, cs_firstFireAt = None\<rparr>
           in bind_r (nextCalendarFireAfter cal s now)
                (\<lambda>next. case next of None \<Rightarrow> Inl NoFutureFire | Some t \<Rightarrow> Inr (s, Some t))))
   | None \<Rightarrow>
       if cs_timezone inp \<noteq> None then Inl TimezoneWithoutCron
       else if (case cs_everyMs inp of None \<Rightarrow> False | Some e \<Rightarrow> e \<ge> DAY_MS) then Inl EveryMsTooLong
       else bind_r (finitePositiveMs (cs_everyMs inp)) (\<lambda>everyMs.
         bind_r (finiteEpochMs (cs_firstFireAt inp)) (\<lambda>given.
           let firstFireAt = or_else given (case everyMs of None \<Rightarrow> now | Some e \<Rightarrow> now + e)
           in Inr (\<lparr>cs_cron = None, cs_timezone = None, cs_everyMs = everyMs, cs_firstFireAt = Some firstFireAt\<rparr>,
                   Some firstFireAt))))"

definition validateUserSchedule :: "cron_schedule \<Rightarrow> time \<Rightarrow> cron_error + unit" where
  "validateUserSchedule s now =
     (if (case cs_everyMs s of None \<Rightarrow> False | Some e \<Rightarrow> e < MIN_RECURRING_CRON_MS) then Inl EveryMsTooShort
      else if (case cs_firstFireAt s of None \<Rightarrow> False | Some t \<Rightarrow> t < now - PAST_FIRE_GRACE_MS)
      then Inl FirstFireInThePast else Inr ())"

definition recoverNextFireAt ::
  "cron_calendar \<Rightarrow> cron_schedule \<Rightarrow> time \<Rightarrow> time option \<Rightarrow> time option \<Rightarrow> cron_error + time option" where
  "recoverNextFireAt cal s createdAt lastFiredAt nextFireAt =
     (if nextFireAt \<noteq> None then finiteEpochMs nextFireAt
      else if isCalendarSchedule s then nextCalendarFireAfter cal s (or_else lastFiredAt createdAt)
      else case lastFiredAt of
        None \<Rightarrow> bind_r (finiteEpochMs (cs_firstFireAt s)) (\<lambda>t. Inr (Some (or_else t createdAt)))
      | Some l \<Rightarrow> bind_r (finitePositiveMs (cs_everyMs s)) (\<lambda>e. Inr (map_option (\<lambda>e. l + e) e)))"

definition advanceNextFireAt :: "cron_calendar \<Rightarrow> cron_schedule \<Rightarrow> time \<Rightarrow> cron_error + time option" where
  "advanceNextFireAt cal s firedAt =
     (if isCalendarSchedule s then nextCalendarFireAfter cal s firedAt
      else bind_r (finitePositiveMs (cs_everyMs s)) (\<lambda>e. Inr (map_option (\<lambda>e. firedAt + e) e)))"

subsection \<open>The log of fires\<close>

datatype fire_status =
  FireRunning | FireDeferred | FireOk | FireRefused | FireFailed | FirePendingApproval | FireQueued |
  FireSilent | FireReact

record fire_entry =
  fe_fireKey :: string
  fe_threadRef :: string
  fe_firedAt :: time
  fe_scheduledAt :: "time option"
  fe_status :: "fire_status option"
  fe_endedAt :: "time option"
  fe_note :: "string option"
  fe_reply :: "string option"
  fe_sessionId :: "ident option"

type_synonym fire_log = "(ident, (string, fire_entry) jmap) jmap"

text \<open>\<open>fireOrder\<close>: by time, then by key.\<close>

definition by_fire_order :: "fire_entry list \<Rightarrow> fire_entry list" where
  "by_fire_order es = sort_key fe_firedAt (sort_key fe_fireKey es)"

definition firesOf :: "fire_log \<Rightarrow> ident \<Rightarrow> (string, fire_entry) jmap" where
  "firesOf fl c = or_else (jget fl c) []"

definition record_fire :: "fire_log \<Rightarrow> ident \<Rightarrow> fire_entry \<Rightarrow> fire_log" where
  "record_fire fl c e = jset fl c (jset (firesOf fl c) (fe_fireKey e) e)"

definition still_running :: "fire_entry \<Rightarrow> time \<Rightarrow> fire_entry \<Rightarrow> bool" where
  "still_running entry staleRunningMs e \<longleftrightarrow>
     fe_fireKey e \<noteq> fe_fireKey entry \<and> fe_status e = Some FireRunning \<and>
     fe_firedAt entry - fe_firedAt e < staleRunningMs"

datatype begin_result = Begun | NotBegun "fire_entry option"

definition beginExclusive :: "fire_log \<Rightarrow> ident \<Rightarrow> fire_entry \<Rightarrow> time \<Rightarrow> fire_log \<times> begin_result" where
  "beginExclusive fl c entry staleRunningMs =
     (let fires = firesOf fl c
      in case find (still_running entry staleRunningMs) (rev (by_fire_order (jvals fires))) of
           Some running \<Rightarrow> (jset fl c fires, NotBegun (Some running))
         | None \<Rightarrow> (jset fl c (jset fires (fe_fireKey entry) entry), Begun))"

definition stranded :: "time \<Rightarrow> time \<Rightarrow> fire_entry \<Rightarrow> bool" where
  "stranded now staleRunningMs e \<longleftrightarrow>
     \<not> (fe_status e \<noteq> Some FireRunning \<or> now - fe_firedAt e < staleRunningMs)"

definition sweepStranded :: "fire_log \<Rightarrow> time \<Rightarrow> time \<Rightarrow> string \<Rightarrow> fire_log \<times> nat" where
  "sweepStranded fl now staleRunningMs note =
     (map (\<lambda>(c, fires). (c, map (\<lambda>(k, e). (k,
          if stranded now staleRunningMs e
          then e\<lparr>fe_status := Some FireFailed, fe_endedAt := Some now, fe_note := Some note\<rparr> else e)) fires)) fl,
      length (filter (stranded now staleRunningMs) (concat (map jvals (jvals fl)))))"

definition prunable :: "(string, fire_entry) jmap \<Rightarrow> time \<Rightarrow> int \<Rightarrow> fire_entry list" where
  "prunable fires endedBefore keepPerCron =
     filter (\<lambda>e. case fe_endedAt e of None \<Rightarrow> False | Some t \<Rightarrow> t < endedBefore)
       (drop (nat (max keepPerCron 0)) (rev (by_fire_order (jvals fires))))"

definition pruneEnded :: "fire_log \<Rightarrow> time \<Rightarrow> int \<Rightarrow> fire_log \<times> nat" where
  "pruneEnded fl endedBefore keepPerCron =
     (map (\<lambda>(c, fires). (c, foldl jdel fires (map fe_fireKey (prunable fires endedBefore keepPerCron)))) fl,
      sum_list (map (\<lambda>(c, fires). length (prunable fires endedBefore keepPerCron)) fl))"

definition backfillMayReplace :: "fire_entry \<Rightarrow> fire_entry \<Rightarrow> bool" where
  "backfillMayReplace existing incoming =
     (if fe_firedAt incoming < fe_firedAt existing then False
      else fe_endedAt existing = None \<or> fe_endedAt incoming \<noteq> None)"

definition backfill_one :: "(string, fire_entry) jmap \<Rightarrow> fire_entry \<Rightarrow> (string, fire_entry) jmap" where
  "backfill_one fires e = (case jget fires (fe_fireKey e) of
     Some existing \<Rightarrow> if \<not> backfillMayReplace existing e then fires else jset fires (fe_fireKey e) e
   | None \<Rightarrow> jset fires (fe_fireKey e) e)"

definition backfill_fires :: "fire_log \<Rightarrow> ident \<Rightarrow> fire_entry list \<Rightarrow> fire_log" where
  "backfill_fires fl c es = jset fl c (foldl backfill_one (firesOf fl c) es)"

definition listByCron :: "fire_log \<Rightarrow> ident \<Rightarrow> int option \<Rightarrow> fire_entry list \<times> nat" where
  "listByCron fl c limit =
     (let all = by_fire_order (jvals (firesOf fl c))
      in ((case limit of None \<Rightarrow> all | Some n \<Rightarrow> if n > 0 then last_n (nat n) all else []), length all))"

definition listByThreadRefs :: "fire_log \<Rightarrow> string list \<Rightarrow> (ident \<times> fire_entry) list" where
  "listByThreadRefs fl threadRefs =
     (let records = concat (map (\<lambda>(c, fires). map (\<lambda>e. (c, e))
            (filter (\<lambda>e. fe_threadRef e \<in> set threadRefs) (jvals fires))) fl)
      in sort_key (\<lambda>r. fe_firedAt (snd r)) (sort_key (\<lambda>r. fe_fireKey (snd r)) records))"

definition last_of :: "'a list \<Rightarrow> 'a option" where
  "last_of xs = (if xs = [] then None else Some (last xs))"

definition latestForThread_fire :: "fire_log \<Rightarrow> ident \<Rightarrow> string \<Rightarrow> fire_entry option" where
  "latestForThread_fire fl c threadRef =
     last_of (by_fire_order (filter (\<lambda>e. fe_threadRef e = threadRef) (jvals (firesOf fl c))))"

end
