(* ===== verification/CronStore.thy ===== *)
theory CronStore
  imports Cron
begin

section \<open>The store of crons\<close>

text \<open>
  \<open>createCronStore\<close> (\<open>src/src/cron/cron-store.ts\<close>) over the in-memory durable map and log of
  fires. Merging a patch whose field is \<open>undefined\<close> removes the field, so a merge is an update of
  the record; values the store only keeps are opaque JSON; the content hash is a parameter and is
  given the input with its title normalised. The dash of the stranded note is written in ASCII.
\<close>

record fire_note =
  fn_text :: string
  fn_at :: time
  fn_by :: "string option"

record cron = trigger_base +
  cr_schedule :: cron_schedule
  cr_nextFireAt :: "time option"
  cr_lastAttemptAt :: "time option"
  cr_deferUntil :: "time option"
  cr_title :: "string option"
  cr_archived :: bool
  cr_action :: "string option"
  cr_message :: "string option"
  cr_loopId :: "ident option"
  cr_runAs :: "json option"
  cr_members :: "json option"
  cr_unattendedGrants :: "string list option"
  cr_fireLog :: "fire_entry list option"
  cr_lastFireNote :: "fire_note option"

record create_cron_input = create_trigger_input +
  cci_schedule :: cron_schedule
  cci_title :: "string option"
  cci_action :: "string option"
  cci_message :: "string option"
  cci_runAs :: "json option"
  cci_members :: "json option"
  cci_unattendedGrants :: "string list option"
  cci_loopId :: "ident option"

record cron_patch =
  cp_title :: "string option"
  cp_action :: "string option"
  cp_message :: "string option"
  cp_schedule :: "cron_schedule option"
  cp_enabled :: "bool option"
  cp_archived :: "bool option"
  cp_destination :: "destination option"
  cp_members :: "json option"
  cp_runAs :: "json option"
  cp_unattendedGrants :: "string list option"

record cron_store =
  ct_crons :: "(ident, cron) jmap"
  ct_fires :: fire_log
  ct_staleRunningMs :: time

definition DEFAULT_FIRE_RUNNING_STALE_MS :: time where
  "DEFAULT_FIRE_RUNNING_STALE_MS = 24 * 60 * 60 * 1000"
definition FIRE_RETENTION_MS :: time where "FIRE_RETENTION_MS = 90 * 24 * 60 * 60 * 1000"
definition FIRE_RETENTION_KEEP_PER_CRON :: int where "FIRE_RETENTION_KEEP_PER_CRON = 100"

definition createCronStore :: "time option \<Rightarrow> cron_store" where
  "createCronStore staleRunningMs = \<lparr>ct_crons = [], ct_fires = [],
     ct_staleRunningMs = or_else staleRunningMs DEFAULT_FIRE_RUNNING_STALE_MS\<rparr>"

definition isDeferred :: "cron \<Rightarrow> time \<Rightarrow> bool" where
  "isDeferred c now \<longleftrightarrow> (case cr_deferUntil c of None \<Rightarrow> False | Some u \<Rightarrow> now < u)"

definition normalizeTitle :: "string option \<Rightarrow> string option" where
  "normalizeTitle title = Option.bind title normalizeName"

subsection \<open>Creating and changing\<close>

definition cron_candidate :: "create_cron_input \<Rightarrow> cron_schedule \<Rightarrow> time option \<Rightarrow> ident \<Rightarrow> time \<Rightarrow> cron" where
  "cron_candidate inp s next i now =
     trigger_base.extend (buildTriggerBase (create_trigger_input.truncate inp) i now)
       \<lparr>cr_schedule = s, cr_nextFireAt = next, cr_lastAttemptAt = None, cr_deferUntil = None,
        cr_title = normalizeTitle (cci_title inp), cr_archived = False, cr_action = cci_action inp,
        cr_message = cci_message inp, cr_loopId = (if truthy (cci_loopId inp) then cci_loopId inp else None),
        cr_runAs = cci_runAs inp, cr_members = cci_members inp,
        cr_unattendedGrants = cci_unattendedGrants inp, cr_fireLog = None, cr_lastFireNote = None\<rparr>"

definition create_cron ::
  "(create_cron_input \<Rightarrow> ident) \<Rightarrow> cron_calendar \<Rightarrow> cron_store \<Rightarrow> create_cron_input \<Rightarrow> time
     \<Rightarrow> cron_error + (cron_store \<times> cron)" where
  "create_cron hash cal st inp now =
     (if \<not> assertNoEscalation (create_trigger_input.truncate inp) then Inl CronEscalation
      else bind_r (normalizeSchedule cal (cci_schedule inp) now DEFAULT_CRON_TIMEZONE) (\<lambda>(s, next).
        let i = hash (inp\<lparr>cci_title := normalizeTitle (cci_title inp)\<rparr>);
            (crons, c) = mm_putIfAbsent (ct_crons st) i (cron_candidate inp s next i now)
        in Inr (st\<lparr>ct_crons := crons\<rparr>, c)))"

definition merge_cron :: "cron_store \<Rightarrow> ident \<Rightarrow> (cron \<Rightarrow> cron) \<Rightarrow> cron_store \<times> cron option" where
  "merge_cron st i f = (let (crons, after) = mm_update (ct_crons st) i f in (st\<lparr>ct_crons := crons\<rparr>, after))"

definition cron_patch_fields :: "cron_patch \<Rightarrow> (cron_schedule \<times> time option) option \<Rightarrow> cron \<Rightarrow> cron" where
  "cron_patch_fields p normalized c = c
     \<lparr>cr_title := (if cp_title p \<noteq> None then normalizeTitle (cp_title p) else cr_title c),
      cr_action := (if cp_action p \<noteq> None then cp_action p else cr_action c),
      cr_message := (if cp_message p \<noteq> None then cp_message p else cr_message c),
      cr_schedule := (case normalized of None \<Rightarrow> cr_schedule c | Some (s, _) \<Rightarrow> s),
      cr_nextFireAt := (case normalized of None \<Rightarrow> cr_nextFireAt c | Some (_, n) \<Rightarrow> n),
      tb_enabled := (if cp_archived p = Some True then False else or_else (cp_enabled p) (tb_enabled c)),
      cr_archived := or_else (cp_archived p) (cr_archived c),
      tb_destination := (if cp_destination p \<noteq> None then cp_destination p else tb_destination c),
      cr_members := (if cp_members p \<noteq> None then cp_members p else cr_members c),
      cr_runAs := (if cp_runAs p \<noteq> None then cp_runAs p else cr_runAs c),
      cr_unattendedGrants :=
        (if cp_unattendedGrants p \<noteq> None then cp_unattendedGrants p else cr_unattendedGrants c)\<rparr>"

definition update_cron ::
  "cron_calendar \<Rightarrow> cron_store \<Rightarrow> ident \<Rightarrow> cron_patch \<Rightarrow> time \<Rightarrow> cron_error + (cron_store \<times> cron option)" where
  "update_cron cal st i p now = (case cp_schedule p of
     None \<Rightarrow> Inr (merge_cron st i (cron_patch_fields p None))
   | Some s \<Rightarrow> bind_r (normalizeSchedule cal s now DEFAULT_CRON_TIMEZONE)
       (\<lambda>n. Inr (merge_cron st i (cron_patch_fields p (Some n)))))"

definition delete_cron :: "cron_store \<Rightarrow> ident \<Rightarrow> cron_store" where
  "delete_cron st i = st\<lparr>ct_crons := mm_delete (ct_crons st) i\<rparr>"

definition setEnabled :: "cron_store \<Rightarrow> ident \<Rightarrow> bool \<Rightarrow> cron_store" where
  "setEnabled st i enabled = fst (merge_cron st i (\<lambda>c.
     c\<lparr>tb_enabled := enabled, cr_archived := (if enabled then False else cr_archived c)\<rparr>))"

definition setDestination :: "cron_store \<Rightarrow> ident \<Rightarrow> destination option \<Rightarrow> cron_store" where
  "setDestination st i d = fst (merge_cron st i (\<lambda>c. c\<lparr>tb_destination := d\<rparr>))"

definition setRecipientConsent :: "cron_store \<Rightarrow> ident \<Rightarrow> recipient_consent \<Rightarrow> cron_store" where
  "setRecipientConsent st i consent = fst (merge_cron st i (\<lambda>c. c\<lparr>tb_recipientConsent := Some consent\<rparr>))"

subsection \<open>Fires\<close>

definition beginFire :: "cron_store \<Rightarrow> ident \<Rightarrow> fire_entry \<Rightarrow> bool \<Rightarrow> cron_store \<times> begin_result" where
  "beginFire st i entry exclusive =
     (if mm_get (ct_crons st) i = None then (st, NotBegun None)
      else if exclusive
      then (let (fires, r) = beginExclusive (ct_fires st) i entry (ct_staleRunningMs st)
            in (st\<lparr>ct_fires := fires\<rparr>, r))
      else (st\<lparr>ct_fires := record_fire (ct_fires st) i entry\<rparr>, Begun))"

definition STRANDED_FIRE_NOTE :: string where
  "STRANDED_FIRE_NOTE = ''fire never completed - stranded by a restart or crash''"

definition sweepStrandedFires :: "cron_store \<Rightarrow> time \<Rightarrow> cron_store \<times> nat" where
  "sweepStrandedFires st now =
     (let (fires, n) = sweepStranded (ct_fires st) now (ct_staleRunningMs st) STRANDED_FIRE_NOTE
      in (st\<lparr>ct_fires := fires\<rparr>, n))"

definition pruneFires :: "cron_store \<Rightarrow> time \<Rightarrow> cron_store \<times> nat" where
  "pruneFires st now =
     (let (fires, n) = pruneEnded (ct_fires st) (now - FIRE_RETENTION_MS) FIRE_RETENTION_KEEP_PER_CRON
      in (st\<lparr>ct_fires := fires\<rparr>, n))"

definition recordFire :: "cron_store \<Rightarrow> ident \<Rightarrow> fire_entry \<Rightarrow> cron_store" where
  "recordFire st i e = st\<lparr>ct_fires := record_fire (ct_fires st) i e\<rparr>"

definition backfill_cron :: "cron_store \<times> nat \<Rightarrow> ident \<times> cron \<Rightarrow> cron_store \<times> nat" where
  "backfill_cron = (\<lambda>(st, n) (i, c). case cr_fireLog c of
     None \<Rightarrow> (st, n)
   | Some es \<Rightarrow>
       let st1 = (if es \<noteq> [] then st\<lparr>ct_fires := backfill_fires (ct_fires st) i es\<rparr> else st)
       in (fst (merge_cron st1 i (\<lambda>c. c\<lparr>cr_fireLog := None\<rparr>)), n + length es))"

definition backfillFires :: "cron_store \<Rightarrow> cron_store \<times> nat" where
  "backfillFires st = foldl backfill_cron (st, 0) (mm_entries (ct_crons st))"

datatype note_outcome = NoteApplied | NoteSuperseded | NoteMissing

definition note_applies :: "fire_note \<Rightarrow> cron \<Rightarrow> bool" where
  "note_applies note c \<longleftrightarrow> \<not> (case cr_lastFireNote c of None \<Rightarrow> False | Some n \<Rightarrow> fn_at n > fn_at note)"

definition setFireNote :: "cron_store \<Rightarrow> ident \<Rightarrow> fire_note \<Rightarrow> cron_store \<times> note_outcome" where
  "setFireNote st i note = (case mm_get (ct_crons st) i of
     None \<Rightarrow> (st, NoteMissing)
   | Some c \<Rightarrow>
       (fst (merge_cron st i (\<lambda>c. if note_applies note c then c\<lparr>cr_lastFireNote := Some note\<rparr> else c)),
        if note_applies note c then NoteApplied else NoteSuperseded))"

subsection \<open>Slots\<close>

definition markFired ::
  "cron_calendar \<Rightarrow> cron_store \<Rightarrow> ident \<Rightarrow> time \<Rightarrow> time option \<Rightarrow> cron_error + cron_store" where
  "markFired cal st i t scheduledAt = (case mm_get (ct_crons st) i of
     None \<Rightarrow> Inr st
   | Some c \<Rightarrow>
       bind_r (advanceNextFireAt cal (cr_schedule c)
           (if isCalendarSchedule (cr_schedule c) then or_else scheduledAt t else t))
         (\<lambda>next. Inr (fst (merge_cron st i (\<lambda>c.
            c\<lparr>tb_lastFiredAt := Some t, cr_nextFireAt := next, cr_deferUntil := None\<rparr>)))))"

definition next_slot :: "cron_calendar \<Rightarrow> cron \<Rightarrow> cron_error + time option" where
  "next_slot cal c = recoverNextFireAt cal (cr_schedule c) (tb_createdAt c) (tb_lastFiredAt c) (cr_nextFireAt c)"

text \<open>The transformation of the cron and whether it claimed the slot; an error leaves the store.\<close>

definition claim_transform :: "cron_calendar \<Rightarrow> time \<Rightarrow> time \<Rightarrow> cron \<Rightarrow> cron_error + (cron \<times> bool)" where
  "claim_transform cal scheduledAt t c =
     (if cr_archived c \<or> \<not> tb_enabled c then Inr (c, False)
      else bind_r (next_slot cal c) (\<lambda>slot.
        if slot \<noteq> Some scheduledAt then Inr (c, False)
        else bind_r (advanceNextFireAt cal (cr_schedule c)
                (if isCalendarSchedule (cr_schedule c) then scheduledAt else t))
          (\<lambda>next. Inr (c\<lparr>tb_lastFiredAt := Some t, cr_nextFireAt := next, cr_deferUntil := None\<rparr>, True))))"

definition claimSlot ::
  "cron_calendar \<Rightarrow> cron_store \<Rightarrow> ident \<Rightarrow> time \<Rightarrow> time \<Rightarrow> cron_error + (cron_store \<times> bool)" where
  "claimSlot cal st i scheduledAt t = (case mm_get (ct_crons st) i of
     None \<Rightarrow> Inr (st, False)
   | Some c \<Rightarrow> bind_r (claim_transform cal scheduledAt t c)
       (\<lambda>(c', claimed). Inr (fst (merge_cron st i (\<lambda>_. c')), claimed)))"

definition unclaimSlot :: "cron_store \<Rightarrow> ident \<Rightarrow> time \<Rightarrow> time \<Rightarrow> time option \<Rightarrow> cron_store" where
  "unclaimSlot st i scheduledAt t priorLastFiredAt = fst (merge_cron st i (\<lambda>c.
     if tb_lastFiredAt c \<noteq> Some t then c
     else c\<lparr>tb_lastFiredAt := priorLastFiredAt, cr_nextFireAt := Some scheduledAt\<rparr>))"

definition markAttempted :: "cron_store \<Rightarrow> ident \<Rightarrow> time \<Rightarrow> cron_store" where
  "markAttempted st i t = fst (merge_cron st i (\<lambda>c. c\<lparr>cr_lastAttemptAt := Some t\<rparr>))"

definition defer_cron :: "cron_store \<Rightarrow> ident \<Rightarrow> time \<Rightarrow> cron_store" where
  "defer_cron st i until = fst (merge_cron st i (\<lambda>c. c\<lparr>cr_deferUntil := Some until\<rparr>))"

fun due_loop :: "cron_calendar \<Rightarrow> time \<Rightarrow> cron list \<Rightarrow> cron_error + (cron \<times> time) list" where
  "due_loop cal now [] = Inr []"
| "due_loop cal now (c # cs) =
     (if cr_archived c \<or> \<not> tb_enabled c \<or> isDeferred c now then due_loop cal now cs
      else bind_r (next_slot cal c) (\<lambda>slot. bind_r (due_loop cal now cs) (\<lambda>rest.
        Inr (case slot of
               Some s \<Rightarrow> if now \<ge> s then (c\<lparr>cr_nextFireAt := Some s\<rparr>, s) # rest else rest
             | None \<Rightarrow> rest))))"

definition due_crons :: "cron_calendar \<Rightarrow> cron_store \<Rightarrow> time \<Rightarrow> cron_error + (cron \<times> time) list" where
  "due_crons cal st now = due_loop cal now (mm_all (ct_crons st))"

end
