(* ===== verification/CronProps.thy ===== *)
theory CronProps
  imports CronStore
begin

section \<open>What crons guarantee\<close>













lemma merge_cron_get:
  "mm_get (ct_crons (fst (merge_cron st j f))) i =
     (if i = j then map_option f (mm_get (ct_crons st) i) else mm_get (ct_crons st) i)"
  by (simp add: merge_cron_def mm_update_def mm_get_def split: option.split)

lemma merge_cron_fires [simp]: "ct_fires (fst (merge_cron st j f)) = ct_fires st"
  by (simp add: merge_cron_def split: prod.split)










lemma claimSlot_True:
  assumes "claimSlot cal st i s t = Inr (st', True)"
  obtains c c' where "mm_get (ct_crons st) i = Some c" "claim_transform cal s t c = Inr (c', True)"
    "st' = fst (merge_cron st i (\<lambda>_. c'))"
proof (cases "mm_get (ct_crons st) i")
  case (Some c)
  with assms that show ?thesis by (auto simp: claimSlot_def bind_r_Inr)
qed (use assms in \<open>simp add: claimSlot_def\<close>)



lemma unclaim_reopens:
  assumes "claimSlot cal st i s t = Inr (st1, True)" "safe_integer s"
    "\<And>u c. mm_get (ct_crons st) i = Some c \<Longrightarrow>
       \<exists>n. advanceNextFireAt cal (cr_schedule c) (if isCalendarSchedule (cr_schedule c) then s else u) = Inr n"
  shows "\<exists>st2. claimSlot cal (unclaimSlot st1 i s t prior) i s t' = Inr (st2, True)"
  using assms(1)
proof (rule claimSlot_True)
  fix c c'
  assume c: "mm_get (ct_crons st) i = Some c" and c': "claim_transform cal s t c = Inr (c', True)"
    and st1: "st1 = fst (merge_cron st i (\<lambda>_. c'))"
  from c' obtain m where on: "\<not> cr_archived c" "tb_enabled c"
    and m: "c' = c\<lparr>tb_lastFiredAt := Some t, cr_nextFireAt := m, cr_deferUntil := None\<rparr>"
    by (auto simp: claim_transform_def bind_r_Inr split: if_splits)
  define d where "d = c'\<lparr>tb_lastFiredAt := prior, cr_nextFireAt := Some s\<rparr>"
  have d: "mm_get (ct_crons (unclaimSlot st1 i s t prior)) i = Some d"
    using c st1 m by (simp add: unclaimSlot_def merge_cron_get d_def)
  from assms(3) [OF c] obtain n where
    "advanceNextFireAt cal (cr_schedule d) (if isCalendarSchedule (cr_schedule d) then s else t') = Inr n"
    by (auto simp: d_def m)
  with on d assms(2) show ?thesis
    by (simp add: claimSlot_def claim_transform_def next_slot_def recoverNextFireAt_def finiteEpochMs_def d_def m)
qed







end
