(* ===== verification/Tape.thy ===== *)
theory Tape
  imports Sessions
begin

section \<open>The tape of a model conversation\<close>

text \<open>
  The tape keeps the messages a model saw (\<open>src/src/harness/tape-fold.ts\<close>): folding its rows back
  into the list of messages, answering the tool calls an interruption left open, the check of a
  folded list before it is served, and what an audience may get of it, with the notes about
  delivered files of \<open>src/src/core/attachments.ts\<close> and the entitlement of a principal of
  \<open>src/src/resolution/context-filter.ts\<close>.

  A message is a JSON value, as on the tape. A dash or an ellipsis beyond Latin-1 in a constant text
  is written as one ASCII character. The messages of an event and the text of a compaction have the
  types the code declares for them.
\<close>

subsection \<open>JSON values read without types\<close>

text \<open>\<open>Array.isArray(v)\<close>, and the truth value of anything.\<close>

definition jarray :: "json option \<Rightarrow> json list option" where
  "jarray v = (case v of Some (JArr vs) \<Rightarrow> Some vs | _ \<Rightarrow> None)"

definition jtruthy :: "json \<Rightarrow> bool" where
  "jtruthy v = (case v of
     JNull \<Rightarrow> False | JBool b \<Rightarrow> b | JNum n \<Rightarrow> n \<noteq> 0 | JStr s \<Rightarrow> s \<noteq> [] | JArr _ \<Rightarrow> True | JObj _ \<Rightarrow> True)"

definition has_str :: "json \<Rightarrow> string \<Rightarrow> string \<Rightarrow> bool" where
  "has_str v k s \<longleftrightarrow> jfield v k = Some (JStr s)"

definition is_true :: "json \<Rightarrow> string \<Rightarrow> bool" where
  "is_true v k \<longleftrightarrow> jfield v k = Some (JBool True)"

definition content_of :: "json \<Rightarrow> json list option" where
  "content_of m = jarray (jfield m ''content'')"

definition text_block :: "string \<Rightarrow> json" where
  "text_block s = JObj [(''type'', JStr ''text''), (''text'', JStr s)]"

definition set_content :: "json \<Rightarrow> json list \<Rightarrow> json" where
  "set_content m blocks = (case m of JObj fs \<Rightarrow> JObj (jset fs ''content'' (JArr blocks)) | v \<Rightarrow> v)"

subsection \<open>Notes about delivered files\<close>

definition DELIVERY_NOTE_PREFIX :: string where
  "DELIVERY_NOTE_PREFIX = ''[files delivered to the conversation: ''"

text \<open>\<open>s.replace(/\s+/g, " ")\<close>; the flag says that the character before was white space.\<close>

definition deliveryNote :: "string \<Rightarrow> string" where
  "deliveryNote manifest = DELIVERY_NOTE_PREFIX @ js_trim (collapse_spaces manifest) @ '']''"

definition newline :: char where
  "newline = char_of (10 :: nat)"

definition isDeliveryNote :: "string \<Rightarrow> bool" where
  "isDeliveryNote text =
     (let t = js_trim text
      in startsWith t DELIVERY_NOTE_PREFIX \<and> (t \<noteq> [] \<and> last t = CHR '']'') \<and> newline \<notin> set t)"

definition deliveryNoteManifest :: "string \<Rightarrow> string option" where
  "deliveryNoteManifest text =
     (if \<not> isDeliveryNote text then None
      else Some (butlast (drop (length DELIVERY_NOTE_PREFIX) (js_trim text))))"

definition LEGACY_NOTE_PREFIX :: string where
  "LEGACY_NOTE_PREFIX = ''(delivered file(s) to the conversation: ''"

definition legacyDeliveryNoteManifest :: "string \<Rightarrow> string option" where
  "legacyDeliveryNoteManifest text =
     (let t = js_trim text; rest = drop (length LEGACY_NOTE_PREFIX) t
      in if startsWith t LEGACY_NOTE_PREFIX \<and> rest \<noteq> [] \<and> last rest = CHR '')'' \<and>
            newline \<notin> set (butlast rest)
         then Some (butlast rest) else None)"

subsection \<open>Entitlement\<close>

record principal =
  pr_id :: string
  pr_teamIds :: "string list option"

definition principalEntitledToScope :: "principal \<Rightarrow> scope_id \<Rightarrow> scope_id \<Rightarrow> scope_id \<Rightarrow> bool" where
  "principalEntitledToScope p label sessionScopeId orgScopeId =
     (if label = orgScopeId then True
      else if label = sessionScopeId then True
      else let (kind, ref) = parseScopeId label
           in if kind = Some SkPersonal then pr_id p = ref
              else if kind = Some SkTeam then ref \<in> set (or_else (pr_teamIds p) [])
              else False)"

definition entitled_all :: "principal list \<Rightarrow> scope_id \<Rightarrow> scope_id \<Rightarrow> scope_id \<Rightarrow> bool" where
  "entitled_all audience sessionScopeId orgScopeId label =
     list_all (\<lambda>p. principalEntitledToScope p label sessionScopeId orgScopeId) audience"

definition filterHistoryForAudience ::
  "session_entry list \<Rightarrow> principal list \<Rightarrow> scope_id \<Rightarrow> scope_id \<Rightarrow> session_entry list" where
  "filterHistoryForAudience entries audience sessionScopeId orgScopeId =
     (if audience = [] then []
      else filter (\<lambda>e. entitled_all audience sessionScopeId orgScopeId (en_scopeLabel e)) entries)"

subsection \<open>Events and the audience\<close>

definition INTERRUPTED_TOOL_RESULT :: string where
  "INTERRUPTED_TOOL_RESULT = ''[interrupted - the platform restarted while this tool call was running and its outcome was not recorded. Check what actually happened before redoing anything with side effects.]''"

definition CONTEXT_SUMMARY_HEADER :: string where
  "CONTEXT_SUMMARY_HEADER = ''[Earlier conversation summary - an index of turns compacted out of your context. The full transcript is still stored: reopen any type#seq it cites with the history tool (seq parameter; a very long entry returns as head and tail), or search it (query).]''"

definition tool_result_msg :: "string \<Rightarrow> json \<Rightarrow> string \<Rightarrow> bool \<Rightarrow> time \<Rightarrow> json" where
  "tool_result_msg callId name text isError t =
     JObj [(''role'', JStr ''toolResult''), (''toolCallId'', JStr callId), (''toolName'', name),
       (''content'', JArr [text_block text]), (''isError'', JBool isError), (''timestamp'', JNum t)]"

definition user_msg :: "string list \<Rightarrow> json \<Rightarrow> json" where
  "user_msg texts t =
     JObj [(''role'', JStr ''user''), (''content'', JArr (map text_block texts)), (''timestamp'', t)]"

text \<open>The stub that stands for a tool result the audience may not read.\<close>

definition audience_stub :: "tape_record \<Rightarrow> tape_record option" where
  "audience_stub r =
     (case jstring (jfield (tp_payload r) ''toolCallId'') of
        Some i \<Rightarrow>
          if has_str (tp_payload r) ''role'' ''toolResult'' then
            Some (r\<lparr>tp_payload := tool_result_msg i
                (JStr (or_else (jstring (jfield (tp_payload r) ''toolName'')) ''tool''))
                INTERRUPTED_TOOL_RESULT True (tp_createdAt r)\<rparr>)
          else None
      | None \<Rightarrow> None)"

definition audience_row :: "principal list \<Rightarrow> scope_id \<Rightarrow> scope_id \<Rightarrow> tape_record \<Rightarrow> tape_record option" where
  "audience_row audience sessionScopeId orgScopeId r =
     (if tp_kind r \<noteq> TkMessage \<or> entitled_all audience sessionScopeId orgScopeId (tp_scopeLabel r)
      then Some r else audience_stub r)"

definition filterTapeForAudience ::
  "tape_record list \<Rightarrow> principal list \<Rightarrow> scope_id \<Rightarrow> scope_id \<Rightarrow> tape_record list" where
  "filterTapeForAudience rows audience sessionScopeId orgScopeId =
     (if audience = [] then []
      else List.map_filter (audience_row audience sessionScopeId orgScopeId) rows)"

datatype tape_event = EvCompaction | EvLegacyImport | EvLegacyPatch | EvInterrupt

definition contextEvent :: "tape_record \<Rightarrow> tape_event option" where
  "contextEvent row =
     (if tp_kind row \<noteq> TkContextEvent then None
      else if has_str (tp_payload row) ''event'' ''compaction'' then Some EvCompaction
      else if has_str (tp_payload row) ''event'' ''legacy_import'' then Some EvLegacyImport
      else if has_str (tp_payload row) ''event'' ''legacy_patch'' then Some EvLegacyPatch
      else if has_str (tp_payload row) ''event'' ''interrupt'' then Some EvInterrupt
      else None)"

text \<open>\<open>findLast\<close> and \<open>findLastIndex\<close>.\<close>

definition find_last :: "('a \<Rightarrow> bool) \<Rightarrow> 'a list \<Rightarrow> 'a option" where
  "find_last p xs = find p (rev xs)"

definition find_last_index :: "('a \<Rightarrow> bool) \<Rightarrow> 'a list \<Rightarrow> nat option" where
  "find_last_index p xs = map_option (\<lambda>i. length xs - 1 - i) (findIndex p (rev xs))"

definition lastImportLacksScopes :: "tape_record list \<Rightarrow> bool" where
  "lastImportLacksScopes rows =
     (case find_last (\<lambda>r. contextEvent r = Some EvLegacyImport) rows of
        None \<Rightarrow> False
      | Some r \<Rightarrow> jarray (jfield (tp_payload r) ''scopes'') = None)"

definition event_entitled :: "(scope_id \<Rightarrow> bool) \<Rightarrow> tape_record \<Rightarrow> bool" where
  "event_entitled entitled r =
     (case contextEvent r of
        None \<Rightarrow> True
      | Some ev \<Rightarrow>
          if ev = EvInterrupt then True
          else if \<not> entitled (tp_scopeLabel r) then False
          else if ev = EvLegacyImport \<or> ev = EvLegacyPatch then
            (case jarray (jfield (tp_payload r) ''scopes'') of
               None \<Rightarrow> False
             | Some scopes \<Rightarrow>
                 list_all (\<lambda>s. case s of JStr i \<Rightarrow> entitled i | _ \<Rightarrow> False) scopes)
          else True)"

definition tapeEventsEntitled ::
  "tape_record list \<Rightarrow> principal list \<Rightarrow> scope_id \<Rightarrow> scope_id \<Rightarrow> bool" where
  "tapeEventsEntitled rows audience sessionScopeId orgScopeId =
     (if audience = [] then False
      else
        let entitled = entitled_all audience sessionScopeId orgScopeId;
            lastImport = find_last_index (\<lambda>r. contextEvent r = Some EvLegacyImport) rows
        in list_all (\<lambda>(i, r). (case lastImport of Some k \<Rightarrow> i < k | None \<Rightarrow> False) \<or>
              event_entitled entitled r) (enumerate 0 rows))"

end
