(* ===== verification/TapeFold.thy ===== *)
theory TapeFold
  imports Tape
begin

section \<open>Folding a tape, and checking the fold\<close>

text \<open>
  The second half of \<open>src/src/harness/tape-fold.ts\<close>: the images of a folded conversation are read
  back within a budget of bytes, newest first; the rows of a tape fold into the messages of the
  model; an interruption answers the tool calls left open; and a list of messages is checked before
  it is served as a seed.
\<close>

subsection \<open>Reading images back\<close>

record tape_image =
  ti_data :: string
  ti_mimeType :: string
  ti_sizeBytes :: int

datatype load_result = Absent | OverBudget | Loaded tape_image

definition ELIDED_IMAGE_TEXT :: string where
  "ELIDED_IMAGE_TEXT = ''[image removed: this conversation's images no longer fit the model's request-size limit; ask for it to be re-shared if needed]''"

definition isStripped :: "json \<Rightarrow> bool" where
  "isStripped b \<longleftrightarrow> has_str b ''type'' ''image'' \<and> jstring (jfield b ''data'') = None \<and>
     jstring (jfield b ''artifactRef'') \<noteq> None"

definition isOmitted :: "json \<Rightarrow> bool" where
  "isOmitted b \<longleftrightarrow> has_str b ''type'' ''image'' \<and> jstring (jfield b ''data'') = None \<and>
     jstring (jfield b ''artifactRef'') = None \<and> is_true b ''omitted''"

text \<open>The blocks of the messages with their positions, in order.\<close>

definition block_positions :: "json list \<Rightarrow> ((nat \<times> nat) \<times> json) list" where
  "block_positions messages =
     concat (map (\<lambda>(msg, m). map (\<lambda>(block, b). ((msg, block), b)) (enumerate 0 (or_else (content_of m) [])))
       (enumerate 0 messages))"

definition image_block :: "json \<Rightarrow> tape_image \<Rightarrow> json" where
  "image_block b img = (case b of
     JObj fs \<Rightarrow> JObj (jset (jset (jdel (jdel fs ''artifactRef'') ''omitted'') ''data'' (JStr (ti_data img)))
                  ''mimeType'' (JStr (ti_mimeType img)))
   | v \<Rightarrow> v)"

record image_pass =
  ip_cached :: "(string, load_result) jmap"
  ip_remaining :: int
  ip_replacements :: "(nat \<times> nat, json) jmap"

text \<open>
  One candidate: nothing is loaded once the budget is spent, and a reference is loaded once; \<open>load\<close>
  is the awaited reader of artifacts.
\<close>

definition load_image ::
  "(string \<Rightarrow> int \<Rightarrow> load_result) \<Rightarrow> image_pass \<Rightarrow> string \<Rightarrow> (string, load_result) jmap \<times> load_result" where
  "load_image load st ref =
     (if ip_remaining st \<le> 0 then (ip_cached st, Absent)
      else case jget (ip_cached st) ref of
        Some r \<Rightarrow> (ip_cached st, r)
      | None \<Rightarrow>
          let r = load ref (ip_remaining st) in (jset (ip_cached st) ref r, r))"

definition place_image :: "image_pass \<Rightarrow> nat \<times> nat \<Rightarrow> json \<Rightarrow> load_result \<Rightarrow> image_pass" where
  "place_image st pos b loaded =
     (let elide = st\<lparr>ip_replacements := jset (ip_replacements st) pos (text_block ELIDED_IMAGE_TEXT)\<rparr> in
      case loaded of
        Loaded img \<Rightarrow>
          if ti_sizeBytes img > 0 \<and> ti_sizeBytes img \<le> ip_remaining st \<and>
             jfield b ''mimeType'' = Some (JStr (ti_mimeType img)) then
            st\<lparr>ip_remaining := ip_remaining st - ti_sizeBytes img,
               ip_replacements := jset (ip_replacements st) pos (image_block b img)\<rparr>
          else if ti_sizeBytes img > ip_remaining st then elide
          else st
      | OverBudget \<Rightarrow> elide
      | Absent \<Rightarrow> if ip_remaining st \<le> 0 then elide else st)"

definition rehydrate_one ::
  "(string \<Rightarrow> int \<Rightarrow> load_result) \<Rightarrow> image_pass \<Rightarrow> (nat \<times> nat) \<times> json \<Rightarrow> image_pass" where
  "rehydrate_one load st c =
     (let (pos, b) = c;
          (cached, loaded) = load_image load st (or_else (jstring (jfield b ''artifactRef'')) [])
      in place_image (st\<lparr>ip_cached := cached\<rparr>) pos b loaded)"

definition apply_replacements :: "(nat \<times> nat, json) jmap \<Rightarrow> nat \<Rightarrow> json \<Rightarrow> json" where
  "apply_replacements reps msg m = (case content_of m of
     None \<Rightarrow> m
   | Some blocks \<Rightarrow>
       if list_ex (\<lambda>i. jget reps (msg, i) \<noteq> None) [0 ..< length blocks]
       then set_content m (map (\<lambda>(i, b). or_else (jget reps (msg, i)) b) (enumerate 0 blocks))
       else m)"

definition image_candidates :: "json list \<Rightarrow> ((nat \<times> nat) \<times> json) list" where
  "image_candidates messages = filter (\<lambda>(_, b). isStripped b) (block_positions messages)"

definition omitted_images :: "json list \<Rightarrow> (nat \<times> nat, json) jmap" where
  "omitted_images messages =
     map (\<lambda>(pos, _). (pos, text_block ELIDED_IMAGE_TEXT))
       (filter (\<lambda>(_, b). \<not> isStripped b \<and> isOmitted b) (block_positions messages))"

definition rehydrate_pass ::
  "json list \<Rightarrow> (string \<Rightarrow> int \<Rightarrow> load_result) \<Rightarrow> int \<Rightarrow> image_pass" where
  "rehydrate_pass messages load maxBytes =
     foldl (rehydrate_one load)
       \<lparr>ip_cached = [], ip_remaining = maxBytes, ip_replacements = omitted_images messages\<rparr>
       (rev (image_candidates messages))"

definition rehydrateFoldImages ::
  "json list \<Rightarrow> (string \<Rightarrow> int \<Rightarrow> load_result) \<Rightarrow> int \<Rightarrow> json list" where
  "rehydrateFoldImages messages load maxBytes =
     (if image_candidates messages = [] \<and> omitted_images messages = [] then messages
      else map (\<lambda>(msg, m). apply_replacements (ip_replacements (rehydrate_pass messages load maxBytes)) msg m)
        (enumerate 0 messages))"

subsection \<open>Open tool calls\<close>

definition assistantDroppedAtReplay :: "json \<Rightarrow> bool" where
  "assistantDroppedAtReplay m \<longleftrightarrow> has_str m ''role'' ''assistant'' \<and>
     (has_str m ''stopReason'' ''aborted'' \<or> has_str m ''stopReason'' ''error'')"

text \<open>The identifier of a tool call, and the calls of a message with their names.\<close>

definition call_id :: "json \<Rightarrow> string option" where
  "call_id b = (if has_str b ''type'' ''toolCall'' then jstring (jfield b ''id'') else None)"

definition call_name :: "json \<Rightarrow> json" where
  "call_name b = (case jfield b ''name'' of None \<Rightarrow> JStr ''tool'' | Some JNull \<Rightarrow> JStr ''tool'' | Some n \<Rightarrow> n)"

definition result_id :: "json \<Rightarrow> string option" where
  "result_id m = (if has_str m ''role'' ''toolResult'' then jstring (jfield m ''toolCallId'') else None)"

definition assistant_blocks :: "json \<Rightarrow> json list" where
  "assistant_blocks m = (if has_str m ''role'' ''assistant'' then or_else (content_of m) [] else [])"

definition live_calls :: "json \<Rightarrow> (string \<times> json) list" where
  "live_calls m =
     (if assistantDroppedAtReplay m then []
      else List.map_filter (\<lambda>b. map_option (\<lambda>i. (i, call_name b)) (call_id b)) (assistant_blocks m))"

definition missing_calls :: "json list \<Rightarrow> (string \<times> json) list" where
  "missing_calls out =
     (let answered = List.map_filter result_id out
      in filter (\<lambda>(i, _). i \<notin> set answered) (concat (map live_calls out)))"

definition healDanglingCalls :: "json list \<Rightarrow> time \<Rightarrow> json list" where
  "healDanglingCalls out t =
     out @ map (\<lambda>(i, name). tool_result_msg i name INTERRUPTED_TOOL_RESULT True t) (missing_calls out)"

definition healFoldInterrupt :: "json list \<Rightarrow> time \<Rightarrow> json list" where
  "healFoldInterrupt messages t = healDanglingCalls messages t"

subsection \<open>The voice of legacy assistants\<close>

definition LEGACY_CONTINUATION_LINE :: string where
  "LEGACY_CONTINUATION_LINE = ''(continuing after the tool result above)''"

definition block_text :: "json \<Rightarrow> string option" where
  "block_text b = (if has_str b ''type'' ''text'' then jstring (jfield b ''text'') else None)"

definition is_continuation :: "json \<Rightarrow> bool" where
  "is_continuation b = (case block_text b of None \<Rightarrow> False | Some t \<Rightarrow> js_trim t = LEGACY_CONTINUATION_LINE)"

definition block_manifest :: "json \<Rightarrow> string option" where
  "block_manifest b = Option.bind (block_text b) legacyDeliveryNoteManifest"

definition heal_voice :: "json \<Rightarrow> json list" where
  "heal_voice m =
     (case (if has_str m ''role'' ''assistant'' then content_of m else None) of
        None \<Rightarrow> [m]
      | Some blocks \<Rightarrow>
          let rest = filter (\<lambda>b. \<not> is_continuation b) blocks;
              manifests = List.map_filter block_manifest rest;
              kept = filter (\<lambda>b. block_manifest b = None) rest
          in if manifests = [] \<and> \<not> list_ex is_continuation blocks then [m]
             else (if kept \<noteq> [] then [set_content m kept] else []) @
               (if manifests \<noteq> []
                then [user_msg (map deliveryNote manifests)
                   (case jfield m ''timestamp'' of None \<Rightarrow> JNum 0 | Some JNull \<Rightarrow> JNum 0 | Some t \<Rightarrow> t)]
                else []))"

definition healLegacyAssistantVoice :: "json list \<Rightarrow> json list" where
  "healLegacyAssistantVoice messages = concat (map heal_voice messages)"

subsection \<open>The fold\<close>

record foldable =
  fo_out :: "json list"
  fo_boundaries :: "(nat \<times> int) list"

definition event_messages :: "tape_record \<Rightarrow> json list" where
  "event_messages row = or_else (jarray (jfield (tp_payload row) ''messages'')) []"

definition summary_text :: "tape_record \<Rightarrow> string" where
  "summary_text row =
     CONTEXT_SUMMARY_HEADER @ [newline] @ or_else (jstring (jfield (tp_payload row) ''text'')) ''undefined''"

definition fold_cut :: "foldable \<Rightarrow> tape_record \<Rightarrow> (nat \<times> int) option" where
  "fold_cut f row = Option.bind (tp_coversEntrySeq row)
     (\<lambda>c. find_last (\<lambda>b. snd b \<le> c) (fo_boundaries f))"

definition fold_compaction :: "foldable \<Rightarrow> tape_record \<Rightarrow> foldable" where
  "fold_compaction f row =
     (let cut = fold_cut f row;
          kept = (case cut of Some b \<Rightarrow> drop (fst b) (fo_out f) | None \<Rightarrow> fo_out f)
      in \<lparr>fo_out = user_msg [summary_text row] (JNum (tp_createdAt row)) # kept,
          fo_boundaries = (case cut of
             Some c \<Rightarrow> map (\<lambda>b. (fst b - fst c + 1, snd b)) (filter (\<lambda>b. fst b \<ge> fst c) (fo_boundaries f))
           | None \<Rightarrow> map (\<lambda>b. (fst b + 1, snd b)) (fo_boundaries f))\<rparr>)"

definition add_boundary :: "foldable \<Rightarrow> int option \<Rightarrow> foldable" where
  "add_boundary f sq = (case sq of
     None \<Rightarrow> f | Some n \<Rightarrow> f\<lparr>fo_boundaries := fo_boundaries f @ [(length (fo_out f), n)]\<rparr>)"

definition fold_row :: "foldable \<Rightarrow> tape_record \<Rightarrow> foldable" where
  "fold_row f row =
     (if tp_kind row = TkAnnotation then
        (if is_true (tp_payload row) ''turnEnd'' then add_boundary f (tp_entrySeq row) else f)
      else case contextEvent row of
        Some EvLegacyImport \<Rightarrow>
          add_boundary \<lparr>fo_out = healLegacyAssistantVoice (event_messages row), fo_boundaries = []\<rparr>
            (tp_coversEntrySeq row)
      | Some EvLegacyPatch \<Rightarrow>
          add_boundary (f\<lparr>fo_out := fo_out f @ healLegacyAssistantVoice (event_messages row)\<rparr>)
            (tp_coversEntrySeq row)
      | Some EvCompaction \<Rightarrow> fold_compaction f row
      | Some EvInterrupt \<Rightarrow> f\<lparr>fo_out := healDanglingCalls (fo_out f) (tp_createdAt row)\<rparr>
      | None \<Rightarrow>
          if tp_kind row = TkMessage \<and> tp_payload row \<noteq> JNull
          then f\<lparr>fo_out := fo_out f @ [tp_payload row]\<rparr> else f)"

definition foldTape :: "tape_record list \<Rightarrow> json list" where
  "foldTape rows = fo_out (foldl fold_row \<lparr>fo_out = [], fo_boundaries = []\<rparr> rows)"

subsection \<open>The check of a fold\<close>

text \<open>The problems by constructor; the texts of all but the last start with a number sign.\<close>

datatype lint_problem =
    FirstNotUser "json option"
  | UnknownRole nat "json option"
  | ImageWithoutBytes nat
  | DuplicateCall nat string
  | OrphanResult nat "json option"
  | UserWhileOpen nat nat
  | DanglingAtEnd nat

record lint_state =
  li_open :: "string list"
  li_seen :: "string list"
  li_problems :: "lint_problem list"

definition lint_call :: "nat \<Rightarrow> bool \<Rightarrow> lint_state \<Rightarrow> json \<Rightarrow> lint_state" where
  "lint_call i dropped st b = (case call_id b of
     None \<Rightarrow> st
   | Some c \<Rightarrow>
       st\<lparr>li_problems := li_problems st @ (if c \<in> set (li_seen st) then [DuplicateCall i c] else []),
          li_seen := sadd (li_seen st) c,
          li_open := (if dropped then li_open st else sadd (li_open st) c)\<rparr>)"

definition lint_images :: "nat \<Rightarrow> json \<Rightarrow> lint_problem list" where
  "lint_images i m =
     map (\<lambda>_. ImageWithoutBytes i)
       (filter (\<lambda>b. has_str b ''type'' ''image'' \<and> jstring (jfield b ''data'') = None)
         (or_else (content_of m) []))"

definition known_role :: "json \<Rightarrow> bool" where
  "known_role m \<longleftrightarrow> has_str m ''role'' ''user'' \<or> has_str m ''role'' ''assistant'' \<or>
     has_str m ''role'' ''toolResult''"

definition lint_message :: "lint_state \<Rightarrow> nat \<times> json \<Rightarrow> lint_state" where
  "lint_message st im =
     (let (i, m) = im in
      if \<not> known_role m then st\<lparr>li_problems := li_problems st @ [UnknownRole i (jfield m ''role'')]\<rparr>
      else
        let st1 = st\<lparr>li_problems := li_problems st @ lint_images i m\<rparr> in
        if has_str m ''role'' ''assistant'' \<and> content_of m \<noteq> None then
          foldl (lint_call i (assistantDroppedAtReplay m)) st1 (assistant_blocks m)
        else if has_str m ''role'' ''toolResult'' then
          (case jstring (jfield m ''toolCallId'') of
             Some c \<Rightarrow>
               if c \<in> set (li_open st1) then st1\<lparr>li_open := filter (\<lambda>x. x \<noteq> c) (li_open st1)\<rparr>
               else st1\<lparr>li_problems := li_problems st1 @ [OrphanResult i (jfield m ''toolCallId'')]\<rparr>
           | None \<Rightarrow> st1\<lparr>li_problems := li_problems st1 @ [OrphanResult i (jfield m ''toolCallId'')]\<rparr>)
        else if has_str m ''role'' ''user'' \<and> li_open st1 \<noteq> [] then
          st1\<lparr>li_problems := li_problems st1 @ [UserWhileOpen i (length (li_open st1))], li_open := []\<rparr>
        else st1)"

definition lint_first :: "json list \<Rightarrow> lint_problem list" where
  "lint_first messages = (case messages of
     [] \<Rightarrow> []
   | m # _ \<Rightarrow> if jtruthy m \<and> \<not> has_str m ''role'' ''user'' then [FirstNotUser (jfield m ''role'')] else [])"

definition lint_pass :: "json list \<Rightarrow> lint_state" where
  "lint_pass messages =
     foldl lint_message \<lparr>li_open = [], li_seen = [], li_problems = lint_first messages\<rparr>
       (enumerate 0 messages)"

text \<open>\<open>ok\<close> is that the list is empty.\<close>

definition lintFold :: "json list \<Rightarrow> lint_problem list" where
  "lintFold messages =
     (let st = lint_pass messages
      in li_problems st @ (if li_open st \<noteq> [] then [DanglingAtEnd (length (li_open st))] else []))"

definition at_end :: "lint_problem \<Rightarrow> bool" where
  "at_end p = (case p of DanglingAtEnd _ \<Rightarrow> True | _ \<Rightarrow> False)"

definition tapeNeedsInterruptHeal :: "tape_record list \<Rightarrow> json list option \<Rightarrow> bool" where
  "tapeNeedsInterruptHeal rows folded =
     (let problems = lintFold (or_else folded (foldTape rows))
      in problems \<noteq> [] \<and> list_all at_end problems)"

datatype seed_mode = Shadow | Serve

record seed_plan =
  sp_seed :: "json list option"
  sp_foreign :: bool
  sp_lint :: "lint_problem list option"
  sp_fold :: "json list option"

definition planTapeSeed ::
  "tape_record list \<Rightarrow> string \<Rightarrow> seed_mode option \<Rightarrow> json list option \<Rightarrow> seed_plan" where
  "planTapeSeed rows harness mode folded =
     (if list_ex (\<lambda>r. tp_kind r = TkMessage \<and> tp_harness r \<noteq> None \<and> tp_harness r \<noteq> Some harness) rows
      then \<lparr>sp_seed = None, sp_foreign = True, sp_lint = None, sp_fold = None\<rparr>
      else let fold = or_else folded (foldTape rows); lint = lintFold fold
           in \<lparr>sp_seed = (if mode = Some Serve \<and> lint = [] \<and> fold \<noteq> [] then Some fold else None),
               sp_foreign = False, sp_lint = Some lint, sp_fold = Some fold\<rparr>)"

end
