(* ===== verification/Compaction.thy ===== *)
theory Compaction
  imports Complex_Main Tape
begin

section \<open>Compacting the context of a model\<close>

text \<open>
  What a model gets of a session's log, and how the log is cut when it no longer fits
  (\<open>src/src/harness/context-compaction.ts\<close>). Counting the tokens of a text is a parameter
  \<open>tok\<close> (the library behind \<open>countTokens\<close>); the counts of entries are kept in a cache of the
  module, which is passed along. Fractions of a budget are exact rationals. Two entries of a log
  are the same object when they are equal.
\<close>

subsection \<open>Texts\<close>

definition show_int :: "int \<Rightarrow> string" where
  "show_int n = (if n < 0 then CHR ''-'' # show_nat (nat (- n)) else show_nat (nat n))"

definition join_with :: "string \<Rightarrow> string list \<Rightarrow> string" where
  "join_with sep xs = (case xs of [] \<Rightarrow> [] | y # ys \<Rightarrow> y @ concat (map (\<lambda>z. sep @ z) ys))"

definition hex_digit :: "nat \<Rightarrow> char" where
  "hex_digit d = char_of (if d < 10 then d + 48 else d + 87)"

definition json_char :: "char \<Rightarrow> string" where
  "json_char c =
     (let n = of_char c :: nat
      in if n = 34 then [char_of (92 :: nat), c]
         else if n = 92 then [c, c]
         else if n = 8 then [char_of (92 :: nat), CHR ''b'']
         else if n = 9 then [char_of (92 :: nat), CHR ''t'']
         else if n = 10 then [char_of (92 :: nat), CHR ''n'']
         else if n = 12 then [char_of (92 :: nat), CHR ''f'']
         else if n = 13 then [char_of (92 :: nat), CHR ''r'']
         else if n < 32 then char_of (92 :: nat) # ''u00'' @ [hex_digit (n div 16), hex_digit (n mod 16)]
         else [c])"

definition json_string :: "string \<Rightarrow> string" where
  "json_string s = char_of (34 :: nat) # concat (map json_char s) @ [char_of (34 :: nat)]"

text \<open>\<open>JSON.stringify\<close>, and \<open>String\<close>.\<close>

fun json_text :: "json \<Rightarrow> string" where
  "json_text JNull = ''null''"
| "json_text (JBool b) = (if b then ''true'' else ''false'')"
| "json_text (JNum n) = show_int n"
| "json_text (JStr s) = json_string s"
| "json_text (JArr vs) = CHR ''['' # join_with '','' (map json_text vs) @ '']''"
| "json_text (JObj fs) =
     CHR ''{'' # join_with '','' (map (\<lambda>(k, v). json_string k @ '':'' @ json_text v) fs) @ ''}''"

fun js_String :: "json \<Rightarrow> string" where
  "js_String JNull = ''null''"
| "js_String (JBool b) = (if b then ''true'' else ''false'')"
| "js_String (JNum n) = show_int n"
| "js_String (JStr s) = s"
| "js_String (JArr vs) = join_with '','' (map (\<lambda>v. if v = JNull then [] else js_String v) vs)"
| "js_String (JObj fs) = ''[object Object]''"

text \<open>\<open>String(payload?.text ?? "").trim()\<close>.\<close>

definition text_of :: "json \<Rightarrow> string" where
  "text_of v = js_trim (case jfield v ''text'' of None \<Rightarrow> [] | Some JNull \<Rightarrow> [] | Some t \<Rightarrow> js_String t)"

definition headSlice :: "string \<Rightarrow> int \<Rightarrow> string" where
  "headSlice s n = (if n \<le> 0 then [] else if int (length s) \<le> n then s else take (nat n) s)"

definition tailSlice :: "string \<Rightarrow> int \<Rightarrow> string" where
  "tailSlice s n = (if n \<le> 0 then [] else if int (length s) \<le> n then s else last_n (nat n) s)"

definition MAX_COMPACT_ENTRY_CHARS :: int where "MAX_COMPACT_ENTRY_CHARS = 16000"
definition COMPACT_ENTRY_TAIL_CHARS :: int where "COMPACT_ENTRY_TAIL_CHARS = 2000"
definition CHAINED_SUMMARY_PREFIX_HEADROOM :: int where "CHAINED_SUMMARY_PREFIX_HEADROOM = 1000"
definition FALLBACK_SUMMARY_BODY_CHARS :: int where "FALLBACK_SUMMARY_BODY_CHARS = 8000"
definition FALLBACK_SUMMARY_TAIL_CHARS :: int where "FALLBACK_SUMMARY_TAIL_CHARS = 6000"

definition truncation_notice :: "string \<Rightarrow> string" where
  "truncation_notice s = ''~[truncated - '' @ show_nat (length s) @ '' chars]~''"

definition headTailSlice :: "string \<Rightarrow> int \<Rightarrow> int \<Rightarrow> string" where
  "headTailSlice s maxChars tailChars =
     (if int (length s) \<le> maxChars then s
      else headSlice s (maxChars - tailChars - int (length (truncation_notice s))) @
        truncation_notice s @ tailSlice s tailChars)"

subsection \<open>What a model gets of a log\<close>

definition modelReplayable :: "session_entry list \<Rightarrow> session_entry list" where
  "modelReplayable entries = filter (\<lambda>e. en_type e \<noteq> EtThinking \<and> en_type e \<noteq> EtText \<and>
     en_type e \<noteq> EtSoul \<and> \<not> has_str (en_payload e) ''kind'' ''turn_failure'') entries"

definition is_summary :: "session_entry \<Rightarrow> bool" where
  "is_summary e \<longleftrightarrow> contextSummaryPayload e \<noteq> None"

definition summary_through :: "session_entry \<Rightarrow> int" where
  "summary_through e = (case contextSummaryPayload e of Some s \<Rightarrow> cs_throughSeq s | None \<Rightarrow> 0)"

definition forModelContext :: "bool \<Rightarrow> session_entry list \<Rightarrow> session_entry list" where
  "forModelContext includeSecurityTainted entries =
     (let replayable = modelReplayable entries;
          visible = filter (\<lambda>e. includeSecurityTainted \<or> \<not> entrySecurityTainted e) replayable
      in case find_last is_summary replayable of
           None \<Rightarrow> visible
         | Some latest \<Rightarrow>
             (if latest \<in> set visible then [latest] else []) @
             filter (\<lambda>e. \<not> is_summary e \<and> en_seq e > summary_through latest) visible)"

definition forSearchView :: "session_entry list \<Rightarrow> session_entry list" where
  "forSearchView entries =
     (let replayable = modelReplayable entries; latest = find_last is_summary replayable
      in filter (\<lambda>e. \<not> entrySecurityTainted e \<and> (\<not> is_summary e \<or> Some e = latest)) replayable)"

subsection \<open>Counting tokens\<close>

type_synonym token_cache = "(string, nat) jmap"

definition ENTRY_TOKEN_CACHE_MAX :: int where "ENTRY_TOKEN_CACHE_MAX = 50000"

definition entry_token_text :: "session_entry \<Rightarrow> string" where
  "entry_token_text e =
     (case jstring (jfield (en_payload e) ''text'') of
        Some t \<Rightarrow> join_with [newline, newline]
          (filter (\<lambda>s. s \<noteq> []) (t # (case jstring (jfield (en_payload e) ''environment'') of
             None \<Rightarrow> [] | Some v \<Rightarrow> [v])))
      | None \<Rightarrow> json_text (if en_payload e = JNull then JObj [] else en_payload e))"

definition token_key :: "session_entry \<Rightarrow> string" where
  "token_key e =
     en_sessionId e @ '':'' @ show_int (en_seq e) @ '':'' @ show_nat (length (entry_token_text e))"

definition estimateEntryTokens ::
  "(string \<Rightarrow> nat) \<Rightarrow> token_cache \<Rightarrow> session_entry \<Rightarrow> nat \<times> token_cache" where
  "estimateEntryTokens tok c e =
     (case jget c (token_key e) of
        Some n \<Rightarrow> (n, c)
      | None \<Rightarrow>
          let n = tok (entry_token_text e);
              c1 = (if int (length c) \<ge> ENTRY_TOKEN_CACHE_MAX then jdel c (fst (hd c)) else c)
          in (n, jset c1 (token_key e) n))"

fun estimate_loop ::
  "(string \<Rightarrow> nat) \<Rightarrow> token_cache \<Rightarrow> nat \<Rightarrow> session_entry list \<Rightarrow> nat \<times> token_cache" where
  "estimate_loop tok c acc [] = (acc, c)"
| "estimate_loop tok c acc (e # es) =
     (let (n, c1) = estimateEntryTokens tok c e in estimate_loop tok c1 (acc + n) es)"

definition estimateHistoryTokens ::
  "(string \<Rightarrow> nat) \<Rightarrow> token_cache \<Rightarrow> session_entry list \<Rightarrow> nat \<times> token_cache" where
  "estimateHistoryTokens tok c history = estimate_loop tok c 0 history"

text \<open>The loop from the last entry: the entries are given in reverse.\<close>

fun recent_loop ::
  "(string \<Rightarrow> nat) \<Rightarrow> token_cache \<Rightarrow> int \<Rightarrow> nat \<Rightarrow> nat \<Rightarrow> session_entry list \<Rightarrow> nat \<times> token_cache" where
  "recent_loop tok c maxTokens count tokens [] = (count, c)"
| "recent_loop tok c maxTokens count tokens (e # es) =
     (let (n, c1) = estimateEntryTokens tok c e
      in if count \<ge> 1 \<and> int (tokens + n) > maxTokens then (count, c1)
         else recent_loop tok c1 maxTokens (count + 1) (tokens + n) es)"

definition recentEntryCountWithinBudget ::
  "(string \<Rightarrow> nat) \<Rightarrow> token_cache \<Rightarrow> session_entry list \<Rightarrow> int \<Rightarrow> nat \<times> token_cache" where
  "recentEntryCountWithinBudget tok c history maxTokens = recent_loop tok c maxTokens 0 0 (rev history)"

definition overBudgetFraction ::
  "(string \<Rightarrow> nat) \<Rightarrow> token_cache \<Rightarrow> session_entry list \<Rightarrow> int \<Rightarrow> rat \<Rightarrow> bool \<times> token_cache" where
  "overBudgetFraction tok c history maxTokens fraction =
     (let (n, c1) = estimateHistoryTokens tok c history in (of_nat n > of_int maxTokens * fraction, c1))"

definition COMPACT_SOFT_FRACTION :: rat where "COMPACT_SOFT_FRACTION = 7 / 10"
definition COMPACT_HARD_FRACTION :: rat where "COMPACT_HARD_FRACTION = 9 / 10"

subsection \<open>The plan\<close>

record compaction_plan =
  pl_toSummarize :: "session_entry list"
  pl_kept :: "session_entry list"
  pl_reuse :: "session_entry option"

definition call_id_of :: "session_entry \<Rightarrow> string option" where
  "call_id_of e = (case jstring (jfield (en_payload e) ''callId'') of
     Some i \<Rightarrow> if i = [] then None else Some i | None \<Rightarrow> None)"

text \<open>A tool call whose result is not in the batch is moved out of it, from the end.\<close>

fun overflow_count :: "session_entry list \<Rightarrow> nat \<Rightarrow> nat" where
  "overflow_count es 0 = 0"
| "overflow_count es (Suc n) =
     (if en_type (es ! n) \<noteq> EtToolCall then Suc n
      else case call_id_of (es ! n) of
        None \<Rightarrow> Suc n
      | Some cid \<Rightarrow>
          if list_ex (\<lambda>e. en_type e = EtToolResult \<and> jfield (en_payload e) ''callId'' = Some (JStr cid))
               (take (Suc n) es)
          then Suc n else overflow_count es n)"

definition after_summary :: "session_entry list \<Rightarrow> session_entry option \<Rightarrow> session_entry list" where
  "after_summary history latest = filter (\<lambda>e. \<not> is_summary e \<and>
     (case latest of None \<Rightarrow> True | Some s \<Rightarrow> en_seq e > summary_through s)) history"

definition plan_overflow ::
  "(string \<Rightarrow> nat) \<Rightarrow> token_cache \<Rightarrow> session_entry list \<Rightarrow> session_entry option \<Rightarrow> int
     \<Rightarrow> compaction_plan option \<times> token_cache" where
  "plan_overflow tok c after latest keepRecentTokens =
     (let (keptCount, c1) = recentEntryCountWithinBudget tok c after keepRecentTokens;
          n = overflow_count after (length after - keptCount);
          overflow = take n after
      in (if overflow = [] then None
          else Some \<lparr>pl_toSummarize = (case latest of Some s \<Rightarrow> s # overflow | None \<Rightarrow> overflow),
                     pl_kept = drop n after, pl_reuse = None\<rparr>, c1))"

definition planCompaction ::
  "(string \<Rightarrow> nat) \<Rightarrow> token_cache \<Rightarrow> session_entry list \<Rightarrow> int \<Rightarrow> rat \<Rightarrow> int
     \<Rightarrow> compaction_plan option \<times> token_cache" where
  "planCompaction tok c history maxTokens keepRecentTokenFraction reuseBudgetTokens =
     (let latest = find_last is_summary history;
          after = after_summary history latest;
          keepRecentTokens = \<lfloor>of_int maxTokens * keepRecentTokenFraction\<rfloor>
      in case latest of
           None \<Rightarrow> plan_overflow tok c after None keepRecentTokens
         | Some s \<Rightarrow>
             let (n, c1) = estimateHistoryTokens tok c (s # after)
             in if int n \<le> reuseBudgetTokens
                then (Some \<lparr>pl_toSummarize = [], pl_kept = s # after, pl_reuse = Some s\<rparr>, c1)
                else plan_overflow tok c1 after (Some s) keepRecentTokens)"

definition compactionThroughSeq :: "session_entry list \<Rightarrow> int" where
  "compactionThroughSeq entries =
     foldl (\<lambda>m e. max m (if is_summary e then summary_through e else en_seq e)) (-1) entries"

subsection \<open>The transcript given to the summariser\<close>

text \<open>The date of a time, as \<open>toISOString\<close> writes its first sixteen characters up to the year 9999.\<close>

definition civil_from_days :: "int \<Rightarrow> int \<times> int \<times> int" where
  "civil_from_days days =
     (let z = days + 719468;
          era = z div 146097;
          doe = z - era * 146097;
          yoe = (doe - doe div 1460 + doe div 36524 - doe div 146096) div 365;
          doy = doe - (365 * yoe + yoe div 4 - yoe div 100);
          mp = (5 * doy + 2) div 153;
          d = doy - (153 * mp + 2) div 5 + 1;
          m = (if mp < 10 then mp + 3 else mp - 9)
      in (yoe + era * 400 + (if m \<le> 2 then 1 else 0), m, d))"

definition padded :: "nat \<Rightarrow> int \<Rightarrow> string" where
  "padded w n = (let s = show_int n in replicate (w - length s) CHR ''0'' @ s)"

definition iso_minute :: "time \<Rightarrow> string" where
  "iso_minute t =
     (let (y, m, d) = civil_from_days (t div 86400000); r = t mod 86400000
      in padded 4 y @ ''-'' @ padded 2 m @ ''-'' @ padded 2 d @ ''T'' @
         padded 2 (r div 3600000) @ '':'' @ padded 2 (r div 60000 mod 60))"

definition entryStamp :: "time \<Rightarrow> string" where
  "entryStamp t = (if t > 0 then '' '' @ iso_minute t @ ''Z'' else [])"

definition overheard_files :: "session_entry \<Rightarrow> string list" where
  "overheard_files e =
     (if isOverheardEntry e
      then filter (\<lambda>s. s \<noteq> []) (map js_String (or_else (jarray (jfield (en_payload e) ''files'')) []))
      else [])"

definition entry_author :: "session_entry \<Rightarrow> string option" where
  "entry_author e = (if en_type e \<noteq> EtUser then None
     else case jstring (jfield (en_payload e) ''name'') of Some n \<Rightarrow> if n = [] then None else Some n | None \<Rightarrow> None)"

definition transcript_label :: "session_entry \<Rightarrow> string" where
  "transcript_label e =
     (let numbered = ''#'' @ show_int (en_seq e) @ entryStamp (en_createdAt e)
      in if isOverheardEntry e then
           ''overheard'' @ numbered @ '' ('' @
             (if has_str (en_payload e) ''sourceRole'' ''agent'' then ''agent''
              else or_else (entry_author e) ''someone'') @ '')''
         else entry_type_name (en_type e) @ numbered @
           (case entry_author e of None \<Rightarrow> [] | Some a \<Rightarrow> '' ('' @ a @ '')''))"

definition transcript_line :: "session_entry \<Rightarrow> string option" where
  "transcript_line e =
     (case contextSummaryPayload e of
        Some s \<Rightarrow>
          let stamp = entryStamp (en_createdAt e)
          in Some (''Prior summary through seq '' @ show_int (cs_throughSeq s) @
            (if stamp \<noteq> [] then '' (written'' @ stamp @ '')'' else []) @ '': '' @ cs_text s)
      | None \<Rightarrow>
          let text = text_of (en_payload e); files = overheard_files e; label = transcript_label e in
          if text \<noteq> [] then
            Some (label @ '': '' @ text @
              (if files \<noteq> [] then '' (files: '' @ join_with '', '' files @ '')'' else []))
          else if files \<noteq> [] then
            Some (label @ '': (shared file) (files: '' @ join_with '', '' files @ '')'')
          else if \<not> isOverheardEntry e then
            Some (label @ '':'' @ (if is_true (en_payload e) ''isError'' then '' [isError]'' else []) @ '' '' @
              json_text (if en_payload e = JNull then JObj [] else en_payload e))
          else None)"

definition recorded_results :: "session_entry list \<Rightarrow> string list" where
  "recorded_results history =
     List.map_filter (\<lambda>e. if en_type e = EtToolResult then call_id_of e else None) history"

definition transcript_lines :: "session_entry list \<Rightarrow> session_entry \<Rightarrow> string list" where
  "transcript_lines history e =
     (case transcript_line e of None \<Rightarrow> []
      | Some l \<Rightarrow> [headTailSlice l MAX_COMPACT_ENTRY_CHARS COMPACT_ENTRY_TAIL_CHARS]) @
     (if en_type e = EtToolCall \<and> \<not> is_summary e then
        (case call_id_of e of
           None \<Rightarrow> []
         | Some cid \<Rightarrow>
             if cid \<in> set (recorded_results history) then []
             else [''tool_result for tool_call#'' @ show_int (en_seq e) @ '' (none recorded): '' @
                   INTERRUPTED_TOOL_RESULT])
      else [])"

definition compactTranscript :: "session_entry list \<Rightarrow> string" where
  "compactTranscript history = join_with [newline] (concat (map (transcript_lines history) history))"

definition deterministicCompactSummary :: "session_entry list \<Rightarrow> string" where
  "deterministicCompactSummary history =
     ''Compacted '' @ show_nat (length history) @ '' prior entr'' @
     (if length history = 1 then ''y'' else ''ies'') @ '' through seq '' @
     show_int (compactionThroughSeq history) @ ''.'' @ [newline] @
     headTailSlice (compactTranscript history) FALLBACK_SUMMARY_BODY_CHARS FALLBACK_SUMMARY_TAIL_CHARS"

definition MAX_COMPACT_SUMMARY_CHARS :: int where
  "MAX_COMPACT_SUMMARY_CHARS = MAX_COMPACT_ENTRY_CHARS - CHAINED_SUMMARY_PREFIX_HEADROOM"

datatype summary_error = EmptySummary | SummaryTooLong

definition validateCompactSummary :: "string option \<Rightarrow> summary_error + string" where
  "validateCompactSummary candidate =
     (case map_option js_trim candidate of
        None \<Rightarrow> Inl EmptySummary
      | Some text \<Rightarrow>
          if text = [] then Inl EmptySummary
          else if int (length text) > MAX_COMPACT_SUMMARY_CHARS then Inl SummaryTooLong
          else Inr text)"

end
