(* ===== verification/Projection.thy ===== *)
theory Projection
  imports TapeFold SessionStore
begin

section \<open>Projecting a tape back to the entries of a transcript\<close>

text \<open>
  \<open>src/src/harness/tape-projection.ts\<close>, with the readers of message content of
  \<open>src/src/harness/pi-harness.ts\<close>: the rows of a tape become drafts of entries, bounded by the
  annotations that end a turn; the drafts between two bounds fill exactly the numbers between them;
  and the source of transcripts reads the projection where it is complete and the log otherwise.

  The type of a mirrored entry is one of the types of entries. The reads of the store do not fail.
\<close>

subsection \<open>Content\<close>

definition textFromContent :: "json option \<Rightarrow> string" where
  "textFromContent content = (case content of
     Some (JStr s) \<Rightarrow> s
   | Some (JArr vs) \<Rightarrow> concat (map (\<lambda>c. or_else (jstring (jfield c ''text'')) [])
       (filter (\<lambda>c. has_str c ''type'' ''text'') vs))
   | _ \<Rightarrow> [])"

definition field_if :: "bool \<Rightarrow> string \<Rightarrow> json \<Rightarrow> (string \<times> json) list" where
  "field_if b k v = (if b then [(k, v)] else [])"

definition thinking_block :: "json \<Rightarrow> json option" where
  "thinking_block c =
     (if \<not> has_str c ''type'' ''thinking'' then None
      else
        let text = or_else (jstring (jfield c ''thinking'')) [];
            sig = or_else (jstring (jfield c ''thinkingSignature'')) [];
            signed = field_if (sig \<noteq> []) ''thinkingSignature'' (JStr sig)
        in if (case jfield c ''redacted'' of None \<Rightarrow> False | Some v \<Rightarrow> jtruthy v) then
             Some (JObj ([(''thinking'', JStr text), (''redacted'', JBool True)] @ signed))
           else if js_trim text \<noteq> [] then Some (JObj ((''thinking'', JStr text) # signed))
           else None)"

definition thinkingBlocksFromContent :: "json option \<Rightarrow> json list" where
  "thinkingBlocksFromContent content = List.map_filter thinking_block (or_else (jarray content) [])"

record tool_call_block =
  tc_id :: string
  tc_name :: string
  tc_arguments :: "(string \<times> json) list"

definition tool_call_block_of :: "json \<Rightarrow> tool_call_block option" where
  "tool_call_block_of b = map_option (\<lambda>i. \<lparr>tc_id = i,
     tc_name = or_else (jstring (jfield b ''name'')) ''tool'',
     tc_arguments = (case jfield b ''arguments'' of Some (JObj fs) \<Rightarrow> fs | _ \<Rightarrow> [])\<rparr>) (call_id b)"

definition toolCallBlocks :: "json option \<Rightarrow> tool_call_block list" where
  "toolCallBlocks content = List.map_filter tool_call_block_of (or_else (jarray content) [])"

subsection \<open>The slice that renders\<close>

definition contextEventName :: "tape_record \<Rightarrow> string option" where
  "contextEventName row =
     (if tp_kind row \<noteq> TkContextEvent then None else jstring (jfield (tp_payload row) ''event''))"

text \<open>The last import for rendering decides; \<open>i\<close> rows are left to look at.\<close>

fun render_slice :: "tape_record list \<Rightarrow> nat \<Rightarrow> tape_record list" where
  "render_slice rows 0 = rows"
| "render_slice rows (Suc i) =
     (if contextEventName (rows ! i) \<noteq> Some ''render_import'' then render_slice rows i
      else case jnumber (jfield (tp_payload (rows ! i)) ''firstTapeSeq'') of
        None \<Rightarrow> rows
      | Some firstTapeSeq \<Rightarrow>
          (case findIndex (\<lambda>r. int (tp_seq r) \<ge> firstTapeSeq) rows of
             None \<Rightarrow> rows
           | Some start \<Rightarrow> if start \<le> i then drop start rows else rows))"

definition renderableTapeSlice :: "tape_record list \<Rightarrow> tape_record list" where
  "renderableTapeSlice rows = render_slice rows (length rows)"

definition is_blocker :: "tape_record \<Rightarrow> bool" where
  "is_blocker row \<longleftrightarrow> contextEventName row = Some ''legacy_import'' \<or> contextEventName row = Some ''legacy_patch''"

definition tapeHasRenderBlockers :: "tape_record list \<Rightarrow> bool" where
  "tapeHasRenderBlockers rows = list_ex is_blocker (renderableTapeSlice rows)"

subsection \<open>Drafts\<close>

record draft_entry =
  dr_type :: entry_type
  dr_payload :: json
  dr_scopeLabel :: scope_id
  dr_createdAt :: time
  dr_exact :: "int option"
  dr_mirror :: bool

datatype draft_event = Item draft_entry | Bound int bool "int option" | Coarse

definition entryMirror :: "tape_record \<Rightarrow> draft_entry option" where
  "entryMirror row =
     (case (jfield (tp_payload row) ''entry'', tp_entrySeq row) of
        (Some mirrored, Some sq) \<Rightarrow>
          (case Option.bind (jstring (jfield mirrored ''type'')) entry_type_of of
             None \<Rightarrow> None
           | Some ty \<Rightarrow> Some \<lparr>dr_type = ty, dr_payload = or_else (jfield mirrored ''payload'') JNull,
               dr_scopeLabel = tp_scopeLabel row,
               dr_createdAt = or_else (jnumber (jfield mirrored ''at'')) (tp_createdAt row),
               dr_exact = Some sq, dr_mirror = True\<rparr>)
      | _ \<Rightarrow> None)"

datatype bound_annotation =
    NoBound | Unstamped
  | BoundAt (ba_seq: int) (ba_mirror: "draft_entry option") (ba_spanStart: "int option")

definition TAPE_RENDER_VERSION :: int where "TAPE_RENDER_VERSION = 1"

definition boundAnnotation :: "tape_record \<Rightarrow> bound_annotation" where
  "boundAnnotation row =
     (if tp_kind row \<noteq> TkAnnotation then NoBound
      else if \<not> is_true (tp_payload row) ''turnEnd'' \<and> \<not> is_true (tp_payload row) ''subturnEnd'' then NoBound
      else case tp_entrySeq row of
        None \<Rightarrow> Unstamped
      | Some sq \<Rightarrow>
          if jfield (tp_payload row) ''render'' \<noteq> Some (JNum TAPE_RENDER_VERSION) then Unstamped
          else BoundAt sq (entryMirror row) (jnumber (jfield (tp_payload row) ''spanStart'')))"

definition meta_field :: "tape_record \<Rightarrow> string \<Rightarrow> json option" where
  "meta_field row k = Option.bind (tp_meta row) (\<lambda>m. jfield m k)"

definition meta_true :: "tape_record \<Rightarrow> string \<Rightarrow> bool" where
  "meta_true row k = (case meta_field row k of None \<Rightarrow> False | Some v \<Rightarrow> jtruthy v)"

definition meta_copy :: "tape_record \<Rightarrow> string \<Rightarrow> string \<Rightarrow> (string \<times> json) list" where
  "meta_copy row k name = (case meta_field row k of
     None \<Rightarrow> [] | Some v \<Rightarrow> field_if (jtruthy v) name v)"

definition meta_files :: "tape_record \<Rightarrow> string \<Rightarrow> (string \<times> json) list" where
  "meta_files row name = (case jarray (meta_field row ''attachments'') of
     None \<Rightarrow> [] | Some vs \<Rightarrow> field_if (vs \<noteq> []) name (JArr vs))"

definition entry_created :: "tape_record \<Rightarrow> time" where
  "entry_created row = or_else (jnumber (meta_field row ''entryCreatedAt'')) (tp_createdAt row)"

definition message_text :: "tape_record \<Rightarrow> string" where
  "message_text row = textFromContent (jfield (tp_payload row) ''content'')"

definition draft_of :: "tape_record \<Rightarrow> entry_type \<Rightarrow> (string \<times> json) list \<Rightarrow> draft_entry" where
  "draft_of row ty fs = \<lparr>dr_type = ty, dr_payload = JObj fs, dr_scopeLabel = tp_scopeLabel row,
     dr_createdAt = entry_created row, dr_exact = tp_entrySeq row, dr_mirror = False\<rparr>"

definition bare_text :: "tape_record \<Rightarrow> json" where
  "bare_text row = (case meta_field row ''bareText'' of
     None \<Rightarrow> JStr (message_text row) | Some JNull \<Rightarrow> JStr (message_text row) | Some v \<Rightarrow> v)"

definition userDraft :: "tape_record \<Rightarrow> bool \<Rightarrow> draft_entry option" where
  "userDraft row isTrigger =
     (if meta_true row ''overheard'' then
        Some (draft_of row EtUser
          ([(''overheard'', JBool True)] @ meta_copy row ''sourceRole'' ''sourceRole'' @
           meta_copy row ''ts'' ''ts'' @ meta_copy row ''changeTime'' ''changeTime'' @
           meta_copy row ''author'' ''name'' @ [(''text'', bare_text row)] @ meta_files row ''files'' @
           field_if (meta_true row ''securityTainted'') ''securityTainted'' (JBool True)))
      else case meta_field row ''bareText'' of
        Some bare \<Rightarrow>
          Some (draft_of row EtUser
            ([(''text'', bare)] @ meta_copy row ''ts'' ''ts'' @ meta_copy row ''author'' ''name'' @
             meta_copy row ''display'' ''display'' @
             field_if (meta_true row ''hidden'') ''hidden'' (JBool True) @
             meta_files row ''attachments'' @ field_if (\<not> isTrigger) ''steered'' (JBool True)))
      | None \<Rightarrow>
          if meta_true row ''hidden'' then
            (case (case deliveryNoteManifest (message_text row) of
                     None \<Rightarrow> legacyDeliveryNoteManifest (message_text row) | Some m \<Rightarrow> Some m) of
               None \<Rightarrow> None
             | Some manifest \<Rightarrow>
                 Some (draft_of row EtDelivery ((''text'', JStr manifest) # meta_files row ''files'')))
          else None)"

definition row_draft :: "tape_record \<Rightarrow> entry_type \<Rightarrow> json \<Rightarrow> draft_entry" where
  "row_draft row ty payload = \<lparr>dr_type = ty, dr_payload = payload, dr_scopeLabel = tp_scopeLabel row,
     dr_createdAt = tp_createdAt row, dr_exact = None, dr_mirror = False\<rparr>"

definition toolResultDraft :: "tape_record \<Rightarrow> draft_entry option" where
  "toolResultDraft row =
     (case jstring (jfield (tp_payload row) ''toolCallId'') of
        None \<Rightarrow> None
      | Some i \<Rightarrow> Some (row_draft row EtToolResult (JObj
          [(''tool'', JStr (or_else (jstring (jfield (tp_payload row) ''toolName'')) ''tool'')),
           (''callId'', JStr i), (''isError'', JBool (is_true (tp_payload row) ''isError'')),
           (''result'', JStr (message_text row))])))"

definition compaction_draft :: "tape_record \<Rightarrow> draft_entry" where
  "compaction_draft row =
     (let summary = createContextSummaryPayload (or_else (tp_coversEntrySeq row) (-1))
            (or_else (jstring (jfield (tp_payload row) ''text'')) [])
      in draft_of row EtSystem (case summary of JObj fs \<Rightarrow>
           fs @ field_if (meta_true row ''securityTainted'') ''securityTainted'' (JBool True) | _ \<Rightarrow> []))"

text \<open>Setting a field of the arguments: \<open>{ ...arguments, tool, callId }\<close>.\<close>

definition call_draft :: "tape_record \<Rightarrow> tool_call_block \<Rightarrow> draft_entry" where
  "call_draft row c = row_draft row EtToolCall
     (JObj (jset (jset (tc_arguments c) ''tool'' (JStr (tc_name c))) ''callId'' (JStr (tc_id c))))"

definition assistant_drafts :: "tape_record \<Rightarrow> draft_entry list" where
  "assistant_drafts row =
     (let content = jfield (tp_payload row) ''content'';
          calls = toolCallBlocks content;
          text = js_trim (textFromContent content)
      in map (row_draft row EtThinking) (thinkingBlocksFromContent content) @
         (if calls = [] then []
          else (if text \<noteq> [] then [row_draft row EtText (JObj [(''text'', JStr text)])] else []) @
            (if assistantDroppedAtReplay (tp_payload row) then [] else map (call_draft row) calls)))"

subsection \<open>The events of a tape\<close>

record draft_pass =
  dp_events :: "draft_event list"
  dp_sawTrigger :: bool
  dp_mirrorPending :: bool

definition add_events :: "draft_pass \<Rightarrow> draft_event list \<Rightarrow> draft_pass" where
  "add_events st es = st\<lparr>dp_events := dp_events st @ es\<rparr>"

definition items :: "draft_entry option \<Rightarrow> draft_event list" where
  "items d = (case d of None \<Rightarrow> [] | Some e \<Rightarrow> [Item e])"

definition annotation_events :: "draft_pass \<Rightarrow> tape_record \<Rightarrow> draft_pass option" where
  "annotation_events st row = (case boundAnnotation row of
     Unstamped \<Rightarrow> None
   | BoundAt sq mirror spanStart \<Rightarrow>
       Some ((add_events st (items mirror @ [Bound sq (mirror = None \<and> dp_mirrorPending st) spanStart]))
         \<lparr>dp_mirrorPending := False, dp_sawTrigger := False\<rparr>)
   | NoBound \<Rightarrow> Some (add_events st (items (entryMirror row))))"

definition is_trigger :: "draft_pass \<Rightarrow> tape_record \<Rightarrow> bool" where
  "is_trigger st row \<longleftrightarrow>
     \<not> dp_sawTrigger st \<and> meta_field row ''bareText'' \<noteq> None \<and> \<not> meta_true row ''overheard''"

definition foreign_events :: "draft_pass \<Rightarrow> tape_record \<Rightarrow> draft_pass" where
  "foreign_events st row =
     (let st1 = (add_events st [Coarse])\<lparr>dp_mirrorPending := True\<rparr>; trigger = is_trigger st row in
      if tp_entrySeq row \<noteq> None \<and> (meta_field row ''bareText'' \<noteq> None \<or> meta_true row ''overheard'') then
        (case userDraft row trigger of
           Some draft \<Rightarrow>
             if dr_exact draft \<noteq> None
             then (add_events st1 [Item draft])\<lparr>dp_sawTrigger := dp_sawTrigger st \<or> trigger\<rparr>
             else st1
         | None \<Rightarrow> st1)
      else st1)"

definition message_events :: "draft_pass \<Rightarrow> tape_record \<Rightarrow> draft_pass option" where
  "message_events st row =
     (let m = tp_payload row in
      if has_str m ''role'' ''user'' then
        (case userDraft row (is_trigger st row) of
           None \<Rightarrow> Some st
         | Some draft \<Rightarrow>
             Some ((add_events st [Item draft])\<lparr>dp_sawTrigger := dp_sawTrigger st \<or> is_trigger st row\<rparr>))
      else if has_str m ''role'' ''assistant'' then Some (add_events st (map Item (assistant_drafts row)))
      else if has_str m ''role'' ''toolResult'' then
        (if has_str m ''toolName'' ''attach'' then None else Some (add_events st (items (toolResultDraft row))))
      else None)"

definition draft_row :: "draft_pass option \<Rightarrow> tape_record \<Rightarrow> draft_pass option" where
  "draft_row acc row = (case acc of
     None \<Rightarrow> None
   | Some st \<Rightarrow>
       if is_blocker row then None
       else if tp_kind row = TkAnnotation then annotation_events st row
       else if tp_kind row = TkContextEvent then
         Some (if contextEventName row = Some ''compaction'' then add_events st [Item (compaction_draft row)] else st)
       else if tp_harness row \<noteq> None \<and> tp_harness row \<noteq> Some ''pi'' then Some (foreign_events st row)
       else message_events st row)"

definition draft_events :: "tape_record list \<Rightarrow> draft_event list option" where
  "draft_events rows = map_option dp_events (foldl draft_row
     (Some \<lparr>dp_events = [], dp_sawTrigger = False, dp_mirrorPending = False\<rparr>) rows)"

subsection \<open>Numbering the drafts\<close>

record settle_state =
  sl_out :: "session_entry list"
  sl_nextMin :: int
  sl_covered :: int
  sl_run :: "draft_entry list"
  sl_pushed :: "int list"
  sl_coarse :: bool
  sl_exact :: "int list"
  sl_mirrored :: "int list"

definition entry_of_draft :: "ident \<Rightarrow> draft_entry \<Rightarrow> int \<Rightarrow> session_entry" where
  "entry_of_draft sid d sq =
     \<lparr>en_sessionId = sid, en_seq = sq, en_parentSeq = (if sq = 0 then None else Some (sq - 1)),
      en_type = dr_type d, en_payload = dr_payload d, en_scopeLabel = dr_scopeLabel d,
      en_createdAt = dr_createdAt d\<rparr>"

definition fillRun :: "ident \<Rightarrow> settle_state \<Rightarrow> int \<Rightarrow> settle_state option" where
  "fillRun sid st slots =
     (if slots < 0 \<or> int (length (sl_run st)) \<noteq> slots then None
      else
        let seqs = map (\<lambda>i. sl_nextMin st + int i) [0 ..< length (sl_run st)]
        in Some (st\<lparr>sl_out := sl_out st @ map2 (entry_of_draft sid) (sl_run st) seqs,
                    sl_pushed := sl_pushed st @ seqs,
                    sl_nextMin := sl_nextMin st + int (length (sl_run st)), sl_run := []\<rparr>))"

definition span_filled :: "int \<Rightarrow> settle_state \<Rightarrow> int \<Rightarrow> int option \<Rightarrow> bool" where
  "span_filled base st sq spanStart = (case spanStart of
     None \<Rightarrow> True
   | Some s \<Rightarrow> list_all (\<lambda>i. i \<in> set (sl_pushed st)) [max s (base + 1) .. sq])"

definition settle_bound ::
  "ident \<Rightarrow> int \<Rightarrow> settle_state \<Rightarrow> int \<Rightarrow> bool \<Rightarrow> int option \<Rightarrow> settle_state option" where
  "settle_bound sid base st sq mirrorRequired spanStart =
     (if mirrorRequired \<and> sq \<notin> set (sl_exact st) then None
      else case (if sl_coarse st \<and> sl_run st = []
                 then Some (st\<lparr>sl_nextMin := max (sl_nextMin st) (sq + 1)\<rparr>)
                 else fillRun sid st (sq + 1 - sl_nextMin st)) of
        None \<Rightarrow> None
      | Some st1 \<Rightarrow>
          if \<not> span_filled base st1 sq spanStart then None
          else Some (st1\<lparr>sl_coarse := False, sl_covered := max (sl_covered st1) sq\<rparr>))"

definition settle_exact :: "ident \<Rightarrow> settle_state \<Rightarrow> draft_entry \<Rightarrow> int \<Rightarrow> settle_state option" where
  "settle_exact sid st d sq =
     (if sl_run st = [] \<and> sq \<in> set (sl_exact st) \<and> (dr_mirror d \<or> sq \<in> set (sl_mirrored st)) then Some st
      else case (if sl_coarse st \<and> sl_run st = [] \<and> sq \<ge> sl_nextMin st then Some (st\<lparr>sl_nextMin := sq\<rparr>)
                 else fillRun sid st (sq - sl_nextMin st)) of
        None \<Rightarrow> None
      | Some st1 \<Rightarrow> Some (st1\<lparr>sl_out := sl_out st1 @ [entry_of_draft sid d sq],
          sl_exact := sadd (sl_exact st1) sq, sl_pushed := sl_pushed st1 @ [sq],
          sl_mirrored := (if dr_mirror d then sadd (sl_mirrored st1) sq else sl_mirrored st1),
          sl_nextMin := sq + 1\<rparr>))"

definition settle_event :: "ident \<Rightarrow> int \<Rightarrow> settle_state option \<Rightarrow> draft_event \<Rightarrow> settle_state option" where
  "settle_event sid base acc ev = (case acc of
     None \<Rightarrow> None
   | Some st \<Rightarrow> (case ev of
       Coarse \<Rightarrow> Some (st\<lparr>sl_coarse := True\<rparr>)
     | Bound sq mirrorRequired spanStart \<Rightarrow> settle_bound sid base st sq mirrorRequired spanStart
     | Item d \<Rightarrow> (case dr_exact d of
         Some sq \<Rightarrow> settle_exact sid st d sq
       | None \<Rightarrow> Some (st\<lparr>sl_run := sl_run st @ [d]\<rparr>))))"

definition is_bound :: "draft_event \<Rightarrow> bool" where
  "is_bound ev = (case ev of Bound _ _ _ \<Rightarrow> True | _ \<Rightarrow> False)"

record tape_projection =
  pj_entries :: "session_entry list"
  pj_coveredSeq :: int
  pj_baseSeq :: int

definition settle_all :: "ident \<Rightarrow> int \<Rightarrow> draft_event list \<Rightarrow> tape_projection option" where
  "settle_all sid base events =
     (case find_last_index is_bound events of
        None \<Rightarrow> Some \<lparr>pj_entries = [], pj_coveredSeq = base, pj_baseSeq = base\<rparr>
      | Some lastBound \<Rightarrow>
          map_option (\<lambda>st. \<lparr>pj_entries = sl_out st, pj_coveredSeq = sl_covered st, pj_baseSeq = base\<rparr>)
            (foldl (settle_event sid base)
              (Some \<lparr>sl_out = [], sl_nextMin = base + 1, sl_covered = base, sl_run = [], sl_pushed = [],
                 sl_coarse = False, sl_exact = [], sl_mirrored = []\<rparr>)
              (take (lastBound + 1) events)))"

definition is_transcript_row :: "tape_record \<Rightarrow> bool" where
  "is_transcript_row row \<longleftrightarrow>
     tp_kind row = TkAnnotation \<and> has_str (tp_payload row) ''event'' ''transcript_entry''"

definition is_stamped :: "tape_record \<Rightarrow> bool" where
  "is_stamped row = (case boundAnnotation row of BoundAt _ _ _ \<Rightarrow> True | _ \<Rightarrow> False)"

definition projectTapeEntries :: "ident \<Rightarrow> tape_record list \<Rightarrow> bool \<Rightarrow> tape_projection option" where
  "projectTapeEntries sid tapeRows anchored =
     (let sliced = renderableTapeSlice (filter (\<lambda>row. \<not> is_transcript_row row) tapeRows);
          project = (\<lambda>base rows. Option.bind (draft_events rows) (settle_all sid base))
      in if \<not> anchored then project (-1) sliced
         else case findIndex is_stamped sliced of
           None \<Rightarrow> None
         | Some anchorAt \<Rightarrow> project (ba_seq (boundAnnotation (sliced ! anchorAt))) (drop (anchorAt + 1) sliced))"

end
