(* ===== verification/Transcripts.thy ===== *)
theory Transcripts
  imports Projection
begin

section \<open>The source of transcripts\<close>

text \<open>
  \<open>createTranscriptSource\<close> of \<open>src/src/harness/tape-projection.ts\<close> over the session store: a
  transcript is read from the mirror of the log on the tape where it is complete, from the
  projection of the messages where that is, and from the log otherwise. \<open>mirrored\<close> says whether the
  store has \<open>getTranscriptEntries\<close>, which the interface leaves open.
\<close>

definition SUFFIX_ROW_CAP_MIN :: int where "SUFFIX_ROW_CAP_MIN = 100"
definition SUFFIX_ROW_CAP_MAX :: int where "SUFFIX_ROW_CAP_MAX = 5000"

record projected_read =
  prd_entries :: "session_entry list"
  prd_anchored :: bool
  prd_base :: int

definition query_of :: "int option \<Rightarrow> int option \<Rightarrow> int option \<Rightarrow> entries_query" where
  "query_of since before limit = \<lparr>eq_sinceSeq = since, eq_beforeSeq = before, eq_limit = limit\<rparr>"

text \<open>The entries of the mirror, when they are exactly the numbers asked for.\<close>

definition mirror_read :: "session_store \<Rightarrow> ident \<Rightarrow> int \<Rightarrow> int option \<Rightarrow> int option \<Rightarrow> projected_read option" where
  "mirror_read st sid latest limit before =
     (let es = getTranscriptEntries st sid (query_of None before limit);
          start = (case limit of None \<Rightarrow> 0 | Some n \<Rightarrow> max 0 (latest - n + 1))
      in if int (length es) = latest - start + 1 \<and>
            list_all (\<lambda>(i, e). en_seq e = start + int i) (enumerate 0 es)
         then Some \<lparr>prd_entries = es, prd_anchored = (start > 0), prd_base = start - 1\<rparr> else None)"

definition tape_read :: "session_store \<Rightarrow> ident \<Rightarrow> int \<Rightarrow> int option \<Rightarrow> projected_read option" where
  "tape_read st sid latest limit =
     (let cap = map_option (\<lambda>n. min (max (n * 2) SUFFIX_ROW_CAP_MIN) SUFFIX_ROW_CAP_MAX) limit;
          rows = getTape st sid \<lparr>tq_sinceSeq = None, tq_limit = cap\<rparr>;
          anchored = (case cap of None \<Rightarrow> False | Some c \<Rightarrow> int (length rows) \<ge> c)
      in if \<not> anchored \<and> tapeHasRenderBlockers rows then None
         else case projectTapeEntries sid rows anchored of
           None \<Rightarrow> None
         | Some p \<Rightarrow>
             if pj_coveredSeq p < latest then None
             else if anchored \<and> int (length (pj_entries p)) < or_else limit 0 then None
             else Some \<lparr>prd_entries = pj_entries p, prd_anchored = anchored, prd_base = pj_baseSeq p\<rparr>)"

definition latest_below :: "session_store \<Rightarrow> ident \<Rightarrow> int option \<Rightarrow> int" where
  "latest_below st sid before =
     (case before of None \<Rightarrow> latestEntrySeq st sid | Some b \<Rightarrow> min (latestEntrySeq st sid) (b - 1))"

definition projected_all :: "bool \<Rightarrow> session_store \<Rightarrow> ident \<Rightarrow> int option \<Rightarrow> projected_read option" where
  "projected_all mirrored st sid limit =
     (let latest = latestEntrySeq st sid in
      if latest < 0 then Some \<lparr>prd_entries = [], prd_anchored = False, prd_base = -1\<rparr>
      else case (if mirrored then mirror_read st sid latest limit None else None) of
        Some r \<Rightarrow> Some r
      | None \<Rightarrow> tape_read st sid latest limit)"

definition projected ::
  "bool \<Rightarrow> session_store \<Rightarrow> ident \<Rightarrow> int option \<Rightarrow> int option \<Rightarrow> projected_read option" where
  "projected mirrored st sid limit before =
     (case before of
        None \<Rightarrow> projected_all mirrored st sid limit
      | Some b \<Rightarrow>
          let latest = latest_below st sid before in
          if latest < 0 then Some \<lparr>prd_entries = [], prd_anchored = False, prd_base = -1\<rparr>
          else case (if mirrored then mirror_read st sid latest limit before else None) of
            Some r \<Rightarrow> Some r
          | None \<Rightarrow> map_option (\<lambda>full. full\<lparr>prd_entries := filter (\<lambda>e. en_seq e < b) (prd_entries full)\<rparr>)
              (projected_all mirrored st sid None))"

text \<open>A transcript with the number of entries before it.\<close>

definition forRender :: "bool \<Rightarrow> session_store \<Rightarrow> ident \<Rightarrow> entries_query \<Rightarrow> session_entry list \<times> int" where
  "forRender mirrored st sid q =
     (case projected mirrored st sid (eq_limit q) (eq_beforeSeq q) of
        None \<Rightarrow>
          let rows = getEntries st sid q in (rows, case rows of [] \<Rightarrow> 0 | e # _ \<Rightarrow> en_seq e)
      | Some r \<Rightarrow>
          let since = (case eq_sinceSeq q of None \<Rightarrow> prd_entries r
                | Some s \<Rightarrow> filter (\<lambda>e. en_seq e \<ge> s) (prd_entries r));
              limit = (if eq_beforeSeq q \<noteq> None \<and> \<not> prd_anchored r then None else eq_limit q);
              es = (case limit of None \<Rightarrow> since | Some n \<Rightarrow> slice_last n since);
              below = (if prd_anchored r then prd_base r + 1 else 0)
          in (es, int (length (prd_entries r)) - int (length es) + below))"

definition viewer_fallback ::
  "session_store \<Rightarrow> ident \<Rightarrow> string \<Rightarrow> int option \<Rightarrow> session_entry list \<times> int" where
  "viewer_fallback st sid p before =
     (filter (\<lambda>e. case before of None \<Rightarrow> True | Some b \<Rightarrow> en_seq e < b) (visibleEntries st sid p), 0)"

definition in_window :: "tenure \<Rightarrow> session_entry \<Rightarrow> bool" where
  "in_window w e = entryWithinTenure (en_seq e) (en_createdAt e) w"

definition first_seq :: "session_entry list \<Rightarrow> int" where
  "first_seq es = (case es of [] \<Rightarrow> 0 | e # _ \<Rightarrow> en_seq e)"

definition viewer_page :: "projected_read \<Rightarrow> tenure \<Rightarrow> int \<Rightarrow> int option \<Rightarrow> session_entry list \<times> int" where
  "viewer_page r w validFrom limit =
     (let filtered = filter (in_window w) (prd_entries r) in
      case limit of
        None \<Rightarrow> (filtered, 0)
      | Some n \<Rightarrow> (slice_last n filtered,
          max 0 (int (length filtered) - n) +
          (if prd_anchored r then max 0 (prd_base r + 1 - validFrom) else 0)))"

definition forViewer ::
  "bool \<Rightarrow> session_store \<Rightarrow> ident \<Rightarrow> string \<Rightarrow> int option \<Rightarrow> int option \<Rightarrow> session_entry list \<times> int" where
  "forViewer mirrored st sid p limit0 before =
     (case find (\<lambda>(i, _). i = p) (participantWindowsOf st sid) of
        None \<Rightarrow> ([], 0)
      | Some (_, w) \<Rightarrow> (case tn_validFromSeq w of
          None \<Rightarrow> viewer_fallback st sid p before
        | Some validFrom \<Rightarrow>
            if tn_validTo w \<noteq> None \<and> tn_validToSeq w = None then viewer_fallback st sid p before
            else
              let limit = (if tn_validToSeq w = None then limit0 else None) in
              case projected mirrored st sid limit before of
                None \<Rightarrow> viewer_fallback st sid p before
              | Some r \<Rightarrow>
                  let filtered = filter (in_window w) (prd_entries r) in
                  if before \<noteq> None \<and> \<not> prd_anchored r then (filtered, 0)
                  else if (case limit of None \<Rightarrow> False | Some n \<Rightarrow> int (length filtered) < n) \<and>
                          first_seq (prd_entries r) > validFrom then
                    (case projected mirrored st sid None before of
                       None \<Rightarrow> viewer_fallback st sid p before
                     | Some r2 \<Rightarrow> viewer_page r2 w validFrom limit)
                  else viewer_page r w validFrom limit))"

definition search_rows_of :: "int \<Rightarrow> session_entry \<Rightarrow> search_row option" where
  "search_rows_of sinceSeq e =
     (if en_seq e \<le> sinceSeq \<or> \<not> searchable (en_type e) then None
      else case entrySearchText (en_payload e) of
        None \<Rightarrow> None
      | Some text \<Rightarrow>
          if js_trim text = [] then None
          else Some \<lparr>sr_seq = en_seq e, sr_type = en_type e,
            sr_author = entrySearchAuthor (en_type e) (en_payload e), sr_text = text, sr_at = en_createdAt e\<rparr>)"

definition searchRowsFromEntries :: "session_entry list \<Rightarrow> int \<Rightarrow> search_row list" where
  "searchRowsFromEntries entries sinceSeq = List.map_filter (search_rows_of sinceSeq) entries"

end
