(* ===== verification/SessionWrites.thy ===== *)
theory SessionWrites
  imports SessionProps Tape
begin

section \<open>Writing to a session in several steps\<close>

text \<open>
  The callers of the session store that append several records: every step returns the store it
  leaves behind beside its result or error, and an error ends the rest. With
  \<open>appendEntryOutsideTurn\<close> and the annotations of \<open>src/src/sessions/session-store.ts\<close>, and the wait
  for a lease, \<open>acquireLeaseWithin\<close>.
\<close>

subsection \<open>Steps\<close>

type_synonym 'a outcome = "session_store \<times> (append_error + 'a)"

definition and_then :: "'a outcome \<Rightarrow> (session_store \<Rightarrow> 'a \<Rightarrow> 'b outcome) \<Rightarrow> 'b outcome" where
  "and_then r f = (case r of (st, Inl err) \<Rightarrow> (st, Inl err) | (st, Inr x) \<Rightarrow> f st x)"

lemma and_then_simps [simp]:
  "and_then (st, Inl err) f = (st, Inl err)" "and_then (st, Inr x) f = f st x"
  by (simp_all add: and_then_def)

definition append_step :: "session_store \<Rightarrow> lease_ref \<Rightarrow> new_entry \<Rightarrow> (nat \<Rightarrow> time) \<Rightarrow> session_entry outcome" where
  "append_step st l e clk = (append_state st l e clk, map_sum (\<lambda>err. err) snd (append_entry st l e clk))"

definition tape_step :: "session_store \<Rightarrow> lease_ref \<Rightarrow> new_tape_record \<Rightarrow> (nat \<Rightarrow> time) \<Rightarrow> tape_record outcome" where
  "tape_step st l r clk = (appendTape_state st l r clk, map_sum (\<lambda>err. err) snd (appendTape st l r clk))"

subsection \<open>Annotations\<close>

definition tapeCheckpointPayload ::
  "string \<Rightarrow> (entry_type \<times> json \<times> time) option \<Rightarrow> int option \<Rightarrow> json" where
  "tapeCheckpointPayload bound mirror spanStart =
     JObj ([(bound, JBool True), (''render'', JNum 1)] @
       (case mirror of None \<Rightarrow> []
        | Some (ty, payload, t) \<Rightarrow> [(''entry'', JObj [(''type'', JStr (entry_type_name ty)),
            (''payload'', payload), (''at'', JNum t)])]) @
       (case spanStart of None \<Rightarrow> [] | Some s \<Rightarrow> [(''spanStart'', JNum s)]))"

definition tapeEntryMirrorRecord :: "session_entry \<Rightarrow> new_tape_record" where
  "tapeEntryMirrorRecord e =
     \<lparr>tp_kind = TkAnnotation,
      tp_payload = JObj [(''entry'', JObj [(''type'', JStr (entry_type_name (en_type e))),
        (''payload'', en_payload e), (''at'', JNum (en_createdAt e))])],
      tp_scopeLabel = en_scopeLabel e, tp_harness = None, tp_meta = None,
      tp_entrySeq = Some (en_seq e), tp_coversEntrySeq = None\<rparr>"

definition turn_end :: "scope_id \<Rightarrow> int \<Rightarrow> (entry_type \<times> json \<times> time) option \<Rightarrow> new_tape_record" where
  "turn_end scope sq mirror =
     \<lparr>tp_kind = TkAnnotation, tp_payload = tapeCheckpointPayload ''turnEnd'' mirror None,
      tp_scopeLabel = scope, tp_harness = None, tp_meta = None, tp_entrySeq = Some sq,
      tp_coversEntrySeq = None\<rparr>"

subsection \<open>Appending outside a turn\<close>

definition user_note :: "string \<Rightarrow> session_entry \<Rightarrow> scope_id \<Rightarrow> new_tape_record" where
  "user_note text appended scope =
     \<lparr>tp_kind = TkMessage, tp_payload = user_msg [text] (JNum (en_createdAt appended)), tp_scopeLabel = scope,
      tp_harness = None, tp_meta = Some (JObj [(''entryCreatedAt'', JNum (en_createdAt appended))]),
      tp_entrySeq = None, tp_coversEntrySeq = None\<rparr>"

definition note_step ::
  "session_store \<Rightarrow> lease_ref \<Rightarrow> (session_entry \<Rightarrow> string) option \<Rightarrow> session_entry \<Rightarrow> scope_id \<Rightarrow> (nat \<Rightarrow> time)
     \<Rightarrow> unit outcome" where
  "note_step st l modelText appended scope clk =
     (case modelText of
        None \<Rightarrow> (st, Inr ())
      | Some f \<Rightarrow> and_then (tape_step st l (user_note (f appended) appended scope) clk) (\<lambda>st1 _. (st1, Inr ())))"

definition appendEntryOutsideTurn ::
  "session_store \<Rightarrow> lease_ref \<Rightarrow> new_entry \<Rightarrow> (session_entry \<Rightarrow> string) option \<Rightarrow> (nat \<Rightarrow> nat \<Rightarrow> time)
     \<Rightarrow> session_entry outcome" where
  "appendEntryOutsideTurn st l e modelText clk =
     (let sid = lr_sessionId l; tapeContiguous = (tapeCoverage st sid = latestEntrySeq st sid) in
      and_then (append_step st l e (clk 0)) (\<lambda>st1 appended.
        if \<not> tapeContiguous then (st1, Inr appended)
        else and_then (note_step st1 l modelText appended (ne_scopeLabel e) (clk 1)) (\<lambda>st2 _.
          and_then (tape_step st2 l (turn_end (ne_scopeLabel e) (en_seq appended)
              (Some (ne_type e, ne_payload e, en_createdAt appended))) (clk 2))
            (\<lambda>st3 _. (st3, Inr appended)))))"

subsection \<open>Waiting for a lease\<close>

text \<open>
  Time passes at an \<open>await\<close> only. The world of a wait: what other operations do to the store during
  the \<open>k\<close>-th await, by how much it takes longer than was asked for, and the token a lease acquired
  then would have; \<open>k\<close> counts the awaits.
\<close>

record wait_world =
  ww_others :: "nat \<Rightarrow> session_store \<Rightarrow> session_store"
  ww_lag :: "nat \<Rightarrow> nat"
  ww_token :: "nat \<Rightarrow> string"

definition LEASE_WAIT_MIN_DELAY_MS :: int where "LEASE_WAIT_MIN_DELAY_MS = 25"
definition LEASE_WAIT_MAX_DELAY_MS :: int where "LEASE_WAIT_MAX_DELAY_MS = 1000"

record wait_state =
  wt_store :: session_store
  wt_now :: time
  wt_awaits :: nat
  wt_delay :: time

text \<open>An await that asks for \<open>ms\<close> milliseconds.\<close>

definition wait_await :: "wait_world \<Rightarrow> time \<Rightarrow> wait_state \<Rightarrow> wait_state" where
  "wait_await w ms s = s\<lparr>wt_store := ww_others w (wt_awaits s) (wt_store s),
     wt_now := wt_now s + ms + int (ww_lag w (wt_awaits s)), wt_awaits := wt_awaits s + 1\<rparr>"

definition wait_sleep :: "wait_world \<Rightarrow> time \<Rightarrow> wait_state \<Rightarrow> wait_state" where
  "wait_sleep w deadline s =
     (wait_await w (min (wt_delay s) (deadline - wt_now s)) s)
       \<lparr>wt_delay := min (wt_delay s * 2) LEASE_WAIT_MAX_DELAY_MS\<rparr>"

text \<open>
  The inner loop sleeps until the lease is seen to be free or out of time (\<open>True\<close>), or the deadline
  is too near for another sleep (\<open>False\<close>). Neither loop need end, so their results are optional.
\<close>

partial_function (option) wait_free ::
  "wait_world \<Rightarrow> ident \<Rightarrow> time \<Rightarrow> wait_state \<Rightarrow> (wait_state \<times> bool) option" where
  "wait_free w sid deadline s =
     (if wt_now s + LEASE_WAIT_MIN_DELAY_MS > deadline then Some (s, False)
      else
        let s1 = wait_sleep w deadline s;
            seen = peekLease (wt_store s1) sid;
            s2 = wait_await w 0 s1
        in if (case seen of None \<Rightarrow> True | Some (_, heldUntil) \<Rightarrow> heldUntil \<le> wt_now s2)
           then Some (s2, True) else wait_free w sid deadline s2)"

record wait_result =
  wr_attempt :: lease_attempt
  wr_waitedMs :: time
  wr_state :: wait_state

text \<open>One attempt to acquire the lease.\<close>

definition wait_acquire ::
  "wait_world \<Rightarrow> ident \<Rightarrow> lease_holder \<Rightarrow> wait_state \<Rightarrow> wait_state \<times> lease_attempt" where
  "wait_acquire w sid holder s =
     (let (st1, a) = acquireLease (wt_store s) sid (Some holder) (ww_token w (wt_awaits s)) (\<lambda>_. wt_now s)
      in (wait_await w 0 (s\<lparr>wt_store := st1\<rparr>), a))"

partial_function (option) acquire_loop ::
  "wait_world \<Rightarrow> ident \<Rightarrow> lease_holder \<Rightarrow> time \<Rightarrow> time \<Rightarrow> (lease_holder option \<Rightarrow> bool) option
     \<Rightarrow> wait_state \<Rightarrow> wait_result option" where
  "acquire_loop w sid holder started deadline waitFor s =
     (let waitedMs = wt_now s - started; (s1, a) = wait_acquire w sid holder s in
      if la_lease a \<noteq> None \<or> la_heldUntil a = None \<or>
         (case waitFor of None \<Rightarrow> False | Some f \<Rightarrow> \<not> f (la_heldBy a))
      then Some \<lparr>wr_attempt = a, wr_waitedMs = waitedMs, wr_state = s1\<rparr>
      else case wait_free w sid deadline s1 of
        None \<Rightarrow> None
      | Some (s2, free) \<Rightarrow>
          if free then acquire_loop w sid holder started deadline waitFor s2
          else Some \<lparr>wr_attempt = a, wr_waitedMs = wt_now s2 - started, wr_state = s2\<rparr>)"

definition acquireLeaseWithin ::
  "wait_world \<Rightarrow> session_store \<Rightarrow> time \<Rightarrow> ident \<Rightarrow> lease_holder \<Rightarrow> time
     \<Rightarrow> (lease_holder option \<Rightarrow> bool) option \<Rightarrow> wait_result option" where
  "acquireLeaseWithin w st now sid holder budgetMs waitFor =
     acquire_loop w sid holder now (now + budgetMs) waitFor
       \<lparr>wt_store = st, wt_now = now, wt_awaits = 0, wt_delay = LEASE_WAIT_MIN_DELAY_MS\<rparr>"

end
