(* ===== verification/ContextCompaction.thy ===== *)
theory ContextCompaction
  imports Compaction SessionWrites
begin

section \<open>Compaction of a session during a turn and in the background\<close>

text \<open>
  \<open>src/src/core/orchestrator/compaction.ts\<close> over the session store: the history is summarised by a
  model (a parameter, as is the count of tokens), the summary is appended to the log and to the tape,
  and the context continues after it. Between the reading of the history and the writing of a summary
  in the background other operations may have changed the store, so the two halves are separate
  functions. Recording of costs and errors and the reset of the agent's session are left out.
\<close>

definition MAX_CONTEXT_TOKENS :: int where "MAX_CONTEXT_TOKENS = 120000"
definition KEEP_RECENT_TOKEN_FRACTION :: rat where "KEEP_RECENT_TOKEN_FRACTION = 6 / 10"

definition keepRecentTokenFraction :: rat where
  "keepRecentTokenFraction = min KEEP_RECENT_TOKEN_FRACTION (COMPACT_SOFT_FRACTION - 1 / 10)"

text \<open>The budget: set for the deployment, known for the model, or the default.\<close>

definition tokenBudgetFor :: "int option \<Rightarrow> int option \<Rightarrow> int" where
  "tokenBudgetFor maxContextTokens ofModel = or_else maxContextTokens (or_else ofModel MAX_CONTEXT_TOKENS)"

definition boundRecent ::
  "(string \<Rightarrow> nat) \<Rightarrow> token_cache \<Rightarrow> session_entry list \<Rightarrow> int \<Rightarrow> session_entry list \<times> token_cache" where
  "boundRecent tok c entries maxContextTokens =
     (case find is_summary entries of
        None \<Rightarrow>
          let (n, c1) = recentEntryCountWithinBudget tok c entries maxContextTokens
          in (last_n n entries, c1)
      | Some s \<Rightarrow>
          let rest = filter (\<lambda>e. e \<noteq> s) entries;
              (m, c1) = estimateEntryTokens tok c s;
              (n, c2) = recentEntryCountWithinBudget tok c1 rest (maxContextTokens - int m)
          in (s # last_n n rest, c2))"

definition isManagedGroupScope :: "(string \<Rightarrow> bool) \<Rightarrow> scope_id \<Rightarrow> bool" where
  "isManagedGroupScope recognizes scope =
     (let (kind, ref) = parseScopeId scope in kind = Some SkGroup \<and> recognizes ref)"

record summarized =
  sm_text :: string
  sm_label :: scope_id
  sm_throughSeq :: int
  sm_tainted :: bool

text \<open>What a deployment provides; \<open>cd_compact\<close> is the model that summarises, if there is one.\<close>

record compaction_deps =
  cd_tok :: "string \<Rightarrow> nat"
  cd_compact :: "(session_entry list \<Rightarrow> string option) option"
  cd_managedGroup :: "string \<Rightarrow> bool"
  cd_maxContextTokens :: "int option"
  cd_modelBudget :: "scope_id \<Rightarrow> int option"

definition budget_of :: "compaction_deps \<Rightarrow> scope_id \<Rightarrow> int" where
  "budget_of deps scope = tokenBudgetFor (cd_maxContextTokens deps) (cd_modelBudget deps scope)"

definition summarize_plan ::
  "(session_entry list \<Rightarrow> string option) \<Rightarrow> scope_id \<Rightarrow> compaction_plan \<Rightarrow> summary_error + summarized" where
  "summarize_plan summarise scope plan =
     (case validateCompactSummary (summarise (pl_toSummarize plan)) of
        Inl err \<Rightarrow> Inl err
      | Inr text \<Rightarrow> Inr \<lparr>sm_text = text, sm_label = scope,
          sm_throughSeq = compactionThroughSeq (pl_toSummarize plan),
          sm_tainted = list_ex entrySecurityTainted (pl_toSummarize plan)\<rparr>)"

definition summarizeForCompaction ::
  "compaction_deps \<Rightarrow> token_cache \<Rightarrow> session_entry list \<Rightarrow> scope_id
     \<Rightarrow> (summary_error + summarized option) \<times> token_cache" where
  "summarizeForCompaction deps c history scope =
     (if isManagedGroupScope (cd_managedGroup deps) scope then (Inr None, c)
      else case cd_compact deps of
        None \<Rightarrow> (Inr None, c)
      | Some summarise \<Rightarrow>
          let m = budget_of deps scope;
              reuse = \<lfloor>of_int m * keepRecentTokenFraction\<rfloor>;
              (plan, c1) = planCompaction (cd_tok deps) c history m keepRecentTokenFraction reuse
          in case plan of
               None \<Rightarrow> (Inr None, c1)
             | Some p \<Rightarrow>
                 if pl_toSummarize p = [] then (Inr None, c1)
                 else (case summarize_plan summarise scope p of Inl err \<Rightarrow> Inl err | Inr s \<Rightarrow> Inr (Some s), c1))"

definition taint_field :: "bool \<Rightarrow> (string \<times> json) list" where
  "taint_field b = (if b then [(''securityTainted'', JBool True)] else [])"

definition summary_payload :: "summarized \<Rightarrow> json" where
  "summary_payload s =
     (case createContextSummaryPayload (sm_throughSeq s) (sm_text s) of
        JObj fs \<Rightarrow> JObj (fs @ taint_field (sm_tainted s)) | v \<Rightarrow> v)"

definition compaction_event :: "summarized \<Rightarrow> session_entry \<Rightarrow> new_tape_record" where
  "compaction_event s summary =
     \<lparr>tp_kind = TkContextEvent, tp_payload = JObj [(''event'', JStr ''compaction''), (''text'', JStr (sm_text s))],
      tp_scopeLabel = sm_label s, tp_harness = None,
      tp_meta = Some (JObj ((''entryCreatedAt'', JNum (en_createdAt summary)) # taint_field (sm_tainted s))),
      tp_entrySeq = Some (en_seq summary), tp_coversEntrySeq = Some (sm_throughSeq s)\<rparr>"

definition writeCompaction ::
  "session_store \<Rightarrow> lease_ref \<Rightarrow> summarized \<Rightarrow> (nat \<Rightarrow> nat \<Rightarrow> time) \<Rightarrow> session_entry outcome" where
  "writeCompaction st l s clk =
     and_then (append_step st l
         \<lparr>ne_type = EtSystem, ne_payload = summary_payload s, ne_scopeLabel = sm_label s\<rparr> (clk 0))
       (\<lambda>st1 summary. and_then (tape_step st1 l (compaction_event s summary) (clk 1)) (\<lambda>st2 _.
          if tapeCoverage st2 (lr_sessionId l) \<noteq> en_seq summary - 1 then (st2, Inr summary)
          else and_then (tape_step st2 l (turn_end (sm_label s) (en_seq summary) None) (clk 2))
                 (\<lambda>st3 _. (st3, Inr summary))))"

datatype compaction_error = SummaryError summary_error | AppendError append_error

text \<open>The store and the cache afterwards, and the context, \<open>None\<close> when nothing was summarised.\<close>

definition applyCompaction ::
  "compaction_deps \<Rightarrow> token_cache \<Rightarrow> session_store \<Rightarrow> lease_ref \<Rightarrow> session_entry list \<Rightarrow> scope_id
     \<Rightarrow> (nat \<Rightarrow> nat \<Rightarrow> time)
     \<Rightarrow> session_store \<times> token_cache \<times> (compaction_error + session_entry list option)" where
  "applyCompaction deps c st l history scope clk =
     (let (res, c1) = summarizeForCompaction deps c history scope in
      case res of
        Inl err \<Rightarrow> (st, c1, Inl (SummaryError err))
      | Inr None \<Rightarrow> (st, c1, Inr None)
      | Inr (Some s) \<Rightarrow>
          (case writeCompaction st l s clk of
             (st1, Inl err) \<Rightarrow> (st1, c1, Inl (AppendError err))
           | (st1, Inr summary) \<Rightarrow>
               let recent = filter (\<lambda>e. en_seq e > sm_throughSeq s \<and> \<not> is_summary e) history;
                   (bounded, c2) = boundRecent (cd_tok deps) c1 (summary # recent) (budget_of deps scope)
               in (st1, c2, Inr (Some bounded))))"

definition compactContextIfNeeded ::
  "compaction_deps \<Rightarrow> token_cache \<Rightarrow> session_store \<Rightarrow> lease_ref \<Rightarrow> session_entry list \<Rightarrow> scope_id
     \<Rightarrow> (nat \<Rightarrow> nat \<Rightarrow> time)
     \<Rightarrow> session_store \<times> token_cache \<times> (compaction_error + session_entry list)" where
  "compactContextIfNeeded deps c st l history scope clk =
     (let (over, c1) = overBudgetFraction (cd_tok deps) c history (budget_of deps scope) COMPACT_HARD_FRACTION in
      if \<not> over then (st, c1, Inr history)
      else case applyCompaction deps c1 st l history scope clk of
        (st1, c2, Inl err) \<Rightarrow> (st1, c2, Inl err)
      | (st1, c2, Inr (Some rebuilt)) \<Rightarrow> (st1, c2, Inr rebuilt)
      | (st1, c2, Inr None) \<Rightarrow>
          let (bounded, c3) = boundRecent (cd_tok deps) c2 history (budget_of deps scope)
          in (st1, c3, Inr bounded))"

subsection \<open>In the background\<close>

record background_snapshot =
  bs_seq :: int
  bs_summarized :: summarized

text \<open>The first half reads the session and has it summarised.\<close>

definition background_read ::
  "compaction_deps \<Rightarrow> token_cache \<Rightarrow> session_store \<Rightarrow> ident \<Rightarrow> scope_id \<Rightarrow> bool
     \<Rightarrow> (summary_error + background_snapshot option) \<times> token_cache" where
  "background_read deps c st sid scope includeSecurityTainted =
     (if jget (ss_sessions st) sid = None then (Inr None, c)
      else
        let entries = cw_entries (getContextWindow st sid);
            history = forModelContext includeSecurityTainted entries;
            (over, c1) = overBudgetFraction (cd_tok deps) c history (budget_of deps scope) COMPACT_SOFT_FRACTION
        in if \<not> over then (Inr None, c1)
           else let (res, c2) = summarizeForCompaction deps c1 history scope
                in (case res of
                      Inl err \<Rightarrow> Inl err
                    | Inr None \<Rightarrow> Inr None
                    | Inr (Some s) \<Rightarrow> Inr (Some
                        \<lparr>bs_seq = (case entries of [] \<Rightarrow> -1 | _ \<Rightarrow> en_seq (last entries)), bs_summarized = s\<rparr>), c2))"

text \<open>The second half writes the summary under a lease, unless another one came in between.\<close>

definition background_write ::
  "session_store \<Rightarrow> lease_ref \<Rightarrow> background_snapshot \<Rightarrow> (nat \<Rightarrow> nat \<Rightarrow> time) \<Rightarrow> session_entry option outcome" where
  "background_write st l snap clk =
     (let since = getEntries st (lr_sessionId l) \<lparr>eq_sinceSeq = Some (bs_seq snap + 1), eq_beforeSeq = None, eq_limit = None\<rparr>
      in if list_ex is_summary since then (st, Inr None)
         else and_then (writeCompaction st l (bs_summarized snap) clk) (\<lambda>st1 e. (st1, Inr (Some e))))"

text \<open>The sessions a background compaction is queued for.\<close>

definition schedule_compaction :: "ident list \<Rightarrow> ident \<Rightarrow> ident list \<times> bool" where
  "schedule_compaction pending sid = (if sid \<in> set pending then (pending, False) else (sadd pending sid, True))"

definition start_compaction :: "ident list \<Rightarrow> ident \<Rightarrow> ident list" where
  "start_compaction pending sid = filter (\<lambda>i. i \<noteq> sid) pending"

text \<open>
  The whole job: while the history is summarised other operations may run (\<open>summarising\<close>), the lease is
  waited for in the world \<open>w\<close>, and given back also when writing fails. The job fails with the error of
  the summariser or of the writing; \<open>None\<close> would be a wait that never ends.
\<close>

definition WRITE_LEASE_WAIT_MS :: int where "WRITE_LEASE_WAIT_MS = 60000"

definition background_compaction ::
  "compaction_deps \<Rightarrow> token_cache \<Rightarrow> (session_store \<Rightarrow> session_store) \<Rightarrow> wait_world \<Rightarrow> time
     \<Rightarrow> (nat \<Rightarrow> nat \<Rightarrow> time) \<Rightarrow> session_store \<Rightarrow> ident \<Rightarrow> scope_id \<Rightarrow> bool
     \<Rightarrow> (session_store \<times> (compaction_error + session_entry option)) option" where
  "background_compaction deps c summarising w now clk st sid scope includeSecurityTainted =
     (case fst (background_read deps c st sid scope includeSecurityTainted) of
        Inl err \<Rightarrow> Some (summarising st, Inl (SummaryError err))
      | Inr None \<Rightarrow> Some (st, Inr None)
      | Inr (Some snap) \<Rightarrow>
          map_option (\<lambda>r. let st1 = wt_store (wr_state r) in
              case la_lease (wr_attempt r) of
                None \<Rightarrow> (st1, Inr None)
              | Some l \<Rightarrow>
                  (let (st2, res) = background_write st1 l snap clk
                   in (releaseSessionLease st2 l, map_sum AppendError (\<lambda>e. e) res)))
            (acquireLeaseWithin w (summarising st) now sid HolderCompaction WRITE_LEASE_WAIT_MS None))"

end
