(* ===== verification/Revisions.thy ===== *)
theory Revisions
  imports Replay SessionWrites
begin

section \<open>Edited and deleted messages\<close>

text \<open>
  \<open>src/src/core/message-revisions.ts\<close> over the session store: what an edit or a deletion of a message
  records in the log, and the attempts to record it while a turn holds the session. What happens
  while an attempt waits, the token it draws and its readings of the clock belong to the attempt.
  \<open>isots\<close> is \<open>isoFromTs\<close>; the cache of a surface is a parameter.
\<close>

subsection \<open>What a revision records\<close>

record ingest_event =
  ie_container :: string
  ie_ts :: string
  ie_sub :: "string option"
  ie_text :: "string option"
  ie_self :: bool
  ie_editedAt :: "time option"
  ie_deleted :: bool

definition isRevisionEvent :: "ingest_event \<Rightarrow> bool" where
  "isRevisionEvent e \<longleftrightarrow> ie_ts e \<noteq> [] \<and> (ie_deleted e \<or> ie_editedAt e \<noteq> None)"

definition hasRevisionEvents :: "ingest_event list \<Rightarrow> bool" where
  "hasRevisionEvents events = list_ex isRevisionEvent events"

record original_message =
  og_text :: string
  og_name :: "string option"
  og_fromAgent :: bool

definition original_of :: "json \<Rightarrow> original_message" where
  "original_of p = \<lparr>og_text = or_else (jstring (jfield p ''text'')) [],
     og_name = trimmed_name (jstring (jfield p ''name'')), og_fromAgent = has_str p ''sourceRole'' ''agent''\<rparr>"

text \<open>A hidden or tainted message under the timestamp ends the search without an original.\<close>

fun original_loop :: "string \<Rightarrow> original_message option \<Rightarrow> session_entry list \<Rightarrow> original_message option" where
  "original_loop ts found [] = found"
| "original_loop ts found (e # es) =
     (if en_type e \<noteq> EtUser \<or> \<not> has_str (en_payload e) ''ts'' ts then original_loop ts found es
      else if is_true (en_payload e) ''hidden'' \<or> is_true (en_payload e) ''securityTainted'' then None
      else original_loop ts (Some (original_of (en_payload e))) es)"

definition findOriginal :: "session_entry list \<Rightarrow> string \<Rightarrow> original_message option" where
  "findOriginal entries ts = original_loop ts None entries"

definition last_revision :: "session_entry list \<Rightarrow> string \<Rightarrow> message_revision option" where
  "last_revision entries ts =
     find_last (\<lambda>r. rv_ts r = ts) (List.map_filter messageRevision entries)"

definition revision_of :: "original_message \<Rightarrow> string \<Rightarrow> string option \<Rightarrow> message_revision" where
  "revision_of original ts text =
     \<lparr>rv_deleted = (text = None), rv_ts = ts, rv_text = text, rv_name = og_name original,
      rv_sourceRole = (if og_fromAgent original then Some ''agent'' else None)\<rparr>"

definition revisionToRecord :: "session_entry list \<Rightarrow> ingest_event \<Rightarrow> message_revision option" where
  "revisionToRecord entries source =
     (case findOriginal entries (ie_ts source) of
        None \<Rightarrow> None
      | Some original \<Rightarrow>
          if ie_self source \<and> \<not> og_fromAgent original then None
          else
            let final = last_revision entries (ie_ts source);
                deleted = (case final of None \<Rightarrow> False | Some r \<Rightarrow> rv_deleted r)
            in if ie_deleted source then
                 (if deleted then None else Some (revision_of original (ie_ts source) None))
               else
                 let text = or_else (ie_text source) [];
                     effective = (if deleted then None
                       else Some (or_else (Option.bind final rv_text) (og_text original)))
                 in if js_trim text = [] \<or> Some text = effective then None
                    else Some (revision_of original (ie_ts source) (Some text)))"

definition revision_payload :: "message_revision \<Rightarrow> json" where
  "revision_payload r =
     JObj ([(''kind'', JStr ''message_revision''),
        (''action'', JStr (if rv_deleted r then ''deleted'' else ''edited'')), (''ts'', JStr (rv_ts r))] @
       (case rv_text r of None \<Rightarrow> [] | Some t \<Rightarrow> [(''text'', JStr t)]) @
       (case rv_name r of None \<Rightarrow> [] | Some n \<Rightarrow> [(''name'', JStr n)]) @
       (case rv_sourceRole r of None \<Rightarrow> [] | Some s \<Rightarrow> [(''sourceRole'', JStr s)]))"

definition revision_entry :: "message_revision \<Rightarrow> scope_id \<Rightarrow> new_entry" where
  "revision_entry r scope = \<lparr>ne_type = EtSystem, ne_payload = revision_payload r, ne_scopeLabel = scope\<rparr>"

definition recordRevision ::
  "(string \<Rightarrow> string) \<Rightarrow> session_store \<Rightarrow> lease_ref \<Rightarrow> scope_id \<Rightarrow> session_entry list \<Rightarrow> ingest_event
     \<Rightarrow> (nat \<Rightarrow> nat \<Rightarrow> time) \<Rightarrow> bool outcome" where
  "recordRevision isots st l scope entries source clk =
     (case revisionToRecord entries source of
        None \<Rightarrow> (st, Inr False)
      | Some r \<Rightarrow>
          and_then (appendEntryOutsideTurn st l (revision_entry r scope)
              (Some (\<lambda>_. renderMessageRevision isots r)) clk)
            (\<lambda>st1 _. (st1, Inr True)))"

subsection \<open>Recording when the session is idle\<close>

text \<open>One attempt: what other operations did before it, its token and its clock.\<close>

record attempt =
  am_before :: "session_store \<Rightarrow> session_store"
  am_token :: string
  am_clkLease :: "nat \<Rightarrow> time"
  am_clk :: "nat \<Rightarrow> nat \<Rightarrow> time"

definition all_entries :: "session_store \<Rightarrow> ident \<Rightarrow> session_entry list" where
  "all_entries st sid = getEntries st sid \<lparr>eq_sinceSeq = None, eq_beforeSeq = None, eq_limit = None\<rparr>"

text \<open>\<open>finally\<close> releases the lease also when recording fails.\<close>

fun attempts_loop ::
  "(string \<Rightarrow> string) \<Rightarrow> ident \<Rightarrow> scope_id \<Rightarrow> ingest_event \<Rightarrow> attempt list \<Rightarrow> session_store \<Rightarrow> unit outcome" where
  "attempts_loop isots sid scope source [] st = (st, Inr ())"
| "attempts_loop isots sid scope source (a # as) st =
     (let (st1, got) = acquireLease (am_before a st) sid (Some HolderBackfill) (am_token a) (am_clkLease a)
      in case la_lease got of
           None \<Rightarrow> attempts_loop isots sid scope source as st1
         | Some l \<Rightarrow>
             (let (st2, res) = recordRevision isots st1 l scope (all_entries st1 sid) source (am_clk a)
              in (releaseSessionLease st2 l, map_sum (\<lambda>err. err) (\<lambda>_. ()) res)))"

definition recordWhenIdle ::
  "(string \<Rightarrow> string) \<Rightarrow> ident \<Rightarrow> scope_id \<Rightarrow> ingest_event \<Rightarrow> attempt list \<Rightarrow> session_store \<Rightarrow> unit outcome" where
  "recordWhenIdle isots sid scope source attempts st =
     (if revisionToRecord (all_entries st sid) source = None then (st, Inr ())
      else attempts_loop isots sid scope source attempts st)"

definition dmThreadRef :: "string \<Rightarrow> string option \<Rightarrow> string" where
  "dmThreadRef channel threadTs =
     (if truthy threadTs then ''dm:'' @ channel @ '':'' @ the threadTs else ''dm:'' @ channel)"

definition channelThreadRef :: "bool \<Rightarrow> string \<Rightarrow> string \<Rightarrow> string" where
  "channelThreadRef isGroup channel base = (if isGroup then ''grp'' else ''ch'') @ '':'' @ channel @ '':'' @ base"

definition slackThreadRefCandidates :: "string \<Rightarrow> string \<Rightarrow> string option \<Rightarrow> string list" where
  "slackThreadRefCandidates channel ts threadTs =
     (let base = (if truthy threadTs then the threadTs else ts)
      in uniq [dmThreadRef channel None, dmThreadRef channel (Some base),
               channelThreadRef False channel base, channelThreadRef True channel base])"

text \<open>The attempts are drawn per event and session; an error ends the loops.\<close>

fun revise_sessions ::
  "(string \<Rightarrow> string) \<Rightarrow> ingest_event \<Rightarrow> (ident \<Rightarrow> attempt list) \<Rightarrow> session list \<Rightarrow> session_store \<Rightarrow> unit outcome" where
  "revise_sessions isots event attempts [] st = (st, Inr ())"
| "revise_sessions isots event attempts (s # ss) st =
     and_then (recordWhenIdle isots (se_id s) (se_scopeId s) event (attempts (se_id s)) st)
       (\<lambda>st1 _. revise_sessions isots event attempts ss st1)"

fun revise_events ::
  "(string \<Rightarrow> string) \<Rightarrow> (nat \<Rightarrow> ident \<Rightarrow> attempt list) \<Rightarrow> nat \<Rightarrow> ingest_event list \<Rightarrow> session_store \<Rightarrow> unit outcome" where
  "revise_events isots attempts n [] st = (st, Inr ())"
| "revise_events isots attempts n (e # es) st =
     and_then (revise_sessions isots e (attempts n)
         (sessionsByThreadRefs st (slackThreadRefCandidates (ie_container e) (ie_ts e) (ie_sub e))) st)
       (\<lambda>st1 _. revise_events isots attempts (n + 1) es st1)"

definition recordMessageRevisions ::
  "(string \<Rightarrow> string) \<Rightarrow> (nat \<Rightarrow> ident \<Rightarrow> attempt list) \<Rightarrow> ingest_event list \<Rightarrow> session_store \<Rightarrow> unit outcome" where
  "recordMessageRevisions isots attempts events st =
     revise_events isots attempts 0 (filter isRevisionEvent events) st"

subsection \<open>Reconciling with the cache of a surface\<close>

definition ANCHOR_WALK_BACK :: nat where "ANCHOR_WALK_BACK = 8"

fun anchor_walk :: "session_store \<Rightarrow> ident \<Rightarrow> nat \<Rightarrow> int \<Rightarrow> time option" where
  "anchor_walk st sid 0 sq = None"
| "anchor_walk st sid (Suc steps) sq =
     (if sq < 0 then None
      else case getEntry st sid sq of
        None \<Rightarrow> None
      | Some e \<Rightarrow>
          if en_type e = EtUser \<or> en_type e = EtAssistant then Some (en_createdAt e)
          else anchor_walk st sid steps (sq - 1))"

definition revisionAnchorAt :: "session_store \<Rightarrow> ident \<Rightarrow> time option" where
  "revisionAnchorAt st sid = anchor_walk st sid ANCHOR_WALK_BACK (latestEntrySeq st sid)"

text \<open>\<open>^(?:dm|ch|grp):([^:]+)(?::(.+))?$\<close>; the rest holds no line break.\<close>

definition parseSlackThreadRef :: "string \<Rightarrow> (string \<times> string option) option" where
  "parseSlackThreadRef ref =
     (case split_at_first CHR '':'' ref of
        None \<Rightarrow> None
      | Some (kind, rest) \<Rightarrow>
          if kind \<notin> {''dm'', ''ch'', ''grp''} then None
          else (case split_at_first CHR '':'' rest of
              None \<Rightarrow> if rest = [] then None else Some (rest, None)
            | Some (container, base) \<Rightarrow>
                if container = [] \<or> base = [] \<or>
                   \<not> list_all (\<lambda>c. of_char c \<noteq> (10 :: nat) \<and> of_char c \<noteq> (13 :: nat)) base then None
                else Some (container, Some base)))"

fun reconcile_rows ::
  "(string \<Rightarrow> string) \<Rightarrow> lease_ref \<Rightarrow> scope_id \<Rightarrow> session_entry list \<Rightarrow> (nat \<Rightarrow> nat \<Rightarrow> nat \<Rightarrow> time)
     \<Rightarrow> ingest_event list \<Rightarrow> session_store \<Rightarrow> nat \<Rightarrow> nat outcome" where
  "reconcile_rows isots l scope entries clk [] st n = (st, Inr n)"
| "reconcile_rows isots l scope entries clk (row # rows) st n =
     and_then (recordRevision isots st l scope entries row (clk (length rows)))
       (\<lambda>st1 recorded. reconcile_rows isots l scope entries clk rows st1 (if recorded then n + 1 else n))"

text \<open>\<open>slackTsToMs\<close> of the triggering message is given as \<open>triggerMs\<close>.\<close>

definition reconcileMessageRevisions ::
  "(string \<Rightarrow> string) \<Rightarrow> (string \<Rightarrow> time \<Rightarrow> string option \<Rightarrow> ingest_event list) \<Rightarrow> session_store \<Rightarrow> lease_ref
     \<Rightarrow> session \<Rightarrow> time option \<Rightarrow> time \<Rightarrow> time option \<Rightarrow> (nat \<Rightarrow> nat \<Rightarrow> nat \<Rightarrow> time)
     \<Rightarrow> nat outcome" where
  "reconcileMessageRevisions isots revisedSince st l s anchorAt fallbackSince triggerMs clk =
     (case parseSlackThreadRef (se_threadRef s) of
        None \<Rightarrow> (st, Inr 0)
      | Some (container, base) \<Rightarrow>
          let bound = or_else anchorAt fallbackSince;
              since = max 1 (case triggerMs of None \<Rightarrow> bound | Some t \<Rightarrow> min bound t);
              revised = revisedSince container since base
          in if revised = [] then (st, Inr 0)
             else reconcile_rows isots l (se_scopeId s) (all_entries st (se_id s)) clk revised st 0)"

end
