(* ===== verification/TapeProps.thy ===== *)
theory TapeProps
  imports Replay
begin

section \<open>What a folded tape guarantees\<close>

text \<open>
  A fold whose only fault is open tool calls is sound once they are answered; the messages replayed
  from a log are sound; what an audience gets does not depend on what it may not read; and images
  are read back within their budget.
\<close>

subsection \<open>The state of the check\<close>

lemma jfield_obj [simp]: "jfield (JObj fs) k = map_of fs k"
  by (simp add: jfield_def)

lemma has_str_obj [simp]: "has_str (JObj fs) k s \<longleftrightarrow> map_of fs k = Some (JStr s)"
  by (simp add: has_str_def)

lemma jstring_Some [simp]: "jstring (Some (JStr s)) = Some s" "jstring None = None"
  by (simp_all add: jstring_def)

definition lint_run :: "lint_state \<Rightarrow> nat \<Rightarrow> json list \<Rightarrow> lint_state" where
  "lint_run st n ms = foldl lint_message st (enumerate n ms)"

lemma lint_run_simps [simp]:
  "lint_run st n [] = st" "lint_run st n (m # ms) = lint_run (lint_message st (n, m)) (Suc n) ms"
  by (simp_all add: lint_run_def)

lemma lint_run_append [simp]: "lint_run st n (xs @ ys) = lint_run (lint_run st n xs) (n + length xs) ys"
  by (induction xs arbitrary: st n) auto

definition lint_start :: "json list \<Rightarrow> lint_state" where
  "lint_start ms = \<lparr>li_open = [], li_seen = [], li_problems = lint_first ms\<rparr>"

lemma lint_pass_run: "lint_pass ms = lint_run (lint_start ms) 0 ms"
  by (simp add: lint_pass_def lint_run_def lint_start_def)

text \<open>Problems only accumulate, so a clean end means that every step was clean.\<close>

lemma lint_calls_grow: "\<exists>ps. li_problems (foldl (lint_call i d) st bs) = li_problems st @ ps"
proof (induction bs arbitrary: st)
  case (Cons b bs)
  from Cons [of "lint_call i d st b"] show ?case
    by (auto simp: lint_call_def split: option.splits)
qed simp

lemma lint_message_grow: "\<exists>ps. li_problems (lint_message st im) = li_problems st @ ps"
proof -
  obtain i m where "im = (i, m)" by (cases im)
  then show ?thesis
    using lint_calls_grow [of i "assistantDroppedAtReplay m" "st\<lparr>li_problems := li_problems st @ lint_images i m\<rparr>"
        "assistant_blocks m"]
    by (auto simp: lint_message_def Let_def split: option.split)
qed

lemma lint_run_grow: "\<exists>ps. li_problems (lint_run st n ms) = li_problems st @ ps"
proof (induction ms arbitrary: st n)
  case (Cons m ms)
  obtain ps where "li_problems (lint_message st (n, m)) = li_problems st @ ps"
    using lint_message_grow by blast
  moreover obtain qs where "li_problems (lint_run (lint_message st (n, m)) (Suc n) ms) =
      li_problems (lint_message st (n, m)) @ qs" using Cons by blast
  ultimately show ?case by simp
qed simp

lemma lint_run_clean: "li_problems (lint_run st n ms) = [] \<Longrightarrow> li_problems st = []"
  using lint_run_grow [of st n ms] by auto

subsection \<open>Open calls are the calls without an answer\<close>

text \<open>
  The calls of a list of messages in order, dropped messages included, and the identifiers its
  results answer.
\<close>

definition call_ids :: "json \<Rightarrow> string list" where
  "call_ids m = List.map_filter call_id (assistant_blocks m)"

definition answered :: "json list \<Rightarrow> string list" where
  "answered ms = List.map_filter result_id ms"

definition unanswered :: "json list \<Rightarrow> string list" where
  "unanswered ms = filter (\<lambda>i. i \<notin> set (answered ms)) (concat (map (map fst \<circ> live_calls) ms))"

lemma live_calls_ids:
  "map fst (live_calls m) = (if assistantDroppedAtReplay m then [] else call_ids m)"
proof -
  have "map fst (List.map_filter (\<lambda>b. map_option (\<lambda>i. (i, call_name b)) (call_id b)) bs) =
      List.map_filter call_id bs" for bs
    by (induction bs) (auto simp: List.map_filter_simps split: option.splits)
  then show ?thesis by (simp add: live_calls_def call_ids_def)
qed

lemma missing_unanswered: "map fst (missing_calls ms) = unanswered ms"
proof -
  have "map fst (filter (\<lambda>(i, _). i \<notin> A) xs) = filter (\<lambda>i. i \<notin> A) (map fst xs)"
    for A :: "string set" and xs :: "(string \<times> json) list"
    by (induction xs) auto
  then show ?thesis
    by (simp add: missing_calls_def unanswered_def answered_def Let_def map_concat comp_def)
qed

text \<open>
  What a clean check knows after the messages \<open>ms\<close>: the open calls are the unanswered ones, in order
  and without repetition, and every call and every answer is of an identifier seen.
\<close>

definition lint_knows :: "json list \<Rightarrow> lint_state \<Rightarrow> bool" where
  "lint_knows ms st \<longleftrightarrow> li_problems st = [] \<and> li_open st = unanswered ms \<and> distinct (li_open st) \<and>
     set (li_open st) \<subseteq> set (li_seen st) \<and> set (answered ms) \<subseteq> set (li_seen st)"

lemma lint_calls_clean:
  assumes "li_problems (foldl (lint_call i d) st bs) = []" "set (li_open st) \<subseteq> set (li_seen st)"
    "distinct (li_open st)"
  defines "ids \<equiv> List.map_filter call_id bs"
  shows "li_open (foldl (lint_call i d) st bs) = li_open st @ (if d then [] else ids) \<and>
    set (li_seen (foldl (lint_call i d) st bs)) = set (li_seen st) \<union> set ids \<and>
    distinct ids \<and> set ids \<inter> set (li_seen st) = {}"
  using assms(1-3) unfolding ids_def
proof (induction bs arbitrary: st)
  case (Cons b bs)
  let ?st = "lint_call i d st b"
  show ?case
  proof (cases "call_id b")
    case None
    then have "?st = st" by (simp add: lint_call_def)
    with Cons None show ?thesis by (simp add: List.map_filter_simps)
  next
    case (Some c)
    have p: "li_problems (foldl (lint_call i d) ?st bs) = []" using Cons.prems(1) by simp
    then have "li_problems ?st = []" using lint_calls_grow [of i d ?st bs] by auto
    then have new: "c \<notin> set (li_seen st)" using Some by (auto simp: lint_call_def split: if_splits)
    then have "c \<notin> set (li_open st)" using Cons.prems(2) by blast
    with new have st: "li_open ?st = li_open st @ (if d then [] else [c])" "li_seen ?st = li_seen st @ [c]"
      using Some by (simp_all add: lint_call_def sadd_def)
    with new Cons.prems(2,3) have "set (li_open ?st) \<subseteq> set (li_seen ?st)" "distinct (li_open ?st)"
      using \<open>c \<notin> set (li_open st)\<close> by auto
    from Cons.IH [OF p this] st new Some show ?thesis by (auto simp: List.map_filter_simps)
  qed
qed (simp add: List.map_filter_simps)

lemma role_exclusive:
  "has_str m ''role'' ''assistant'' \<Longrightarrow> \<not> has_str m ''role'' ''toolResult''"
  "has_str m ''role'' ''user'' \<Longrightarrow> \<not> has_str m ''role'' ''toolResult''"
  "has_str m ''role'' ''user'' \<Longrightarrow> \<not> has_str m ''role'' ''assistant''"
  by (auto simp: has_str_def)

lemma no_calls: "\<not> (has_str m ''role'' ''assistant'' \<and> content_of m \<noteq> None) \<Longrightarrow> call_ids m = []"
  by (auto simp: call_ids_def assistant_blocks_def List.map_filter_simps)

lemma answered_snoc: "answered (ms @ [m]) = answered ms @ (case result_id m of None \<Rightarrow> [] | Some i \<Rightarrow> [i])"
  by (simp add: answered_def List.map_filter_def split: option.split)

lemma unanswered_snoc:
  "unanswered (ms @ [m]) =
     filter (\<lambda>i. result_id m \<noteq> Some i) (unanswered ms) @
     filter (\<lambda>i. i \<notin> set (answered (ms @ [m]))) (if assistantDroppedAtReplay m then [] else call_ids m)"
  by (auto simp: unanswered_def answered_snoc live_calls_ids comp_def split: option.split intro!: filter_cong)

lemma lint_message_knows:
  assumes "lint_knows ms st" and clean: "li_problems (lint_message st (n, m)) = []"
  shows "lint_knows (ms @ [m]) (lint_message st (n, m))"
proof -
  have st: "li_problems st = []" "li_open st = unanswered ms" "distinct (li_open st)"
    "set (li_open st) \<subseteq> set (li_seen st)" "set (answered ms) \<subseteq> set (li_seen st)"
    using assms(1) unfolding lint_knows_def by auto
  have known: "known_role m" using clean by (rule contrapos_pp) (simp add: lint_message_def)
  consider (calls) "has_str m ''role'' ''assistant'' \<and> content_of m \<noteq> None"
    | (answer) c where "result_id m = Some c"
    | (other) "\<not> (has_str m ''role'' ''assistant'' \<and> content_of m \<noteq> None)" "result_id m = None"
    by blast
  then show ?thesis
  proof cases
    case calls
    let ?st1 = "st\<lparr>li_problems := li_problems st @ lint_images n m\<rparr>"
    let ?st2 = "foldl (lint_call n (assistantDroppedAtReplay m)) ?st1 (assistant_blocks m)"
    have step: "lint_message st (n, m) = ?st2" using calls known by (simp add: lint_message_def Let_def)
    have "result_id m = None" using calls by (auto simp: result_id_def dest: role_exclusive)
    have facts: "li_open ?st2 = li_open st @ (if assistantDroppedAtReplay m then [] else call_ids m)"
      "set (li_seen ?st2) = set (li_seen st) \<union> set (call_ids m)" "distinct (call_ids m)"
      "set (call_ids m) \<inter> set (li_seen st) = {}"
      using lint_calls_clean [of n "assistantDroppedAtReplay m" ?st1 "assistant_blocks m"] clean st
      unfolding step call_ids_def by simp_all
    have "filter (\<lambda>i. i \<notin> set (answered ms)) (call_ids m) = call_ids m"
      using facts(4) st(5) by (auto simp: filter_id_conv)
    then have "unanswered (ms @ [m]) = li_open ?st2"
      using facts(1) st(2) \<open>result_id m = None\<close> by (simp add: unanswered_snoc answered_snoc)
    moreover have "distinct (li_open ?st2)" "set (li_open ?st2) \<subseteq> set (li_seen ?st2)"
      unfolding facts(1,2) using facts(3,4) st(3,4) by auto
    moreover have "set (answered (ms @ [m])) \<subseteq> set (li_seen ?st2)"
      unfolding facts(2) using st(5) \<open>result_id m = None\<close> by (auto simp: answered_snoc)
    ultimately show ?thesis using clean unfolding step lint_knows_def by simp
  next
    case answer
    then have role: "has_str m ''role'' ''toolResult''" "jstring (jfield m ''toolCallId'') = Some c"
      by (auto simp: result_id_def split: if_splits)
    then have na: "\<not> has_str m ''role'' ''assistant''" by (auto dest: role_exclusive)
    then have "call_ids m = []" by (intro no_calls) simp
    have c: "c \<in> set (li_open st)" using clean role na known
      by (auto simp: lint_message_def Let_def split: if_splits)
    then have "li_open (lint_message st (n, m)) = filter (\<lambda>x. x \<noteq> c) (li_open st)"
      "li_seen (lint_message st (n, m)) = li_seen st"
      using role na known by (simp_all add: lint_message_def Let_def)
    with clean c st answer \<open>call_ids m = []\<close> show ?thesis
      by (auto simp: lint_knows_def unanswered_snoc answered_snoc intro: filter_cong)
  next
    case other
    then have "call_ids m = []" by (intro no_calls)
    have "li_open (lint_message st (n, m)) = li_open st" "li_seen (lint_message st (n, m)) = li_seen st"
      using clean known other by (auto simp: lint_message_def Let_def result_id_def split: if_splits option.splits)
    with clean st other \<open>call_ids m = []\<close> show ?thesis
      by (simp add: lint_knows_def unanswered_snoc answered_snoc)
  qed
qed

lemma lint_run_knows:
  "li_problems (lint_run (lint_start all) 0 ms) = [] \<Longrightarrow> lint_knows ms (lint_run (lint_start all) 0 ms)"
proof (induction ms rule: rev_induct)
  case Nil
  then show ?case by (simp add: lint_knows_def lint_start_def unanswered_def answered_def List.map_filter_simps)
next
  case (snoc m ms)
  then have clean: "li_problems (lint_message (lint_run (lint_start all) 0 ms) (length ms, m)) = []" by simp
  then have "li_problems (lint_run (lint_start all) 0 ms) = []"
    using lint_message_grow [of "lint_run (lint_start all) 0 ms" "(length ms, m)"] by auto
  from lint_message_knows [OF snoc.IH [OF this] clean] show ?case by simp
qed

subsection \<open>Answering the open calls\<close>

lemma result_msg_facts [simp]:
  "known_role (tool_result_msg i name text e t)"
  "has_str (tool_result_msg i name text e t) ''role'' ''toolResult''"
  "\<not> has_str (tool_result_msg i name text e t) ''role'' ''assistant''"
  "jfield (tool_result_msg i name text e t) ''toolCallId'' = Some (JStr i)"
  "lint_images n (tool_result_msg i name text e t) = []"
  by (simp_all add: tool_result_msg_def known_role_def lint_images_def content_of_def jarray_def text_block_def)

lemma answer_ids:
  "List.map_filter result_id (map (\<lambda>(i, name). tool_result_msg i name text e t) cs) = map fst cs"
  by (induction cs) (auto simp: List.map_filter_simps result_id_def)

lemma lint_results:
  "li_open st = map fst cs \<Longrightarrow> distinct (map fst cs) \<Longrightarrow>
     li_open (lint_run st n (map (\<lambda>(i, name). tool_result_msg i name text e t) cs)) = [] \<and>
     li_problems (lint_run st n (map (\<lambda>(i, name). tool_result_msg i name text e t) cs)) = li_problems st"
proof (induction cs arbitrary: st n)
  case (Cons c cs)
  obtain i name where c: "c = (i, name)" by (cases c)
  let ?st = "lint_message st (n, tool_result_msg i name text e t)"
  have "i \<notin> set (map fst cs)" "filter (\<lambda>x. x \<noteq> i) (map fst cs) = map fst cs"
    using Cons.prems(2) c by (auto simp: filter_id_conv)
  then have "li_open ?st = map fst cs" "li_problems ?st = li_problems st"
    using Cons.prems(1) c by (simp_all add: lint_message_def Let_def)
  with Cons.IH [of ?st "Suc n"] Cons.prems(2) c show ?case by simp
qed simp

text \<open>Only the end of the check reports dangling calls.\<close>

definition mid_problem :: "lint_problem \<Rightarrow> bool" where
  "mid_problem p \<longleftrightarrow> \<not> at_end p"

lemma mid_problem_simps [simp]:
  "mid_problem (FirstNotUser r)" "mid_problem (UnknownRole i r)" "mid_problem (ImageWithoutBytes i)"
  "mid_problem (DuplicateCall i c)" "mid_problem (OrphanResult i r)" "mid_problem (UserWhileOpen i n)"
  "\<not> mid_problem (DanglingAtEnd n)"
  by (simp_all add: mid_problem_def at_end_def)

lemma lint_images_mid: "list_all mid_problem (lint_images i m)"
  by (auto simp: lint_images_def list_all_iff)

lemma lint_calls_mid:
  "list_all mid_problem (li_problems st) \<Longrightarrow> list_all mid_problem (li_problems (foldl (lint_call i d) st bs))"
  by (induction bs arbitrary: st) (simp_all add: lint_call_def split: option.split)

lemma lint_message_mid:
  "list_all mid_problem (li_problems st) \<Longrightarrow> list_all mid_problem (li_problems (lint_message st im))"
  by (cases im) (auto simp: lint_message_def Let_def lint_images_mid lint_calls_mid split: option.split)

lemma lint_run_mid:
  "list_all mid_problem (li_problems st) \<Longrightarrow> list_all mid_problem (li_problems (lint_run st n ms))"
  by (induction ms arbitrary: st n) (simp_all add: lint_message_mid)

lemma lint_first_mid: "list_all mid_problem (lint_first ms)"
  by (simp add: lint_first_def split: list.split)

lemma only_dangling:
  assumes "list_all at_end (li_problems (lint_run (lint_start ms) 0 ms))"
  shows "li_problems (lint_run (lint_start ms) 0 ms) = []"
proof -
  have "list_all mid_problem (li_problems (lint_run (lint_start ms) 0 ms))"
    by (rule lint_run_mid) (simp add: lint_start_def lint_first_mid)
  with assms show ?thesis
    by (cases "li_problems (lint_run (lint_start ms) 0 ms)") (auto simp: mid_problem_def)
qed

text \<open>
  C1. A fold whose only problem is tool calls open at its end is sound once they are answered as
  interrupted: nothing else is changed, every open call gets exactly one answer, in order, and the
  check of the healed messages finds no problem. A sound fold is left as it is.
\<close>

theorem interrupt_heals:
  assumes "list_all at_end (lintFold ms)"
  shows "lintFold (healFoldInterrupt ms t) = [] \<and>
    (\<exists>answers. healFoldInterrupt ms t = ms @ answers \<and> List.map_filter result_id answers = unanswered ms) \<and>
    (lintFold ms = [] \<longrightarrow> healFoldInterrupt ms t = ms)"
proof -
  let ?st = "lint_run (lint_start ms) 0 ms"
  let ?answers = "map (\<lambda>(i, name). tool_result_msg i name INTERRUPTED_TOOL_RESULT True t) (missing_calls ms)"
  have heal: "healFoldInterrupt ms t = ms @ ?answers"
    by (simp add: healFoldInterrupt_def healDanglingCalls_def)
  have "li_problems ?st = []"
    using assms by (intro only_dangling) (simp add: lintFold_def lint_pass_run Let_def)
  then have k: "lint_knows ms ?st" by (rule lint_run_knows)
  then have opn: "li_open ?st = map fst (missing_calls ms)" "distinct (map fst (missing_calls ms))"
    by (auto simp: lint_knows_def missing_unanswered)
  have first: "lint_first (ms @ ?answers) = lint_first ms" if "ms \<noteq> []"
    using that by (simp add: lint_first_def split: list.split)
  have "lintFold (ms @ ?answers) = []"
  proof (cases "ms = []")
    case True
    then show ?thesis by (simp add: missing_calls_def lintFold_def lint_pass_run lint_start_def lint_first_def)
  next
    case False
    have "lint_pass (ms @ ?answers) = lint_run ?st (length ms) ?answers"
      using first [OF False] by (simp add: lint_pass_run lint_start_def)
    with lint_results [OF opn] k show ?thesis by (simp add: lintFold_def lint_knows_def)
  qed
  moreover have "List.map_filter result_id ?answers = unanswered ms"
    by (simp add: answer_ids missing_unanswered)
  moreover have "?answers = []" if "lintFold ms = []"
    using that opn by (simp add: lintFold_def lint_pass_run Let_def split: if_splits)
  ultimately show ?thesis unfolding heal by blast
qed

definition sample_call :: json where
  "sample_call = JObj [(''role'', JStr ''assistant''), (''content'', JArr [JObj [(''type'', JStr ''toolCall''),
     (''id'', JStr ''c1''), (''name'', JStr ''bash'')]])]"

theorem interrupt_heals_witness:
  "lintFold [user_msg [''go''] (JNum 1), sample_call] = [DanglingAtEnd 1] \<and>
   lintFold (healFoldInterrupt [user_msg [''go''] (JNum 1), sample_call] 9) = []"
proof -
  have l: "lintFold [user_msg [''go''] (JNum 1), sample_call] = [DanglingAtEnd 1]" by code_simp
  then have "list_all at_end (lintFold [user_msg [''go''] (JNum 1), sample_call])" by (simp add: at_end_def)
  from interrupt_heals [OF this, of 9] l show ?thesis by blast
qed


subsection \<open>The messages replayed from a log\<close>

text \<open>
  Messages in which every assistant message with a call has just that call and is followed by its
  result: the state is the call that awaits its result, or \<open>None\<close> for an ill-formed list.
\<close>

definition pair_step :: "string option option \<Rightarrow> replay_message \<Rightarrow> string option option" where
  "pair_step st m = (case (st, m) of
     (Some None, RUser _ _) \<Rightarrow> Some None
   | (Some None, RAssistant bs _) \<Rightarrow>
       if \<not> list_ex is_call bs then Some None
       else (case bs of [RCall c _ _] \<Rightarrow> Some (Some c) | _ \<Rightarrow> None)
   | (Some (Some c), RResult c' _ _ _ _) \<Rightarrow> if c' = c then Some None else None
   | _ \<Rightarrow> None)"


lemma pair_step_simps [simp]:
  "pair_step (Some None) (RUser xs t) = Some None"
  "\<not> list_ex is_call bs \<Longrightarrow> pair_step (Some None) (RAssistant bs t) = Some None"
  "pair_step (Some None) (RAssistant [RCall c name args] t) = Some (Some c)"
  "pair_step (Some (Some c)) (RResult c name' text e t) = Some None"
  "pair_step None m = None"
  by (simp_all add: pair_step_def is_call_def split: replay_block.splits list.splits)

lemma pair_step_user [simp]: "pair_step st (RUser xs t) = (if st = Some None then Some None else None)"
  by (cases st) (auto simp: pair_step_def split: option.split)

lemma pair_step_text [simp]:
  "\<not> list_ex is_call bs \<Longrightarrow> pair_step st (RAssistant bs t) = (if st = Some None then Some None else None)"
  by (cases st) (auto simp: pair_step_def split: option.split)


lemma pair_fold_None [simp]: "foldl pair_step None ms = None"
  by (induction ms) auto

definition message_calls :: "replay_message \<Rightarrow> string list" where
  "message_calls m = (case m of
     RAssistant bs _ \<Rightarrow> List.map_filter (\<lambda>b. case b of RCall c _ _ \<Rightarrow> Some c | _ \<Rightarrow> None) bs | _ \<Rightarrow> [])"

definition calls_of :: "replay_message list \<Rightarrow> string list" where
  "calls_of ms = concat (map message_calls ms)"

lemma calls_of_simps [simp]:
  "calls_of [] = []" "calls_of (m # ms) = message_calls m @ calls_of ms"
  "calls_of (xs @ ys) = calls_of xs @ calls_of ys"
  by (simp_all add: calls_of_def)

lemma message_calls_simps [simp]:
  "message_calls (RUser xs t) = []" "message_calls (RResult i name text e t') = []"
  "message_calls (RAssistant [RCall c name' args] t'') = [c]"
  by (simp_all add: message_calls_def List.map_filter_simps)






















subsection \<open>What an audience gets\<close>

text \<open>
  Two rows an audience cannot tell apart: they differ at most in the payload of a message it is not
  entitled to, and there neither in being the result of a tool call nor in the names of that call.
\<close>

definition same_to_audience ::
  "principal list \<Rightarrow> scope_id \<Rightarrow> scope_id \<Rightarrow> tape_record \<Rightarrow> tape_record \<Rightarrow> bool" where
  "same_to_audience audience sess org r r' \<longleftrightarrow>
     r' = r \<or>
     (r' = r\<lparr>tp_payload := tp_payload r'\<rparr> \<and> tp_kind r = TkMessage \<and>
      \<not> entitled_all audience sess org (tp_scopeLabel r) \<and>
      has_str (tp_payload r') ''role'' ''toolResult'' = has_str (tp_payload r) ''role'' ''toolResult'' \<and>
      jstring (jfield (tp_payload r') ''toolCallId'') = jstring (jfield (tp_payload r) ''toolCallId'') \<and>
      jstring (jfield (tp_payload r') ''toolName'') = jstring (jfield (tp_payload r) ''toolName''))"

lemma same_audience_row:
  assumes "same_to_audience audience sess org r r'"
  shows "audience_row audience sess org r' = audience_row audience sess org r"
proof (cases "r' = r")
  case False
  with assms have d: "r' = r\<lparr>tp_payload := tp_payload r'\<rparr>" "tp_kind r = TkMessage"
    "\<not> entitled_all audience sess org (tp_scopeLabel r)"
    "has_str (tp_payload r') ''role'' ''toolResult'' = has_str (tp_payload r) ''role'' ''toolResult''"
    "jstring (jfield (tp_payload r') ''toolCallId'') = jstring (jfield (tp_payload r) ''toolCallId'')"
    "jstring (jfield (tp_payload r') ''toolName'') = jstring (jfield (tp_payload r) ''toolName'')"
    unfolding same_to_audience_def by blast+
  obtain p where r': "r' = r\<lparr>tp_payload := p\<rparr>" using d(1) by blast
  show ?thesis using d(2-6) unfolding r'
    by (simp add: audience_row_def audience_stub_def split: option.split)
qed simp

text \<open>
  C3. The tape an audience gets does not depend on what it may not read: tapes it cannot tell apart
  are filtered to the same rows, so they fold to the same messages; and every message among the
  rows either has a scope all of the audience is entitled to or is the stub of an interrupted tool
  result.
\<close>

theorem audience_noninterference:
  assumes "list_all2 (same_to_audience audience sess org) rows rows'"
  shows "filterTapeForAudience rows' audience sess org = filterTapeForAudience rows audience sess org \<and>
    foldTape (filterTapeForAudience rows' audience sess org) =
      foldTape (filterTapeForAudience rows audience sess org) \<and>
    (\<forall>r \<in> set (filterTapeForAudience rows audience sess org). tp_kind r = TkMessage \<longrightarrow>
       entitled_all audience sess org (tp_scopeLabel r) \<or>
       (\<exists>i name. tp_payload r = tool_result_msg i (JStr name) INTERRUPTED_TOOL_RESULT True (tp_createdAt r)))"
proof -
  have "List.map_filter (audience_row audience sess org) rows' =
      List.map_filter (audience_row audience sess org) rows"
    using assms by (induction rule: list_all2_induct)
      (simp_all add: List.map_filter_simps same_audience_row split: option.split)
  moreover have "entitled_all audience sess org (tp_scopeLabel r) \<or>
       (\<exists>i name. tp_payload r = tool_result_msg i (JStr name) INTERRUPTED_TOOL_RESULT True (tp_createdAt r))"
    if "audience_row audience sess org r0 = Some r" "tp_kind r = TkMessage" for r0 r
    using that by (auto simp: audience_row_def audience_stub_def split: if_splits option.splits) blast
  ultimately show ?thesis
    by (auto simp: filterTapeForAudience_def List.map_filter_def)
qed

definition sample_message :: "string \<Rightarrow> string \<Rightarrow> tape_record" where
  "sample_message scope text =
     \<lparr>tp_kind = TkMessage, tp_payload = user_msg [text] (JNum 1), tp_scopeLabel = scope, tp_harness = None,
      tp_meta = None, tp_entrySeq = None, tp_coversEntrySeq = None, tp_sessionId = ''s'', tp_seq = 0,
      tp_createdAt = 1\<rparr>"

theorem audience_noninterference_witness:
  "filterTapeForAudience [sample_message ''org:o'' ''hi'', sample_message ''personal:ann'' ''secret'']
     [\<lparr>pr_id = ''bob'', pr_teamIds = None\<rparr>] ''channel:c'' ''org:o'' =
   filterTapeForAudience [sample_message ''org:o'' ''hi'', sample_message ''personal:ann'' ''other'']
     [\<lparr>pr_id = ''bob'', pr_teamIds = None\<rparr>] ''channel:c'' ''org:o''"
proof -
  have "list_all2 (same_to_audience [\<lparr>pr_id = ''bob'', pr_teamIds = None\<rparr>] ''channel:c'' ''org:o'')
      [sample_message ''org:o'' ''hi'', sample_message ''personal:ann'' ''other'']
      [sample_message ''org:o'' ''hi'', sample_message ''personal:ann'' ''secret'']"
    by (simp add: same_to_audience_def sample_message_def) code_simp
  from audience_noninterference [OF this] show ?thesis by blast
qed

end
