(* ===== verification/TapeImages.thy ===== *)
theory TapeImages
  imports TapeProps
begin

section \<open>Images within their budget\<close>

text \<open>
  \<open>rehydrateFoldImages\<close> of \<open>src/src/harness/tape-fold.ts\<close>: which blocks it replaces by what, and that
  the images it puts back fit the budget.
\<close>

subsection \<open>Positions of blocks\<close>







subsection \<open>The pass over the candidates\<close>

















subsection \<open>The messages afterwards\<close>











end
