(* ===== verification/ProjectionProps.thy ===== *)
theory ProjectionProps
  imports Projection TapeProps
begin

section \<open>What a projection guarantees\<close>

text \<open>
  A projection numbers its entries upwards from its base and, on a tape of the native harness,
  without a gap up to the number it covers.
\<close>

subsection \<open>Numbering\<close>














lemma settle_fold_None [simp]: "foldl (settle_event sid base) None evs = None"
  by (induction evs) (simp_all add: settle_event_def)




subsection \<open>A native tape has no coarse stretch\<close>





lemma draft_fold_None [simp]: "foldl draft_row None rows = None"
  by (induction rows) (simp_all add: draft_row_def)



subsection \<open>Projections\<close>







end
