(* ===== verification/TranscriptProps.thy ===== *)
theory TranscriptProps
  imports Transcripts SessionVisibility
begin

section \<open>What the source of transcripts guarantees\<close>

text \<open>
  For the stores the operations reach, the transcript a client is shown is the log, and the
  transcript a viewer is shown is what the viewer may see, both cut at the limit.
\<close>

subsection \<open>Segments of a log\<close>

definition segment :: "session_entry list \<Rightarrow> nat \<Rightarrow> nat \<Rightarrow> session_entry list" where
  "segment log a k = drop a (take k log)"

lemma length_segment [simp]: "k \<le> length log \<Longrightarrow> length (segment log a k) = k - a"
  by (simp add: segment_def)

lemma segment_nth: "k \<le> length log \<Longrightarrow> i < k - a \<Longrightarrow> segment log a k ! i = log ! (a + i)"
  by (simp add: segment_def)

lemma segment_mem:
  "k \<le> length log \<longrightarrow> e \<in> set (segment log a k) \<longleftrightarrow> (\<exists>i. a \<le> i \<and> i < k \<and> e = log ! i)"
proof
  assume k: "k \<le> length log"
  show "e \<in> set (segment log a k) \<longleftrightarrow> (\<exists>i. a \<le> i \<and> i < k \<and> e = log ! i)"
  proof
    assume "e \<in> set (segment log a k)"
    then obtain i where "i < k - a" "e = segment log a k ! i" using k by (auto simp: in_set_conv_nth)
    then show "\<exists>i. a \<le> i \<and> i < k \<and> e = log ! i" using k by (intro exI [of _ "a + i"]) (simp add: segment_nth)
  next
    assume "\<exists>i. a \<le> i \<and> i < k \<and> e = log ! i"
    then obtain i where i: "a \<le> i" "i < k" "e = log ! i" by blast
    then have "segment log a k ! (i - a) = e" "i - a < length (segment log a k)"
      using k by (simp_all add: segment_nth)
    then show "e \<in> set (segment log a k)" using nth_mem by blast
  qed
qed

lemma segment_split: "a \<le> b \<Longrightarrow> b \<le> k \<Longrightarrow> segment log a b @ segment log b k = segment log a k"
proof -
  assume ab: "a \<le> b" "b \<le> k"
  then have "take k log = take b log @ drop b (take k log)"
    by (metis append_take_drop_id min.absorb1 take_take)
  with ab show ?thesis by (cases "b \<le> length log") (simp_all add: segment_def drop_append drop_take)
qed

lemma seq_at: "log_ok sid log \<Longrightarrow> i < length log \<Longrightarrow> en_seq (log ! i) = int i"
  by (simp add: log_ok_def)

lemma filter_segment:
  assumes "log_ok sid log" "k \<le> length log"
  shows "filter (\<lambda>e. lo \<le> en_seq e \<and> en_seq e < hi) (segment log a k) =
    segment log (max a (nat lo)) (min k (nat hi))"
proof -
  define y where "y = max a (min k (nat hi))"
  define x where "x = min y (max a (nat lo))"
  have none: "filter P (segment log b c) = []" if "\<And>i. b \<le> i \<Longrightarrow> i < c \<Longrightarrow> \<not> P (log ! i)" "c \<le> k" for P b c
    using that assms(2) by (auto simp: filter_empty_conv segment_mem)
  show ?thesis
  proof (cases "a \<le> k")
    case False
    then show ?thesis using assms(2) by (simp add: segment_def)
  next
    case True
    let ?P = "\<lambda>e. lo \<le> en_seq e \<and> en_seq e < hi"
    have o: "a \<le> x" "x \<le> y" "y \<le> k" using True by (auto simp: x_def y_def)
    have "segment log a k = segment log a x @ segment log x y @ segment log y k"
      using o segment_split by (metis order_trans)
    moreover have "filter ?P (segment log a x) = []"
      using o assms by (intro none) (auto simp: seq_at x_def y_def)
    moreover have last: "filter ?P (segment log y k) = []"
      using o assms by (intro none) (auto simp: seq_at y_def)
    have mid: "nat lo \<le> i \<and> i < nat hi" if "x \<le> i" "i < y" for i
      using that by (auto simp: x_def y_def min_def max_def split: if_splits)
    have "?P (log ! i)" if "x \<le> i" "i < y" for i
      using mid [OF that] that(2) o(3) assms by (simp add: seq_at) linarith
    then have "filter ?P (segment log x y) = segment log x y"
      using o assms(2) by (auto simp: filter_id_conv segment_mem)
    moreover note this
    moreover have "segment log x y = segment log (max a (nat lo)) (min k (nat hi))"
      by (auto simp: x_def y_def segment_def min_def max_def)
    ultimately show ?thesis using last by simp
  qed
qed

lemma slice_segment:
  "n > 0 \<Longrightarrow> k \<le> length log \<Longrightarrow> slice_last n (segment log a k) = segment log (max a (k - nat n)) k"
proof -
  assume a: "n > 0" "k \<le> length log"
  have "k - a - nat n + a = max a (k - nat n) \<or> k < a" by linarith
  then show ?thesis using a by (auto simp: slice_last_def last_n_def segment_def)
qed


subsection \<open>The mirror reads the log\<close>

lemma getEntries_segment:
  fixes sid :: ident
  assumes "session_inv st" "eq_limit q = None \<or> eq_limit q = Some n \<and> n > 0"
  defines "log \<equiv> session_log st sid"
  defines "k \<equiv> nat (latest_below st sid (eq_beforeSeq q) + 1)"
  defines "s \<equiv> nat (or_else (eq_sinceSeq q) 0)"
  shows "k \<le> length log" "getEntries st sid q =
    segment log (case eq_limit q of None \<Rightarrow> s | Some m \<Rightarrow> max s (k - nat m)) k"
proof -
  let ?hi = "case eq_beforeSeq q of None \<Rightarrow> int (length log) | Some b \<Rightarrow> b"
  have k: "k = min (length log) (nat ?hi)"
    by (auto simp: k_def latest_below_def latestEntrySeq_def log_def split: option.split)
  then show kl: "k \<le> length log" by simp
  have ok: "log_ok sid log" using session_invD(5) [OF assms(1)] by (simp add: log_def)
  have "in_range q e \<longleftrightarrow> or_else (eq_sinceSeq q) 0 \<le> en_seq e \<and> en_seq e < ?hi" if "e \<in> set log" for e
  proof -
    from that ok have "en_seq e < int (length log)" by (auto simp: in_set_conv_nth seq_at)
    then show ?thesis by (auto simp: in_range_def split: option.split)
  qed
  then have "filter (in_range q) log =
      filter (\<lambda>e. or_else (eq_sinceSeq q) 0 \<le> en_seq e \<and> en_seq e < ?hi) (segment log 0 (length log))"
    by (simp add: segment_def cong: filter_cong)
  also have "\<dots> = segment log s k"
    using filter_segment [OF ok order_refl, of "or_else (eq_sinceSeq q) 0" ?hi 0] by (simp add: k s_def)
  finally have "filter (in_range q) log = segment log s k" .
  then show "getEntries st sid q = segment log (case eq_limit q of None \<Rightarrow> s | Some m \<Rightarrow> max s (k - nat m)) k"
    using assms(2) slice_segment [OF _ kl]
    by (auto simp: getEntries_def log_def [symmetric] Let_def split: option.split)
qed

definition limit_ok :: "int option \<Rightarrow> bool" where
  "limit_ok limit \<longleftrightarrow> (\<forall>n. limit = Some n \<longrightarrow> n > 0)"

lemma projected_segment:
  fixes sid :: ident and before :: "int option"
  assumes "session_inv st" "limit_ok limit"
  defines "k \<equiv> nat (latest_below st sid before + 1)"
  defines "start \<equiv> (case limit of None \<Rightarrow> 0 | Some n \<Rightarrow> k - nat n)"
  shows "projected True st sid limit before = Some \<lparr>prd_entries = segment (session_log st sid) start k,
    prd_anchored = (start > 0), prd_base = int start - 1\<rparr>"
proof -
  let ?log = "session_log st sid" and ?q = "query_of None before limit"
  let ?latest = "latest_below st sid before"
  have lim: "eq_limit ?q = None \<or> eq_limit ?q = Some n \<and> n > 0" if "n = or_else limit 1" for n
    using assms(2) that by (cases limit) (auto simp: query_of_def limit_ok_def)
  from getEntries_segment [OF assms(1) lim [OF refl], of sid]
  have kl: "k \<le> length ?log" and g: "getEntries st sid ?q = segment ?log start k"
    by (auto simp: query_of_def k_def start_def split: option.splits)
  have t: "getTranscriptEntries st sid ?q = segment ?log start k"
    using transcript_read [OF assms(1), of ?q sid] assms(2) g by (auto simp: query_of_def limit_ok_def)
  have empty: "k = 0 \<and> start = 0" if "?latest < 0"
    using that by (auto simp: k_def start_def split: option.split)
  have start: "(case limit of None \<Rightarrow> 0 | Some n \<Rightarrow> max 0 (?latest - n + 1)) = int start" if "?latest \<ge> 0"
    using that assms(2) by (auto simp: start_def k_def limit_ok_def split: option.split)
  have ok: "log_ok sid ?log" using session_invD(5) [OF assms(1)] .
  have mirror: "mirror_read st sid ?latest limit before =
      Some \<lparr>prd_entries = segment ?log start k, prd_anchored = (start > 0), prd_base = int start - 1\<rparr>"
    if l: "?latest \<ge> 0"
  proof -
    have "start \<le> k" by (simp add: start_def split: option.split)
    then have "int (length (segment ?log start k)) = ?latest - int start + 1"
      using kl l by (simp add: k_def)
    moreover have "list_all (\<lambda>(i, e). en_seq e = int start + int i) (enumerate 0 (segment ?log start k))"
      using kl ok by (auto simp: list_all_iff in_set_enumerate_eq segment_nth seq_at)
    ultimately show ?thesis unfolding mirror_read_def t start [OF l] by (simp add: Let_def)
  qed
  show ?thesis
  proof (cases "?latest < 0")
    case True
    then show ?thesis using empty
      by (cases before) (simp_all add: projected_def projected_all_def latest_below_def segment_def)
  next
    case False
    then have m: "mirror_read st sid ?latest limit before =
      Some \<lparr>prd_entries = segment ?log start k, prd_anchored = (start > 0), prd_base = int start - 1\<rparr>"
      by (intro mirror) simp
    show ?thesis
    proof (cases before)
      case None
      with False m show ?thesis by (simp add: projected_def projected_all_def latest_below_def)
    next
      case (Some b)
      with False m show ?thesis by (simp add: projected_def)
    qed
  qed
qed

lemma first_of_segment:
  "log_ok sid log \<Longrightarrow> k \<le> length log \<Longrightarrow> segment log a k \<noteq> [] \<Longrightarrow> en_seq (hd (segment log a k)) = int a"
  by (cases "a < k") (auto simp: hd_conv_nth segment_nth seq_at segment_def)

lemma since_segment:
  "log_ok sid log \<Longrightarrow> k \<le> length log \<Longrightarrow>
     filter (\<lambda>e. s \<le> en_seq e) (segment log a k) = segment log (max a (nat s)) k"
proof -
  assume a: "log_ok sid log" "k \<le> length log"
  have "filter (\<lambda>e. s \<le> en_seq e) (segment log a k) =
      filter (\<lambda>e. s \<le> en_seq e \<and> en_seq e < int k) (segment log a k)"
    using a by (intro filter_cong) (auto simp: segment_mem seq_at)
  then show ?thesis using filter_segment [OF a, of s "int k" a] by simp
qed

text \<open>
  C6. The transcript a client is shown is the log: in every store the operations reach, for every
  range and every positive limit, the entries read through the mirror on the tape are those the log
  itself answers with, and when there are any, the number given with them is that of the entries
  before the first.
\<close>

theorem render_reads_log:
  assumes "session_inv st" and "limit_ok (eq_limit q)"
  shows "fst (forRender True st sid q) = getEntries st sid q \<and>
    (getEntries st sid q \<noteq> [] \<longrightarrow> snd (forRender True st sid q) = en_seq (hd (getEntries st sid q)))"
proof -
  define log where "log = session_log st sid"
  define k where "k = nat (latest_below st sid (eq_beforeSeq q) + 1)"
  define start where "start = (case eq_limit q of None \<Rightarrow> 0 | Some n \<Rightarrow> k - nat n)"
  define s where "s = nat (or_else (eq_sinceSeq q) 0)"
  define first where "first = (case eq_limit q of None \<Rightarrow> s | Some n \<Rightarrow> max s (k - nat n))"
  have lim: "eq_limit q = None \<or> eq_limit q = Some n \<and> n > 0" if "n = or_else (eq_limit q) 1" for n
    using assms(2) that by (cases "eq_limit q") (auto simp: limit_ok_def)
  have kl: "k \<le> length log" and g: "getEntries st sid q = segment log first k"
    unfolding first_def log_def k_def s_def using getEntries_segment [OF assms(1) lim [OF refl], of sid] by blast+
  have ok: "log_ok sid log" using session_invD(5) [OF assms(1)] by (simp add: log_def)
  have p: "projected True st sid (eq_limit q) (eq_beforeSeq q) = Some \<lparr>prd_entries = segment log start k,
      prd_anchored = (start > 0), prd_base = int start - 1\<rparr>"
    unfolding start_def log_def k_def by (rule projected_segment [OF assms])
  have ms: "max start s = first" by (simp add: start_def first_def max.commute split: option.split)
  have since: "(case eq_sinceSeq q of None \<Rightarrow> segment log start k
      | Some n \<Rightarrow> filter (\<lambda>e. n \<le> en_seq e) (segment log start k)) = segment log first k"
    using since_segment [OF ok kl, of _ start] ms by (cases "eq_sinceSeq q") (auto simp: s_def)
  have cut: "(case (if b then None else eq_limit q) of
      None \<Rightarrow> segment log first k | Some n \<Rightarrow> slice_last n (segment log first k)) = segment log first k" for b
    using assms(2) kl by (auto simp: limit_ok_def slice_segment first_def split: option.split)
  have len: "int (length (segment log start k)) + (if start > 0 then int start else 0) = int k"
    using kl by (auto simp: start_def split: option.split)
  have r: "forRender True st sid q = (segment log first k, int k - int (length (segment log first k)))"
    unfolding forRender_def p option.case Let_def projected_read.select_convs since cut using len by (simp split: if_splits)
  have "int k - int (length (segment log first k)) = int first" if "segment log first k \<noteq> []"
  proof -
    from that have "first < k" by (cases "first < k") (auto simp: segment_def)
    with kl show ?thesis by simp
  qed
  then show ?thesis using r g first_of_segment [OF ok kl] by simp
qed

theorem render_reads_log_witness:
  "fst (forRender True sample_sessions ''s'' (query_of (Some 1) None (Some 5))) =
     getEntries sample_sessions ''s'' (query_of (Some 1) None (Some 5)) \<and>
   length (getEntries sample_sessions ''s'' (query_of (Some 1) None (Some 5))) = 1"
proof -
  have "length (getEntries sample_sessions ''s'' (query_of (Some 1) None (Some 5))) = 1" by code_simp
  moreover have "limit_ok (eq_limit (query_of (Some 1) None (Some 5)))"
    by (simp add: query_of_def limit_ok_def)
  ultimately show ?thesis using render_reads_log [OF sample_sessions_inv] by blast
qed


subsection \<open>What a viewer is shown\<close>

text \<open>
  A tenure with numbers: it starts at a number of the log, and it is closed by a time exactly when
  it is closed by a number. The operations make no other tenures.
\<close>

definition numbered :: "participant_view \<Rightarrow> bool" where
  "numbered w \<longleftrightarrow> (\<exists>n. tn_validFromSeq w = Some (int n)) \<and> (tn_validTo w = None \<longleftrightarrow> tn_validToSeq w = None)"

definition windows_numbered :: "session_store \<Rightarrow> bool" where
  "windows_numbered st \<longleftrightarrow> (\<forall>sid p w. session_window st sid p = Some w \<longrightarrow> numbered w)"

lemma windows_numbered_same:
  "windows_numbered st \<Longrightarrow> (\<And>i p. session_window st' i p = session_window st i p \<or> session_window st' i p = None) \<Longrightarrow>
     windows_numbered st'"
  unfolding windows_numbered_def by (metis option.distinct(1))

lemma windows_numbered_kept:
  "windows_numbered st \<Longrightarrow> ss_windows st' = ss_windows st \<Longrightarrow> windows_numbered st'"
  by (simp add: windows_numbered_def session_window_def session_windows_def)

lemma windows_numbered_put:
  "windows_numbered st \<Longrightarrow> numbered w \<Longrightarrow> windows_numbered (put_window st sid p w)"
  by (auto simp: windows_numbered_def session_window_def session_windows_def put_window_def split: if_splits)

lemma numbered_view [simp]:
  "numbered (w\<lparr>pv_title := a\<rparr>) = numbered w" "numbered (w\<lparr>pv_archived := b\<rparr>) = numbered w"
  "numbered (w\<lparr>pv_pinned := c\<rparr>) = numbered w" "numbered (w\<lparr>pv_color := d\<rparr>) = numbered w"
  by (simp_all add: numbered_def)

lemma window_deleted: "session_window (deleteSession st sid) i p = (if i = sid then None else session_window st i p)"
  by (simp add: deleteSession_def session_window_def session_windows_def)

lemma session_step_numbered:
  assumes "session_inv st" "windows_numbered st"
  shows "windows_numbered (session_step hash st x)"
proof (cases x)
  case (SoAppend l e clk)
  then show ?thesis using append_frame [OF assms(1)] by (intro windows_numbered_same [OF assms(2)]) simp
next
  case (SoClearTaint i clk)
  then show ?thesis
    by (intro windows_numbered_same [OF assms(2)])
      (simp add: clearSecurityTaint_def clear_taint_loop_frame split: option.split)
next
  case (SoDelete i)
  then show ?thesis by (intro windows_numbered_same [OF assms(2)]) (simp add: window_deleted)
next
  case (SoDeleteIfEmpty i now)
  then show ?thesis
    by (intro windows_numbered_same [OF assms(2)]) (simp add: deleteSessionIfEmpty_def window_deleted)
next
  case (SoAppendTape l r clk)
  then show ?thesis
    by (intro windows_numbered_same [OF assms(2)])
      (simp add: appendTape_state_def appendTape_def Let_def push_tape_frame session_window_def session_windows_def)
next
  case (SoView i q patch)
  then show ?thesis using assms(2)
    by (auto simp: updateParticipantView_def windows_numbered_def split: option.split
        intro!: windows_numbered_put [OF assms(2), unfolded windows_numbered_def, rule_format])
next
  case (SoRemove i q now)
  then show ?thesis using assms(2)
    by (auto simp: removeParticipant_def split: option.split intro!: windows_numbered_put)
      (auto simp: windows_numbered_def numbered_def)
next
  case (SoAdd i q u h now)
  let ?st1 = "st\<lparr>ss_participants := jset (ss_participants st) q (sadd (or_else (jget (ss_participants st) q) []) i)\<rparr>"
  have w1: "windows_numbered ?st1" by (rule windows_numbered_same [OF assms(2)]) (simp add: participants_frame)
  have "numbered w" if "session_window ?st1 i q = Some w" for w using w1 that by (simp add: windows_numbered_def)
  then show ?thesis using SoAdd
    by (auto simp: addParticipant_def Let_def split: option.split intro!: windows_numbered_put [OF w1])
      (auto simp: numbered_def)
qed (rule windows_numbered_kept [OF assms(2)], auto simp: updateTitle_def updateForkProvenance_def
    setParentSession_def setSpawnMeta_def upd_session_def acquireLease_def renewLease_def
    releaseSessionLease_def forceReleaseLease_def addPin_def removePin_def recordLlmRequest_def Let_def
    getOrCreateByThread_def appendSearch_state_def appendSearchEntries_def split: option.split)+

interpretation numbering: op_invariant "session_step hash" session_ok "\<lambda>st. session_inv st \<and> windows_numbered st"
  for hash
  by unfold_locales (simp add: session_step_inv session_step_numbered)

lemma empty_numbered: "windows_numbered (createMemorySessionStore ttl)"
  by (simp add: windows_numbered_def createMemorySessionStore_def session_window_def session_windows_def)


lemma find_window:
  "find (\<lambda>(i, _). i = p) (participantWindowsOf st sid) =
     map_option (\<lambda>w. (p, tenure.truncate w)) (session_window st sid p)"
proof -
  have "find (\<lambda>(i, _). i = p) (map (\<lambda>(p, w). (p, tenure.truncate w)) ws) =
      map_option (\<lambda>w. (p, tenure.truncate w)) (jget ws p)" for ws :: "(string \<times> participant_view) list"
    by (induction ws) auto
  then show ?thesis by (simp add: participantWindowsOf_def session_window_def)
qed

definition below :: "int option \<Rightarrow> session_entry \<Rightarrow> bool" where
  "below before e = (case before of None \<Rightarrow> True | Some b \<Rightarrow> en_seq e < b)"

text \<open>What a viewer should be shown, and how many visible entries are before it.\<close>

definition viewer_spec ::
  "session_store \<Rightarrow> ident \<Rightarrow> string \<Rightarrow> int option \<Rightarrow> int option \<Rightarrow> session_entry list \<times> int" where
  "viewer_spec st sid p limit before =
     (let visible = filter (below before) (visibleEntries st sid p);
          still = (case session_window st sid p of None \<Rightarrow> False | Some w \<Rightarrow> tn_validTo w = None);
          shown = (case limit of Some n \<Rightarrow> if still then slice_last n visible else visible | None \<Rightarrow> visible)
      in (shown, int (length visible) - int (length shown)))"

lemma visible_segment:
  fixes before :: "int option" and sid :: ident
  assumes "session_inv st" "session_window st sid p = Some w" "tn_validFromSeq w = Some (int f)"
    "tn_validTo w = None \<longleftrightarrow> tn_validToSeq w = None"
  defines "k \<equiv> nat (latest_below st sid before + 1)"
  defines "m \<equiv> (case tn_validToSeq w of None \<Rightarrow> k | Some t \<Rightarrow> min k (nat t))"
  shows "k \<le> length (session_log st sid)"
    and "filter (in_window (tenure.truncate w)) (segment (session_log st sid) a k) =
      segment (session_log st sid) (max a f) m"
    and "filter (below before) (visibleEntries st sid p) = segment (session_log st sid) f m"
proof -
  let ?log = "session_log st sid"
  have ok: "log_ok sid ?log" using session_invD(5) [OF assms(1)] .
  have k: "k = min (length ?log) (nat (case before of None \<Rightarrow> int (length ?log) | Some b \<Rightarrow> b))"
    by (auto simp: k_def latest_below_def latestEntrySeq_def split: option.split)
  then show kl: "k \<le> length ?log" by simp
  have iw: "in_window (tenure.truncate w) e \<longleftrightarrow> int f \<le> en_seq e \<and>
      en_seq e < (case tn_validToSeq w of None \<Rightarrow> int k | Some t \<Rightarrow> t)" if "en_seq e < int k" for e
    using that assms(3,4) by (auto simp: in_window_def entryWithinTenure_def split: option.split)
  show w: "filter (in_window (tenure.truncate w)) (segment ?log a k) = segment ?log (max a f) m" for a
  proof -
    have "filter (in_window (tenure.truncate w)) (segment ?log a k) = filter (\<lambda>e. int f \<le> en_seq e \<and>
        en_seq e < (case tn_validToSeq w of None \<Rightarrow> int k | Some t \<Rightarrow> t)) (segment ?log a k)"
      using kl ok iw by (intro filter_cong) (auto simp: segment_mem seq_at)
    then show ?thesis unfolding filter_segment [OF ok kl] m_def by (simp split: option.split)
  qed
  have "filter (below before) (segment ?log 0 (length ?log)) = segment ?log 0 k"
  proof -
    have "filter (below before) (segment ?log 0 (length ?log)) = filter (\<lambda>e. 0 \<le> en_seq e \<and>
        en_seq e < (case before of None \<Rightarrow> int (length ?log) | Some b \<Rightarrow> b)) (segment ?log 0 (length ?log))"
      using ok by (intro filter_cong) (auto simp: segment_mem seq_at below_def split: option.split)
    then show ?thesis unfolding filter_segment [OF ok order_refl] k by simp
  qed
  then have cut: "filter (below before) (session_log st sid) = segment ?log 0 k" by (simp add: segment_def)
  have "filter (below before) (filter (in_window (tenure.truncate w)) ?log) =
      filter (in_window (tenure.truncate w)) (filter (below before) ?log)"
    by (simp add: conj_commute)
  also have "\<dots> = segment ?log f m" unfolding cut w by simp
  finally have "filter (below before) (filter (in_window (tenure.truncate w)) ?log) = segment ?log f m" .
  then show "filter (below before) (visibleEntries st sid p) = segment ?log f m"
    using assms(2) by (simp add: visibleEntries_def within_def in_window_def)
qed

lemma viewer_is_spec:
  assumes "session_inv st" and "windows_numbered st" and "limit_ok limit"
  shows "forViewer True st sid p limit before = viewer_spec st sid p limit before"
proof (cases "session_window st sid p")
  case None
  then show ?thesis
    by (simp add: forViewer_def find_window viewer_spec_def visibleEntries_def split: option.split)
next
  case (Some w)
  with assms(2) have "numbered w" by (simp add: windows_numbered_def)
  then obtain f where f: "tn_validFromSeq w = Some (int f)" and tb: "tn_validTo w = None \<longleftrightarrow> tn_validToSeq w = None"
    by (auto simp: numbered_def)
  define log where "log = session_log st sid"
  define k where "k = nat (latest_below st sid before + 1)"
  define m where "m = (case tn_validToSeq w of None \<Rightarrow> k | Some t \<Rightarrow> min k (nat t))"
  note seg = visible_segment [OF assms(1) Some f tb, where before = before, folded k_def, folded m_def log_def]
  note proj = projected_segment [OF assms(1), of _ sid before, folded k_def log_def]
  have ok: "log_ok sid log" using session_invD(5) [OF assms(1)] by (simp add: log_def)
  have spec: "viewer_spec st sid p limit before = (let shown = (case limit of
      Some n \<Rightarrow> if tn_validToSeq w = None then segment log (max f (m - nat n)) m else segment log f m
    | None \<Rightarrow> segment log f m) in (shown, int (length (segment log f m)) - int (length shown)))"
    using assms(3) seg(1) tb
    by (auto simp: viewer_spec_def Let_def Some seg(3) limit_ok_def slice_segment m_def split: option.split)
  show ?thesis
  proof (cases "tn_validToSeq w")
    case (Some t)
    have pr: "projected True st sid None before = Some \<lparr>prd_entries = segment log 0 k, prd_anchored = False, prd_base = -1\<rparr>"
      using proj [of None] by (simp add: limit_ok_def)
    show ?thesis unfolding spec
      using Some tb by (simp add: forViewer_def find_window \<open>session_window st sid p = _\<close> f pr seg(2) viewer_page_def
          Let_def split: option.split)
  next
    case None
    then have mk: "m = k" by (simp add: m_def)
    have pr: "projected True st sid None before = Some \<lparr>prd_entries = segment log 0 k, prd_anchored = False, prd_base = -1\<rparr>"
      using proj [of None] by (simp add: limit_ok_def)
    show ?thesis
    proof (cases limit)
      case None
      then show ?thesis unfolding spec
        using \<open>tn_validToSeq w = None\<close> tb
        by (simp add: forViewer_def find_window \<open>session_window st sid p = _\<close> f pr seg(2) viewer_page_def Let_def)
    next
      case (Some n)
      then have n: "n > 0" using assms(3) by (simp add: limit_ok_def)
      have pn: "projected True st sid (Some n) before = Some \<lparr>prd_entries = segment log (k - nat n) k,
          prd_anchored = (k - nat n > 0), prd_base = int (k - nat n) - 1\<rparr>"
        using proj [of "Some n"] n by (simp add: limit_ok_def)
      have first: "before = None \<Longrightarrow> projected True st sid None None =
          Some \<lparr>prd_entries = segment log 0 k, prd_anchored = False, prd_base = -1\<rparr>"
        using pr by simp
      show ?thesis unfolding spec
        using \<open>tn_validToSeq w = None\<close> tb n seg(1)
        by (auto simp: forViewer_def find_window \<open>session_window st sid p = _\<close> f Some first pr pn seg(2) viewer_page_def
            Let_def mk slice_segment max_def)
    qed
  qed
qed

text \<open>
  C7. A viewer is shown what they may see and nothing else: in every store the operations reach, for
  every cursor and every positive limit, the page of a transcript given to a person is the last
  entries within their tenure before the cursor, up to the limit while they are a participant and
  all of them once they have left, and the number given with it is that of the visible entries
  before the page.
\<close>

theorem viewer_reads_window:
  assumes "ok_run (session_step hash) session_ok (createMemorySessionStore ttl) ops" and "limit_ok limit"
  defines "st \<equiv> foldl (session_step hash) (createMemorySessionStore ttl) ops"
  shows "forViewer True st sid p limit before = viewer_spec st sid p limit before"
proof -
  have "session_inv st \<and> windows_numbered st"
    unfolding st_def by (rule numbering.run_keeps [OF _ assms(1)]) (simp add: empty_session_inv empty_numbered)
  then show ?thesis using viewer_is_spec assms(2) by blast
qed

definition viewer_ops :: "session_op list" where
  "viewer_ops = sample_session_ops @ [SoAdd ''s'' ''ann'' None False 5, tenure_append ''in'', tenure_append ''on'']"

theorem viewer_reads_window_witness:
  "map en_seq (fst (forViewer True (foldl (session_step (\<lambda>_. [])) (createMemorySessionStore None) viewer_ops)
     ''s'' ''ann'' (Some 1) None)) = [3]"
proof -
  have ok: "ok_run (session_step (\<lambda>_. [])) session_ok (createMemorySessionStore None) viewer_ops"
    by code_simp
  have "forViewer True (foldl (session_step (\<lambda>_. [])) (createMemorySessionStore None) viewer_ops)
      ''s'' ''ann'' (Some 1) None =
    viewer_spec (foldl (session_step (\<lambda>_. [])) (createMemorySessionStore None) viewer_ops)
      ''s'' ''ann'' (Some 1) None"
    by (rule viewer_reads_window [OF ok]) (simp add: limit_ok_def)
  moreover have "map en_seq (fst (viewer_spec
      (foldl (session_step (\<lambda>_. [])) (createMemorySessionStore None) viewer_ops) ''s'' ''ann'' (Some 1) None)) = [3]"
    unfolding viewer_spec_def by code_simp
  ultimately show ?thesis by simp
qed

end
