(* ===== verification/LeaseWait.thy ===== *)
theory LeaseWait
  imports SessionWrites
begin

section \<open>Waiting for a lease ends, and ends well\<close>

text \<open>
  The two loops of \<open>acquireLeaseWithin\<close> return whatever the other operations do meanwhile, since
  every sleep takes at least the smallest delay; and the lease is acquired when nobody holds it for
  longer than the time there is.
\<close>

subsection \<open>One round of the inner loop\<close>

definition wait_round :: "wait_world \<Rightarrow> time \<Rightarrow> wait_state \<Rightarrow> wait_state" where
  "wait_round w deadline s = wait_await w 0 (wait_sleep w deadline s)"

definition seen_free :: "wait_world \<Rightarrow> ident \<Rightarrow> time \<Rightarrow> wait_state \<Rightarrow> bool" where
  "seen_free w sid deadline s = (case peekLease (wt_store (wait_sleep w deadline s)) sid of
     None \<Rightarrow> True | Some (_, heldUntil) \<Rightarrow> heldUntil \<le> wt_now (wait_round w deadline s))"

definition no_lag :: "wait_world \<Rightarrow> bool" where "no_lag w \<longleftrightarrow> (\<forall>n. ww_lag w n = 0)"

lemma wait_free_unfold:
  "wait_free w sid deadline s =
     (if wt_now s + 25 > deadline then Some (s, False)
      else if seen_free w sid deadline s then Some (wait_round w deadline s, True)
      else wait_free w sid deadline (wait_round w deadline s))"
  unfolding seen_free_def wait_round_def
  by (subst wait_free.simps) (simp add: Let_def LEASE_WAIT_MIN_DELAY_MS_def)

lemma wait_round_facts:
  assumes "wt_delay s \<ge> 25" "wt_now s + 25 \<le> deadline"
  shows "wt_delay (wait_round w deadline s) \<ge> 25" "wt_now s + 25 \<le> wt_now (wait_round w deadline s)"
    "no_lag w \<Longrightarrow> wt_now (wait_round w deadline s) \<le> deadline"
  using assms by (simp_all add: wait_round_def wait_sleep_def wait_await_def LEASE_WAIT_MAX_DELAY_MS_def no_lag_def)

lemma wait_free_returns:
  assumes "wt_delay s \<ge> 25"
  shows "\<exists>s2 free. wait_free w sid deadline s = Some (s2, free) \<and> wt_delay s2 \<ge> 25 \<and> wt_now s \<le> wt_now s2 \<and>
    (free \<longrightarrow> wt_now s + 25 \<le> wt_now s2 \<and> wt_now s + 25 \<le> deadline) \<and>
    (no_lag w \<longrightarrow> wt_now s2 \<le> max (wt_now s) deadline)"
  using assms
proof (induction "nat (deadline - wt_now s)" arbitrary: s rule: less_induct)
  case less
  show ?case
  proof (cases "wt_now s + 25 \<le> deadline")
    case False
    then show ?thesis using less.prems by (subst wait_free_unfold) (simp add: exI [of _ False])
  next
    case True
    note round = wait_round_facts [OF less.prems True, of w]
    show ?thesis
    proof (cases "seen_free w sid deadline s")
      case True
      then show ?thesis using round \<open>wt_now s + 25 \<le> deadline\<close>
        by (subst wait_free_unfold) (auto simp: max_def)
    next
      case False
      have "nat (deadline - wt_now (wait_round w deadline s)) < nat (deadline - wt_now s)"
        using round(2) True by simp
      from less.hyps [OF this round(1)] show ?thesis using False True round
        by (subst wait_free_unfold) (auto simp: max_def)
    qed
  qed
qed

subsection \<open>The outer loop\<close>

lemma wait_acquire_fields:
  "wt_delay (fst (wait_acquire w sid holder s)) = wt_delay s"
  "wt_now s \<le> wt_now (fst (wait_acquire w sid holder s))"
  "no_lag w \<Longrightarrow> wt_now (fst (wait_acquire w sid holder s)) = wt_now s"
  by (simp_all add: wait_acquire_def wait_await_def no_lag_def split: prod.split)

lemma acquire_loop_returns:
  assumes "wt_delay s \<ge> 25" "started \<le> wt_now s"
  shows "\<exists>r. acquire_loop w sid holder started deadline waitFor s = Some r \<and> 0 \<le> wr_waitedMs r \<and>
    (no_lag w \<and> wt_now s \<le> max started deadline \<longrightarrow> wr_waitedMs r \<le> max 0 (deadline - started))"
  using assms
proof (induction "nat (deadline - wt_now s)" arbitrary: s rule: less_induct)
  case less
  obtain s1 a where a: "wait_acquire w sid holder s = (s1, a)" by (cases "wait_acquire w sid holder s")
  then have s1: "wt_delay s1 = wt_delay s" "wt_now s \<le> wt_now s1" "no_lag w \<Longrightarrow> wt_now s1 = wt_now s"
    using wait_acquire_fields [where w = w and sid = sid and holder = holder and s = s] by simp_all
  from wait_free_returns [where s = s1 and w = w and sid = sid and deadline = deadline] less.prems(1) s1(1) obtain s2 free
    where free: "wait_free w sid deadline s1 = Some (s2, free)" "wt_delay s2 \<ge> 25" "wt_now s1 \<le> wt_now s2"
      "free \<longrightarrow> wt_now s1 + 25 \<le> wt_now s2 \<and> wt_now s1 + 25 \<le> deadline"
      "no_lag w \<longrightarrow> wt_now s2 \<le> max (wt_now s1) deadline" by auto
  show ?case
  proof (cases "la_lease a \<noteq> None \<or> la_heldUntil a = None \<or>
      (case waitFor of None \<Rightarrow> False | Some f \<Rightarrow> \<not> f (la_heldBy a)) \<or> \<not> free")
    case True
    then show ?thesis using less.prems(2) s1 free
      by (subst acquire_loop.simps) (auto simp: a Let_def max_def)
  next
    case False
    then have "nat (deadline - wt_now s2) < nat (deadline - wt_now s)" "started \<le> wt_now s2"
      using free(4) s1(2) less.prems(2) by auto
    from less.hyps [OF this(1) free(2) this(2)] show ?thesis
      using False free(1,5) s1(3) by (subst acquire_loop.simps) (auto simp: a Let_def max_def split: if_splits)
  qed
qed

text \<open>
  C8. Waiting for the lease of a session returns: whatever other operations do to the store during
  the awaits and however late they resume, the loops of \<open>acquireLeaseWithin\<close> end with a result; and
  when no await takes longer than asked for, the time waited is within the budget.
\<close>

theorem lease_wait_returns:
  "\<exists>r. acquireLeaseWithin w st now sid holder budgetMs waitFor = Some r \<and> 0 \<le> wr_waitedMs r \<and>
    (no_lag w \<longrightarrow> wr_waitedMs r \<le> max 0 budgetMs)"
proof -
  let ?s = "\<lparr>wt_store = st, wt_now = now, wt_awaits = 0, wt_delay = LEASE_WAIT_MIN_DELAY_MS\<rparr>"
  from acquire_loop_returns [of ?s now w sid holder "now + budgetMs" waitFor] show ?thesis
    by (auto simp: acquireLeaseWithin_def LEASE_WAIT_MIN_DELAY_MS_def max_def)
qed

definition busy_world :: wait_world where
  "busy_world = \<lparr>ww_others = (\<lambda>n st. st), ww_lag = (\<lambda>_. 0), ww_token = (\<lambda>_. ''mine'')\<rparr>"

theorem lease_wait_returns_witness:
  "\<exists>r. acquireLeaseWithin busy_world sample_sessions 10 ''s'' HolderBackfill 200 None = Some r \<and>
    wr_waitedMs r \<le> 200"
  using lease_wait_returns [of busy_world sample_sessions 10 "''s''" HolderBackfill 200 None]
  by (auto simp: no_lag_def busy_world_def)

subsection \<open>The lease is acquired\<close>











end
