(* ===== verification/CompactionProps.thy ===== *)
theory CompactionProps
  imports ContextCompaction SessionVisibility
begin

section \<open>Compaction loses nothing but what was summarised\<close>

text \<open>
  The plan of a compaction splits the context of the model, and the summary that is written takes the
  place of exactly the part that was given to the summariser, also when other operations appended to
  the log in between.
\<close>

subsection \<open>The shape of a context\<close>

definition shown :: "bool \<Rightarrow> session_entry list \<Rightarrow> session_entry list" where
  "shown inc es = filter (\<lambda>e. inc \<or> \<not> entrySecurityTainted e) (modelReplayable es)"

definition latest_summary :: "session_entry list \<Rightarrow> session_entry option" where
  "latest_summary es = find_last is_summary (modelReplayable es)"

definition summary_head :: "bool \<Rightarrow> session_entry list \<Rightarrow> session_entry list" where
  "summary_head inc es = (case latest_summary es of None \<Rightarrow> [] | Some s \<Rightarrow> if s \<in> set (shown inc es) then [s] else [])"

definition after_head :: "bool \<Rightarrow> session_entry list \<Rightarrow> session_entry list" where
  "after_head inc es = filter (\<lambda>e. \<not> is_summary e \<and>
     (case latest_summary es of None \<Rightarrow> True | Some s \<Rightarrow> summary_through s < en_seq e)) (shown inc es)"

lemma find_last_None: "find_last p xs = None \<longleftrightarrow> (\<forall>x \<in> set xs. \<not> p x)"
  by (auto simp: find_last_def find_None_iff)

lemma find_last_SomeD: "find_last p xs = Some x \<Longrightarrow> p x \<and> x \<in> set xs"
  by (auto simp: find_last_def find_Some_iff) (metis nth_mem length_rev set_rev)

lemma find_last_snoc: "find_last p (xs @ [x]) = (if p x then Some x else find_last p xs)"
  by (simp add: find_last_def)

lemma find_last_Cons_none: "\<forall>x \<in> set xs. \<not> p x \<Longrightarrow> find_last p (y # xs) = (if p y then Some y else None)"
proof -
  assume "\<forall>x \<in> set xs. \<not> p x"
  then have "find p (rev xs @ ys) = find p ys" for ys
    by (induction xs arbitrary: ys) auto
  then show ?thesis by (simp add: find_last_def)
qed

lemma modelReplayable_append [simp]: "modelReplayable (xs @ ys) = modelReplayable xs @ modelReplayable ys"
  by (simp add: modelReplayable_def)

lemma shown_append [simp]: "shown inc (xs @ ys) = shown inc xs @ shown inc ys"
  by (simp add: shown_def)

lemma set_shown: "set (shown inc es) \<subseteq> set es"
  by (auto simp: shown_def modelReplayable_def)

lemma summary_replayable: "is_summary e \<Longrightarrow> modelReplayable [e] = [e]"
  by (auto simp: is_summary_def contextSummaryPayload_def modelReplayable_def has_str_def split: if_splits)

lemma context_shape: "forModelContext inc es = summary_head inc es @ after_head inc es"
proof (cases "latest_summary es")
  case None
  then have "filter (\<lambda>e. \<not> is_summary e) (shown inc es) = shown inc es"
    by (intro filter_True) (auto simp: latest_summary_def find_last_None shown_def)
  with None show ?thesis
    by (simp add: forModelContext_def summary_head_def after_head_def latest_summary_def shown_def Let_def)
next
  case (Some s)
  then show ?thesis
    by (simp add: forModelContext_def summary_head_def after_head_def latest_summary_def shown_def Let_def)
qed

lemma after_head_plain: "e \<in> set (after_head inc es) \<Longrightarrow> \<not> is_summary e"
  by (simp add: after_head_def)

lemma latest_in_context: "find_last is_summary (forModelContext inc es) =
    (if summary_head inc es = [] then None else latest_summary es)"
proof -
  have plain: "\<forall>x \<in> set (after_head inc es). \<not> is_summary x" by (simp add: after_head_plain)
  have "is_summary s" if "latest_summary es = Some s" for s
    using find_last_SomeD that unfolding latest_summary_def by fastforce
  then show ?thesis using plain
    by (auto simp: context_shape summary_head_def find_last_Cons_none find_last_None split: option.split)
qed

lemma after_in_context:
  "after_summary (forModelContext inc es) (find_last is_summary (forModelContext inc es)) = after_head inc es"
proof -
  have s: "is_summary s" if "latest_summary es = Some s" for s
    using find_last_SomeD that unfolding latest_summary_def by fastforce
  have keep: "filter (\<lambda>e. \<not> is_summary e \<and>
      (case (if summary_head inc es = [] then None else latest_summary es) of
         None \<Rightarrow> True | Some s \<Rightarrow> summary_through s < en_seq e)) (after_head inc es) = after_head inc es"
    by (rule filter_True) (auto simp: after_head_def split: option.splits if_splits)
  have "filter (\<lambda>e. \<not> is_summary e \<and> P e) (summary_head inc es) = []" for P
    using s by (auto simp: summary_head_def split: option.split)
  then show ?thesis unfolding latest_in_context after_summary_def by (simp add: context_shape keep)
qed

subsection \<open>The plan\<close>

lemma plan_overflow_splits:
  assumes "plan_overflow tok c after latest k = (Some p, c1)"
  shows "\<exists>n. take n after \<noteq> [] \<and> pl_kept p = drop n after \<and>
    pl_toSummarize p = (case latest of None \<Rightarrow> [] | Some s \<Rightarrow> [s]) @ take n after"
  using assms by (auto simp: plan_overflow_def Let_def split: prod.splits if_splits option.splits)

lemma plan_splits:
  assumes "planCompaction tok c (forModelContext inc es) m f r = (Some p, c1)" "pl_toSummarize p \<noteq> []"
  shows "\<exists>n. take n (after_head inc es) \<noteq> [] \<and> pl_kept p = drop n (after_head inc es) \<and>
    pl_toSummarize p = summary_head inc es @ take n (after_head inc es)"
proof (cases "summary_head inc es")
  case Nil
  then have none: "find_last is_summary (forModelContext inc es) = None" by (simp add: latest_in_context)
  from assms(1) have "plan_overflow tok c (after_head inc es) None \<lfloor>of_int m * f\<rfloor> = (Some p, c1)"
    using after_in_context [of inc es] by (simp add: planCompaction_def none Let_def)
  from plan_overflow_splits [OF this] show ?thesis by (simp add: Nil)
next
  case (Cons s ss)
  then have s: "latest_summary es = Some s" "ss = []"
    by (auto simp: summary_head_def split: option.splits if_splits)
  then have some: "find_last is_summary (forModelContext inc es) = Some s" by (simp add: latest_in_context Cons)
  obtain n c2 where e: "estimateHistoryTokens tok c (s # after_head inc es) = (n, c2)"
    by (cases "estimateHistoryTokens tok c (s # after_head inc es)")
  from assms have "plan_overflow tok c2 (after_head inc es) (Some s) \<lfloor>of_int m * f\<rfloor> = (Some p, c1)"
    using after_in_context [of inc es]
    by (auto simp: planCompaction_def some Let_def e split: if_splits)
  from plan_overflow_splits [OF this] show ?thesis by (simp add: Cons s(2))
qed

subsection \<open>How far a summary reaches\<close>

definition reach :: "session_entry \<Rightarrow> int" where
  "reach e = (if is_summary e then summary_through e else en_seq e)"

lemma through_bounds:
  "e \<in> set es \<Longrightarrow> reach e \<le> compactionThroughSeq es"
  "(\<And>e. e \<in> set es \<Longrightarrow> reach e < b) \<Longrightarrow> -1 < b \<Longrightarrow> compactionThroughSeq es < b"
proof -
  have "(\<forall>e \<in> set es. reach e \<le> foldl (\<lambda>m e. max m (reach e)) a es) \<and> a \<le> foldl (\<lambda>m e. max m (reach e)) a es \<and>
      (\<forall>b. (\<forall>e \<in> set es. reach e < b) \<and> a < b \<longrightarrow> foldl (\<lambda>m e. max m (reach e)) a es < b)" for a
  proof (induction es arbitrary: a)
    case (Cons e es)
    show ?case using Cons.IH [of "max a (reach e)"] by (simp add: ball_conj_distrib)
  qed simp
  then have *: "(\<forall>e \<in> set es. reach e \<le> compactionThroughSeq es) \<and>
      (\<forall>b. (\<forall>e \<in> set es. reach e < b) \<and> -1 < b \<longrightarrow> compactionThroughSeq es < b)"
    unfolding compactionThroughSeq_def reach_def by blast
  then show "e \<in> set es \<Longrightarrow> reach e \<le> compactionThroughSeq es" by blast
  show "(\<And>e. e \<in> set es \<Longrightarrow> reach e < b) \<Longrightarrow> -1 < b \<Longrightarrow> compactionThroughSeq es < b" using * by blast
qed

lemma seqs_sorted:
  assumes "log_ok sid es"
  shows "sorted_wrt (\<lambda>a b. en_seq a < en_seq b) es"
  using assms by (simp add: log_ok_def sorted_wrt_iff_nth_less)

lemma log_seq_bounds: "log_ok sid es \<Longrightarrow> e \<in> set es \<Longrightarrow> 0 \<le> en_seq e \<and> en_seq e < int (length es)"
  by (auto simp: log_ok_def in_set_conv_nth)

lemma split_at_through:
  assumes ok: "log_ok sid es" and n: "take n (after_head inc es) \<noteq> []"
  defines "dropped \<equiv> summary_head inc es @ take n (after_head inc es)"
  shows "compactionThroughSeq dropped < int (length es)"
    and "filter (\<lambda>e. \<not> is_summary e \<and> compactionThroughSeq dropped < en_seq e) (shown inc es) =
      drop n (after_head inc es)"
proof -
  let ?a = "after_head inc es" and ?T = "compactionThroughSeq dropped"
  have sub: "set ?a \<subseteq> set es" using set_shown by (fastforce simp: after_head_def)
  have sorted: "sorted_wrt (\<lambda>a b. en_seq a < en_seq b) ?a"
    unfolding after_head_def shown_def modelReplayable_def by (simp add: sorted_wrt_filter seqs_sorted [OF ok])
  then have order: "en_seq a < en_seq b" if "a \<in> set (take n ?a)" "b \<in> set (drop n ?a)" for a b
    using that by (metis append_take_drop_id sorted_wrt_append)
  obtain x where x: "x \<in> set (take n ?a)" using hd_in_set [OF n] by blast
  then have xa: "x \<in> set ?a" by (rule in_set_takeD)
  have head: "summary_through s < en_seq e" if "latest_summary es = Some s" "e \<in> set ?a" for s e
    using that by (simp add: after_head_def)
  have plain: "reach e = en_seq e" if "e \<in> set ?a" for e
    using after_head_plain [OF that] by (simp add: reach_def)
  have upto: "reach e < b" if "e \<in> set dropped" "\<And>y. y \<in> set (take n ?a) \<Longrightarrow> en_seq y < b" for e b
  proof (cases "e \<in> set (take n ?a)")
    case True
    then show ?thesis using that(2) plain [OF in_set_takeD] by simp
  next
    case False
    with that(1) have e: "latest_summary es = Some e"
      by (auto simp: dropped_def summary_head_def split: option.splits if_splits)
    then have "reach e = summary_through e"
      using find_last_SomeD [of is_summary "modelReplayable es" e] by (simp add: reach_def latest_summary_def)
    moreover have "summary_through e < en_seq x" by (rule head [OF e xa])
    moreover have "en_seq x < b" by (rule that(2) [OF x])
    ultimately show ?thesis by simp
  qed
  have inlog: "0 \<le> en_seq e \<and> en_seq e < int (length es)" if "e \<in> set ?a" for e
    using log_seq_bounds [OF ok] sub that by blast
  have "reach e < int (length es)" if "e \<in> set dropped" for e
    by (rule upto [OF that]) (use inlog in_set_takeD in fast)
  then show "?T < int (length es)" by - (rule through_bounds(2), assumption, linarith)
  have le: "en_seq y \<le> ?T" if "y \<in> set (take n ?a)" for y
    using through_bounds(1) [of y dropped] that plain [OF in_set_takeD [OF that]] by (simp add: dropped_def)
  have past: "(case latest_summary es of None \<Rightarrow> True | Some s \<Rightarrow> summary_through s < en_seq e)" if "?T < en_seq e" for e
    using head [OF _ xa] le [OF x] that by (auto split: option.split)
  have "filter (\<lambda>e. \<not> is_summary e \<and> ?T < en_seq e) (shown inc es) = filter (\<lambda>e. ?T < en_seq e) ?a"
    unfolding after_head_def filter_filter using past by (intro filter_cong) auto
  also have "\<dots> = filter (\<lambda>e. ?T < en_seq e) (take n ?a @ drop n ?a)" by simp
  also have "\<dots> = filter (\<lambda>e. ?T < en_seq e) (take n ?a) @ filter (\<lambda>e. ?T < en_seq e) (drop n ?a)"
    by (rule filter_append)
  also have "filter (\<lambda>e. ?T < en_seq e) (take n ?a) = []"
    by (rule filter_False) (use le in \<open>simp add: not_less\<close>)
  also have "filter (\<lambda>e. ?T < en_seq e) (drop n ?a) = drop n ?a"
  proof (rule filter_True, rule ballI)
    fix b assume b: "b \<in> set (drop n ?a)"
    then have "-1 < en_seq b" using inlog [OF in_set_dropD [OF b]] by simp
    then show "?T < en_seq b" using upto [of _ "en_seq b"] order b by (intro through_bounds(2)) blast+
  qed
  finally show "filter (\<lambda>e. \<not> is_summary e \<and> ?T < en_seq e) (shown inc es) = drop n ?a" by simp
qed


subsection \<open>The context after a summary was written\<close>

lemma find_last_filter:
  "find_last p xs = Some x \<Longrightarrow> q x \<Longrightarrow> find_last p (filter q xs) = Some x"
proof (induction xs rule: rev_induct)
  case (snoc y ys)
  then show ?case by (cases "p y") (auto simp: find_last_snoc)
qed (simp add: find_last_def)

text \<open>A summary reaches only over entries before it.\<close>

definition summaries_ok :: "session_entry list \<Rightarrow> bool" where
  "summaries_ok es = list_all (\<lambda>e. is_summary e \<longrightarrow> summary_through e < en_seq e) es"

lemma latest_summary_fold:
  "foldl (\<lambda>acc e. case contextSummaryPayload e of None \<Rightarrow> acc | Some s \<Rightarrow> Some s) None es =
     (case latest_summary es of None \<Rightarrow> None | Some s \<Rightarrow> contextSummaryPayload s)"
proof (induction es rule: rev_induct)
  case (snoc e es)
  then show ?case
  proof (cases "is_summary e")
    case True
    then show ?thesis
      by (auto simp: latest_summary_def summary_replayable find_last_snoc is_summary_def)
  next
    case False
    then have "find_last is_summary (modelReplayable (es @ [e])) = find_last is_summary (modelReplayable es)"
      by (auto simp: modelReplayable_def find_last_snoc)
    with False snoc show ?thesis by (simp add: latest_summary_def is_summary_def)
  qed
qed (simp add: latest_summary_def find_last_def modelReplayable_def)

lemma window_of_summary:
  assumes "latest_summary es = Some s"
  shows "cw_entries (contextWindowFromEntries es) = filter (\<lambda>e. summary_through s < en_seq e) es"
proof -
  have "is_summary s" using find_last_SomeD assms unfolding latest_summary_def by fastforce
  then obtain p where "contextSummaryPayload s = Some p" by (auto simp: is_summary_def)
  then show ?thesis using assms by (simp add: contextWindowFromEntries_def latest_summary_fold summary_through_def Let_def)
qed

lemma window_context:
  assumes "summaries_ok es"
  shows "forModelContext inc (cw_entries (contextWindowFromEntries es)) = forModelContext inc es"
proof (cases "latest_summary es")
  case None
  then show ?thesis by (simp add: contextWindowFromEntries_def latest_summary_fold Let_def)
next
  case (Some s)
  let ?q = "\<lambda>e. summary_through s < en_seq e"
  have s: "is_summary s \<and> s \<in> set es" using find_last_SomeD Some
    unfolding latest_summary_def by (fastforce simp: modelReplayable_def)
  then have q: "?q s" using assms by (auto simp: summaries_ok_def list_all_iff)
  have mr: "modelReplayable (filter ?q es) = filter ?q (modelReplayable es)"
    by (simp add: modelReplayable_def conj_ac)
  have ls: "latest_summary (filter ?q es) = Some s"
    using find_last_filter [where q = ?q, OF Some [unfolded latest_summary_def] q] by (simp add: latest_summary_def mr)
  have sh: "shown inc (filter ?q es) = filter ?q (shown inc es)" by (simp add: shown_def mr conj_ac)
  show ?thesis unfolding window_of_summary [OF Some] context_shape
    using q by (simp add: summary_head_def after_head_def ls sh Some conj_ac cong: filter_cong)
qed

lemma appendTape_log: "session_log (appendTape_state st l r clk) i = session_log st i"
  by (simp add: appendTape_state_def appendTape_def Let_def push_tape_frame)

lemma tape_step_log: "session_log (fst (tape_step st l r clk)) i = session_log st i"
  by (simp add: tape_step_def appendTape_log)

lemma and_then_Inr:
  assumes "and_then r f = (st2, Inr y)"
  obtains st1 x where "r = (st1, Inr x)" "f st1 x = (st2, Inr y)"
  using assms by (cases r; cases "snd r") auto

lemma writeCompaction_log:
  assumes "session_inv st" "writeCompaction st l s clk = (st2, Inr summary)"
  shows "session_log st2 (lr_sessionId l) = session_log st (lr_sessionId l) @ [summary] \<and>
    (\<exists>t. summary = new_log_entry (lr_sessionId l) (length (session_log st (lr_sessionId l)))
      \<lparr>ne_type = EtSystem, ne_payload = summary_payload s, ne_scopeLabel = sm_label s\<rparr> t)"
proof -
  let ?e = "\<lparr>ne_type = EtSystem, ne_payload = summary_payload s, ne_scopeLabel = sm_label s\<rparr>"
  from assms(2) obtain st1 full where a: "append_step st l ?e (clk 0) = (st1, Inr full)"
    and rest: "and_then (tape_step st1 l (compaction_event s full) (clk 1)) (\<lambda>st2 _.
          if tapeCoverage st2 (lr_sessionId l) \<noteq> en_seq full - 1 then (st2, Inr full)
          else and_then (tape_step st2 l (turn_end (sm_label s) (en_seq full) None) (clk 2))
                 (\<lambda>st3 _. (st3, Inr full))) = (st2, Inr summary)"
    unfolding writeCompaction_def by (rule and_then_Inr)
  from rest have f: "summary = full" and "session_log st2 (lr_sessionId l) = session_log st1 (lr_sessionId l)"
    using tape_step_log by (auto elim!: and_then_Inr split: if_splits) (metis fst_conv)+
  moreover from a obtain st' where "append_entry st l ?e (clk 0) = Inr (st', full)" "st1 = st'"
    by (cases "append_entry st l ?e (clk 0)") (auto simp: append_step_def append_state_def)
  ultimately show ?thesis using append_entry_shape [OF assms(1)] by metis
qed

lemma summary_of_entry:
  "en_type e = EtSystem \<Longrightarrow> en_payload e = summary_payload s \<Longrightarrow>
     contextSummaryPayload e = Some \<lparr>cs_throughSeq = sm_throughSeq s, cs_text = sm_text s\<rparr> \<and>
     (entrySecurityTainted e \<longleftrightarrow> sm_tainted s)"
  by (simp add: contextSummaryPayload_def summary_payload_def createContextSummaryPayload_def taint_field_def
      entrySecurityTainted_def jfield_def jnumber_def jstring_def)

lemma context_after_summary:
  assumes "is_summary e" "inc \<or> \<not> entrySecurityTainted e"
  shows "forModelContext inc (es @ [e]) = e # filter (\<lambda>x. \<not> is_summary x \<and> summary_through e < en_seq x) (shown inc es)"
proof -
  have "latest_summary (es @ [e]) = Some e"
    using assms(1) by (simp add: latest_summary_def summary_replayable find_last_snoc)
  moreover have "shown inc (es @ [e]) = shown inc es @ [e]"
    using assms by (simp add: shown_def summary_replayable)
  ultimately show ?thesis using assms(1) by (simp add: context_shape summary_head_def after_head_def)
qed


lemma summarize_splits:
  assumes "summarizeForCompaction deps c (forModelContext inc es) scope = (Inr (Some s), c1)"
  obtains f n t where "cd_compact deps = Some f" "take n (after_head inc es) \<noteq> []"
    "f (summary_head inc es @ take n (after_head inc es)) = Some t" "sm_text s = js_trim t"
    "sm_throughSeq s = compactionThroughSeq (summary_head inc es @ take n (after_head inc es))"
    "sm_tainted s = list_ex entrySecurityTainted (summary_head inc es @ take n (after_head inc es))"
proof -
  from assms obtain f p c2 where f: "cd_compact deps = Some f" and plan: "planCompaction (cd_tok deps) c
      (forModelContext inc es) (budget_of deps scope) keepRecentTokenFraction
      \<lfloor>of_int (budget_of deps scope) * keepRecentTokenFraction\<rfloor> = (Some p, c2)"
    and ne: "pl_toSummarize p \<noteq> []" and s: "summarize_plan f scope p = Inr s"
    by (auto simp: summarizeForCompaction_def Let_def split: if_splits option.splits prod.splits sum.splits)
  from plan_splits [OF plan ne] obtain n where n: "take n (after_head inc es) \<noteq> []"
    "pl_toSummarize p = summary_head inc es @ take n (after_head inc es)" by blast
  from s obtain t where "f (pl_toSummarize p) = Some t" "sm_text s = js_trim t"
    "sm_throughSeq s = compactionThroughSeq (pl_toSummarize p)"
    "sm_tainted s = list_ex entrySecurityTainted (pl_toSummarize p)"
    by (auto simp: summarize_plan_def validateCompactSummary_def split: sum.splits option.splits if_splits)
  with f n show ?thesis using that by metis
qed

lemma background_read_splits:
  assumes inv: "session_inv st" and ok: "summaries_ok (session_log st sid)"
    and read: "background_read deps c st sid scope inc = (Inr (Some snap), c1)"
  obtains f n t where "cd_compact deps = Some f" "take n (after_head inc (session_log st sid)) \<noteq> []"
    "f (summary_head inc (session_log st sid) @ take n (after_head inc (session_log st sid))) = Some t"
    "sm_text (bs_summarized snap) = js_trim t"
    "sm_throughSeq (bs_summarized snap) =
       compactionThroughSeq (summary_head inc (session_log st sid) @ take n (after_head inc (session_log st sid)))"
    "sm_tainted (bs_summarized snap) =
       list_ex entrySecurityTainted (summary_head inc (session_log st sid) @ take n (after_head inc (session_log st sid)))"
    "bs_seq snap < int (length (session_log st sid))"
proof -
  let ?es = "session_log st sid" and ?in = "cw_entries (getContextWindow st sid)"
  have hist: "forModelContext inc ?in = forModelContext inc ?es"
    unfolding getContextWindow_def by (rule window_context [OF ok])
  from read obtain c2 where sm: "summarizeForCompaction deps c2 (forModelContext inc ?es) scope =
      (Inr (Some (bs_summarized snap)), c1)" and sq: "bs_seq snap = (case ?in of [] \<Rightarrow> -1 | _ \<Rightarrow> en_seq (last ?in))"
    by (auto simp: background_read_def Let_def hist split: if_splits prod.splits sum.splits option.splits)
  have sub: "set ?in \<subseteq> set ?es"
    by (auto simp: getContextWindow_def contextWindowFromEntries_def Let_def split: option.splits)
  have "bs_seq snap < int (length ?es)"
  proof (cases "?in = []")
    case False
    then have "last ?in \<in> set ?es" using sub last_in_set by blast
    with False sq show ?thesis using log_seq_bounds [OF session_invD(5) [OF inv]] by (auto split: list.splits)
  qed (simp add: sq)
  then show ?thesis by - (rule summarize_splits [OF sm], rule that)
qed

lemma background_write_spares:
  assumes "background_write st l snap clk = (st2, Inr (Some summary))"
  shows "writeCompaction st l (bs_summarized snap) clk = (st2, Inr summary) \<and>
    (\<forall>e \<in> set (session_log st (lr_sessionId l)). bs_seq snap < en_seq e \<longrightarrow> \<not> is_summary e)"
proof -
  from assms have since: "\<not> list_ex is_summary (getEntries st (lr_sessionId l)
      \<lparr>eq_sinceSeq = Some (bs_seq snap + 1), eq_beforeSeq = None, eq_limit = None\<rparr>)"
    and w: "and_then (writeCompaction st l (bs_summarized snap) clk) (\<lambda>st1 e. (st1, Inr (Some e))) = (st2, Inr (Some summary))"
    by (auto simp: background_write_def Let_def split: if_splits)
  from w have "writeCompaction st l (bs_summarized snap) clk = (st2, Inr summary)" by (rule and_then_Inr) simp
  moreover have "\<not> is_summary e" if "e \<in> set (session_log st (lr_sessionId l))" "bs_seq snap < en_seq e" for e
    using since that by (auto simp: getEntries_def in_range_def list_ex_iff)
  ultimately show ?thesis by blast
qed

lemma shown_plain: "\<forall>e \<in> set new. \<not> is_summary e \<Longrightarrow> forModelContext inc new = shown inc new"
proof -
  assume plain: "\<forall>e \<in> set new. \<not> is_summary e"
  then have "latest_summary new = None" by (auto simp: latest_summary_def find_last_None modelReplayable_def)
  then show ?thesis using plain set_shown
    by (auto simp: context_shape summary_head_def after_head_def intro!: filter_True)
qed

lemma log_ok_later: "log_ok sid (es @ new) \<Longrightarrow> e \<in> set new \<Longrightarrow> int (length es) \<le> en_seq e"
proof -
  assume ok: "log_ok sid (es @ new)" and "e \<in> set new"
  then obtain i where "i < length new" "e = new ! i" by (auto simp: in_set_conv_nth)
  with ok show ?thesis unfolding log_ok_def by (auto simp: nth_append dest: spec [of _ "length es + i"])
qed

text \<open>
  C10. A compaction in the background loses nothing but what it summarised: when the session was read
  and summarised, other operations then appended to its log, and the summary was written, the context
  of the model is that summary, then the entries that were kept, then everything appended meanwhile;
  the context that was read is what was summarised followed by what was kept, and the summary is
  the trimmed text the summariser gave for exactly the former. Where no summary reached past its own
  number, none does afterwards.
\<close>

theorem compaction_loses_nothing:
  assumes inv: "session_inv st" and ok: "summaries_ok (session_log st (lr_sessionId l))"
    and read: "background_read deps c st (lr_sessionId l) scope inc = (Inr (Some snap), c1)"
    and inv1: "session_inv st1" and later: "session_log st1 (lr_sessionId l) = session_log st (lr_sessionId l) @ new"
    and wrote: "background_write st1 l snap clk = (st2, Inr (Some summary))"
  shows "\<exists>f dropped kept t. cd_compact deps = Some f \<and> f dropped = Some t \<and> dropped \<noteq> [] \<and>
    contextSummaryPayload summary = Some \<lparr>cs_throughSeq = compactionThroughSeq dropped, cs_text = js_trim t\<rparr> \<and>
    forModelContext inc (session_log st (lr_sessionId l)) = dropped @ kept \<and>
    forModelContext inc (session_log st2 (lr_sessionId l)) = summary # kept @ forModelContext inc new \<and>
    summaries_ok (session_log st2 (lr_sessionId l))"
proof -
  let ?sid = "lr_sessionId l"
  let ?es = "session_log st ?sid"
  have log0: "log_ok ?sid ?es" using session_invD(5) [OF inv] .
  from inv ok read obtain f n t where split: "cd_compact deps = Some f" "take n (after_head inc ?es) \<noteq> []"
    "f (summary_head inc ?es @ take n (after_head inc ?es)) = Some t" "sm_text (bs_summarized snap) = js_trim t"
    "sm_throughSeq (bs_summarized snap) = compactionThroughSeq (summary_head inc ?es @ take n (after_head inc ?es))"
    "sm_tainted (bs_summarized snap) = list_ex entrySecurityTainted (summary_head inc ?es @ take n (after_head inc ?es))"
    "bs_seq snap < int (length ?es)"
    by (rule background_read_splits)
  define dropped where "dropped = summary_head inc ?es @ take n (after_head inc ?es)"
  note cut = split_at_through [OF log0 split(2), folded dropped_def]
  note wr = background_write_spares [OF wrote, unfolded later]
  from session_invD(5) [OF inv1, of ?sid] have newseq: "int (length ?es) \<le> en_seq e" if "e \<in> set new" for e
    unfolding later using that by (rule log_ok_later)
  then have plain: "\<forall>e \<in> set new. \<not> is_summary e" using wr split(7) by fastforce
  from writeCompaction_log [OF inv1 conjunct1 [OF wr]] obtain t' where log2: "session_log st2 ?sid = (?es @ new) @ [summary]"
    and entry: "en_type summary = EtSystem" "en_payload summary = summary_payload (bs_summarized snap)"
      "en_seq summary = int (length (?es @ new))"
    by (auto simp: later new_log_entry_def)
  note summary = summary_of_entry [OF entry(1,2)]
  have through: "summary_through summary = compactionThroughSeq dropped"
    using summary split(5) by (simp add: summary_through_def dropped_def)
  have su: "is_summary summary" using summary by (simp add: is_summary_def)
  have "set dropped \<subseteq> set (shown inc ?es)"
    by (auto simp: dropped_def summary_head_def after_head_def split: option.splits dest!: in_set_takeD)
  then have "inc \<or> \<not> entrySecurityTainted summary"
    using summary split(6) by (auto simp: dropped_def [symmetric] list_ex_iff shown_def)
  from context_after_summary [OF su this, of "?es @ new"]
  have "forModelContext inc (session_log st2 ?sid) = summary # drop n (after_head inc ?es) @ shown inc new"
    using newseq plain cut set_shown [of inc new] unfolding log2 through
    by (auto intro!: filter_True) fastforce
  moreover have "forModelContext inc ?es = dropped @ drop n (after_head inc ?es)"
    by (simp add: context_shape dropped_def)
  moreover have "summaries_ok (session_log st2 ?sid)"
    using ok plain cut(1) unfolding log2 by (auto simp: summaries_ok_def list_all_iff through entry(3))
  ultimately show ?thesis
    using split summary shown_plain [OF plain]
    by (intro exI [of _ f] exI [of _ dropped] exI [of _ "drop n (after_head inc ?es)"] exI [of _ t])
      (auto simp: dropped_def)
qed


definition sample_deps :: compaction_deps where
  "sample_deps = \<lparr>cd_tok = length, cd_compact = Some (\<lambda>_. Some '' greeting ''), cd_managedGroup = (\<lambda>_. False),
     cd_maxContextTokens = Some 10, cd_modelBudget = (\<lambda>_. None)\<rparr>"

definition sample_read :: "(summary_error + background_snapshot option) \<times> token_cache" where
  "sample_read = background_read sample_deps [] sample_sessions ''s'' ''org:o'' False"

definition sample_snapshot :: background_snapshot where
  "sample_snapshot = (case fst sample_read of Inr (Some snap) \<Rightarrow> snap
     | _ \<Rightarrow> \<lparr>bs_seq = 0, bs_summarized = \<lparr>sm_text = [], sm_label = [], sm_throughSeq = 0, sm_tainted = False\<rparr>\<rparr>)"

definition meanwhile :: session_store where
  "meanwhile = session_step (\<lambda>_. []) sample_sessions (SoAppend sample_lease
     \<lparr>ne_type = EtUser, ne_payload = JObj [(''text'', JStr ''new'')], ne_scopeLabel = ''org:o''\<rparr> (\<lambda>_. 6))"

definition sample_written :: "session_entry option outcome" where
  "sample_written = background_write meanwhile sample_lease sample_snapshot (\<lambda>_ _. 8)"

definition is_some_result :: "(summary_error + background_snapshot option) \<Rightarrow> bool" where
  "is_some_result r = (case r of Inr (Some _) \<Rightarrow> True | _ \<Rightarrow> False)"

lemma sample_read_some: "sample_read = (Inr (Some sample_snapshot), snd sample_read)"
proof -
  have "is_some_result (fst sample_read)" by code_simp
  then show ?thesis
    by (intro prod_eqI) (auto simp: sample_snapshot_def is_some_result_def split: sum.splits option.splits)
qed

theorem compaction_loses_nothing_witness:
  "length (forModelContext False (session_log sample_sessions ''s'')) = 2 \<and>
   (\<exists>e st2. sample_written = (st2, Inr (Some e)) \<and> is_summary e \<and>
      length (forModelContext False (session_log st2 ''s'')) = 3)"
proof -
  have sid: "lr_sessionId sample_lease = ''s''" by (simp add: sample_lease_def)
  have wr: "(case snd sample_written of Inr (Some e) \<Rightarrow> True | _ \<Rightarrow> False)" by code_simp
  then obtain e where "snd sample_written = Inr (Some e)" by (auto split: sum.splits option.splits)
  then obtain st2 where w: "sample_written = (st2, Inr (Some e))" by (metis prod.collapse)
  have log: "session_log meanwhile ''s'' = session_log sample_sessions ''s'' @ drop 2 (session_log meanwhile ''s'')"
    by code_simp
  have inv: "session_inv meanwhile"
    unfolding meanwhile_def by (rule session_step_inv [OF sample_sessions_inv]) simp
  have ok: "summaries_ok (session_log sample_sessions ''s'')" by code_simp
  have len: "length (forModelContext False (session_log sample_sessions ''s'')) = 2"
    "length (forModelContext False (drop 2 (session_log meanwhile ''s''))) = 1"
    "length (forModelContext False (session_log (fst sample_written) ''s'')) = 3" by code_simp+
  from compaction_loses_nothing [OF sample_sessions_inv, of sample_lease, unfolded sid, OF ok
      sample_read_some [unfolded sample_read_def] inv log w [unfolded sample_written_def]]
  have "is_summary e" by (auto simp: is_summary_def)
  moreover have "fst sample_written = st2" unfolding w by simp
  ultimately show ?thesis using w len by (intro conjI exI [of _ e] exI [of _ st2]) simp_all
qed

end
