(* ===== verification/RevisionProps.thy ===== *)
theory RevisionProps
  imports Revisions CompactionProps
begin

section \<open>A revision is recorded once\<close>













end
