(* ===== verification/Regex.thy ===== *)
theory Regex
  imports Prelude "HOL-Library.Monad_Syntax"
begin

section \<open>Strings of code units and the regular expressions the code writes\<close>

text \<open>
  The reader of shell commands (\<open>src/src/policy/command-policy.ts\<close>) works on strings whose
  characters matter one by one, beyond ASCII too: such a string is a list of UTF-16 code units.
  The regular expressions of the language are read the way its specification does, by
  backtracking: \<open>rx_match\<close> lists the ways to match from a position in the order they are tried, so
  the first one is the match. A group inside a repetition does not occur in the code, so captures
  are not reset. What throws is \<open>None\<close>.
\<close>

type_synonym jstr = "int list"

definition ch :: "char \<Rightarrow> int" where "ch c = of_char c"
definition u :: "string \<Rightarrow> jstr" where "u s = map ch s"

lemma u_Cons: "u [] = []" "u (c # cs) = ch c # u cs"
  by (simp_all add: u_def)

lemma ch_inject [simp]: "ch a = ch b \<longleftrightarrow> a = b"
  by (simp add: ch_def)

lemma u_inject [simp]: "u a = u b \<longleftrightarrow> a = b"
  by (simp add: u_def inj_map_eq_map inj_def)

subsection \<open>Classes of characters\<close>

definition is_newline :: "int \<Rightarrow> bool" where
  "is_newline c \<longleftrightarrow> c \<in> {10, 13, 0x2028, 0x2029}"

definition is_space :: "int \<Rightarrow> bool" where
  "is_space c \<longleftrightarrow> c \<in> {9, 10, 11, 12, 13, 32, 0xA0, 0x1680, 0x2028, 0x2029, 0x202F, 0x205F, 0x3000, 0xFEFF}
     \<or> 0x2000 \<le> c \<and> c \<le> 0x200A"

definition is_digit :: "int \<Rightarrow> bool" where "is_digit c \<longleftrightarrow> 48 \<le> c \<and> c \<le> 57"
definition is_octal :: "int \<Rightarrow> bool" where "is_octal c \<longleftrightarrow> 48 \<le> c \<and> c \<le> 55"
definition is_letter :: "int \<Rightarrow> bool" where "is_letter c \<longleftrightarrow> 65 \<le> c \<and> c \<le> 90 \<or> 97 \<le> c \<and> c \<le> 122"
definition is_word :: "int \<Rightarrow> bool" where "is_word c \<longleftrightarrow> is_letter c \<or> is_digit c \<or> c = 95"
definition is_hex :: "int \<Rightarrow> bool" where
  "is_hex c \<longleftrightarrow> is_digit c \<or> 65 \<le> c \<and> c \<le> 70 \<or> 97 \<le> c \<and> c \<le> 102"

definition one_of :: "string \<Rightarrow> int \<Rightarrow> bool" where
  "one_of s c \<longleftrightarrow> c \<in> set (u s)"

subsection \<open>Regular expressions\<close>

datatype rx_at = AtStart | AtEnd | AtLineStart | AtLineEnd | AtWordEdge

datatype rx =
    RxEmpty
  | RxClass "int \<Rightarrow> bool"
  | RxSeq rx rx
  | RxAlt rx rx
  | RxMany bool rx
  | RxGroup nat rx
  | RxBack nat
  | RxAt rx_at

abbreviation rx_char :: "char \<Rightarrow> rx" where "rx_char c \<equiv> RxClass (\<lambda>x. x = ch c)"
abbreviation rx_many :: "rx \<Rightarrow> rx" where "rx_many r \<equiv> RxMany True r"
abbreviation rx_some :: "rx \<Rightarrow> rx" where "rx_some r \<equiv> RxSeq r (RxMany True r)"
abbreviation rx_opt :: "rx \<Rightarrow> rx" where "rx_opt r \<equiv> RxAlt r RxEmpty"

primrec rx_seq :: "rx list \<Rightarrow> rx" where
  "rx_seq [] = RxEmpty"
| "rx_seq (r # rs) = (if rs = [] then r else RxSeq r (rx_seq rs))"

fun rx_alts :: "rx list \<Rightarrow> rx" where
  "rx_alts [] = RxClass (\<lambda>_. False)"
| "rx_alts [r] = r"
| "rx_alts (r # rs) = RxAlt r (rx_alts rs)"

definition rx_text :: "string \<Rightarrow> rx" where "rx_text s = rx_seq (map rx_char s)"

primrec rx_times :: "nat \<Rightarrow> rx \<Rightarrow> rx" where
  "rx_times 0 r = RxEmpty"
| "rx_times (Suc n) r = RxSeq r (rx_times n r)"

definition at_holds :: "jstr \<Rightarrow> nat \<Rightarrow> rx_at \<Rightarrow> bool" where
  "at_holds s p a = (let w = (\<lambda>i. i < length s \<and> is_word (s ! i)) in case a of
     AtStart \<Rightarrow> p = 0
   | AtEnd \<Rightarrow> p = length s
   | AtLineStart \<Rightarrow> p = 0 \<or> is_newline (s ! (p - 1))
   | AtLineEnd \<Rightarrow> p = length s \<or> is_newline (s ! p)
   | AtWordEdge \<Rightarrow> (p > 0 \<and> w (p - 1)) \<noteq> w p)"

type_synonym captures = "(nat, jstr) jmap"

function rx_match :: "jstr \<Rightarrow> rx \<Rightarrow> nat \<Rightarrow> captures \<Rightarrow> (nat \<times> captures) list" where
  "rx_match s RxEmpty p c = [(p, c)]"
| "rx_match s (RxClass f) p c = (if p < length s \<and> f (s ! p) then [(Suc p, c)] else [])"
| "rx_match s (RxSeq a b) p c = concat (map (\<lambda>(q, d). rx_match s b q d) (rx_match s a p c))"
| "rx_match s (RxAlt a b) p c = rx_match s a p c @ rx_match s b p c"
| "rx_match s (RxMany greedy a) p c =
     (let more = concat (map (\<lambda>(q, d). if p < q \<and> q \<le> length s then rx_match s (RxMany greedy a) q d else [])
                   (rx_match s a p c))
      in if greedy then more @ [(p, c)] else (p, c) # more)"
| "rx_match s (RxGroup k a) p c =
     map (\<lambda>(q, d). (q, jset d k (take (q - p) (drop p s)))) (rx_match s a p c)"
| "rx_match s (RxBack k) p c =
     (let w = or_else (jget c k) []
      in if take (length w) (drop p s) = w then [(p + length w, c)] else [])"
| "rx_match s (RxAt a) p c = (if at_holds s p a then [(p, c)] else [])"
  by pat_completeness auto
termination by (relation "measures [\<lambda>(s, r, p, c). size r, \<lambda>(s, r, p, c). length s - p]") auto

text \<open>\<open>exec\<close> at a position, \<open>test\<close>, \<open>matchAll\<close> and \<open>replace\<close> with a function of the match and its groups.\<close>

definition rx_at_pos :: "rx \<Rightarrow> jstr \<Rightarrow> nat \<Rightarrow> (nat \<times> captures) option" where
  "rx_at_pos r s p = first (rx_match s r p [])"

definition rx_test :: "rx \<Rightarrow> jstr \<Rightarrow> bool" where
  "rx_test r s \<longleftrightarrow> list_ex (\<lambda>p. rx_at_pos r s p \<noteq> None) [0..<Suc (length s)]"

function rx_all_from :: "rx \<Rightarrow> jstr \<Rightarrow> nat \<Rightarrow> (jstr \<times> captures) list" where
  "rx_all_from r s p =
     (if p > length s then []
      else case rx_at_pos r s p of
        None \<Rightarrow> rx_all_from r s (Suc p)
      | Some (q, c) \<Rightarrow> (take (q - p) (drop p s), c) # rx_all_from r s (if p < q then q else Suc p))"
  by pat_completeness auto
termination by (relation "measure (\<lambda>(r, s, p). Suc (length s) - p)") auto

declare rx_all_from.simps [simp del]

definition rx_all :: "rx \<Rightarrow> jstr \<Rightarrow> (jstr \<times> captures) list" where
  "rx_all r s = rx_all_from r s 0"

definition rx_exec :: "rx \<Rightarrow> jstr \<Rightarrow> (jstr \<times> captures) option" where
  "rx_exec r s = first (rx_all r s)"

function rx_replace_from :: "bool \<Rightarrow> rx \<Rightarrow> (jstr \<Rightarrow> captures \<Rightarrow> jstr option) \<Rightarrow> jstr \<Rightarrow> nat \<Rightarrow> jstr option" where
  "rx_replace_from every r f s p =
     (if p > length s then Some []
      else case rx_at_pos r s p of
        None \<Rightarrow> do { rest \<leftarrow> rx_replace_from every r f s (Suc p); Some (take 1 (drop p s) @ rest) }
      | Some (q, c) \<Rightarrow> do {
          new \<leftarrow> f (take (q - p) (drop p s)) c;
          rest \<leftarrow> (if \<not> every then Some (drop q s)
                  else if p < q then rx_replace_from every r f s q
                  else do { rest \<leftarrow> rx_replace_from every r f s (Suc p); Some (take 1 (drop p s) @ rest) });
          Some (new @ rest) })"
  by pat_completeness auto
termination by (relation "measure (\<lambda>(every, r, f, s, p). Suc (length s) - p)") auto

declare rx_replace_from.simps [simp del]

definition rx_replace :: "rx \<Rightarrow> (jstr \<Rightarrow> captures \<Rightarrow> jstr option) \<Rightarrow> jstr \<Rightarrow> jstr option" where
  "rx_replace r f s = rx_replace_from True r f s 0"

definition rx_replace1 :: "rx \<Rightarrow> (jstr \<Rightarrow> captures \<Rightarrow> jstr option) \<Rightarrow> jstr \<Rightarrow> jstr option" where
  "rx_replace1 r f s = rx_replace_from False r f s 0"

definition group :: "captures \<Rightarrow> nat \<Rightarrow> jstr" where
  "group c k = or_else (jget c k) []"

subsection \<open>Matches stay inside the string and are long enough\<close>

primrec rx_least :: "rx \<Rightarrow> nat" where
  "rx_least RxEmpty = 0"
| "rx_least (RxClass f) = 1"
| "rx_least (RxSeq a b) = rx_least a + rx_least b"
| "rx_least (RxAlt a b) = min (rx_least a) (rx_least b)"
| "rx_least (RxMany g a) = 0"
| "rx_least (RxGroup k a) = rx_least a"
| "rx_least (RxBack k) = 0"
| "rx_least (RxAt a) = 0"

lemma rx_match_bounds:
  "(q, d) \<in> set (rx_match s r p c) \<Longrightarrow> p \<le> length s \<Longrightarrow> p + rx_least r \<le> q \<and> q \<le> length s"
proof (induction s r p c arbitrary: q d rule: rx_match.induct)
  case (3 s a b p c)
  from "3.prems"(1) obtain q1 d1 where 1: "(q1, d1) \<in> set (rx_match s a p c)" "(q, d) \<in> set (rx_match s b q1 d1)"
    by auto
  with "3.IH"(1) [OF 1(1) "3.prems"(2)] "3.IH"(2) [OF 1(1) refl 1(2)] show ?case by simp
next
  case (4 s a b p c)
  then show ?case by fastforce
next
  case (5 s greedy a p c)
  from "5.prems"(1) have "(q, d) = (p, c) \<or>
    (\<exists>q1 d1. (q1, d1) \<in> set (rx_match s a p c) \<and> (p < q1 \<and> q1 \<le> length s) \<and>
       (q, d) \<in> set (rx_match s (RxMany greedy a) q1 d1))"
    by (simp del: rx_match.simps(5) add: rx_match.simps(5) [of s greedy a p c] Let_def split: if_splits) blast+
  then show ?case
  proof (elim disjE exE conjE)
    fix q1 d1
    assume 1: "(q1, d1) \<in> set (rx_match s a p c)" "p < q1" "q1 \<le> length s"
      and 2: "(q, d) \<in> set (rx_match s (RxMany greedy a) q1 d1)"
    from "5.IH"(2) [OF 1(1) refl conjI [OF 1(2,3)] 2 1(3)] 1(2) show ?case by simp
  qed (use "5.prems"(2) in simp)
next
  case (6 s k a p c)
  then show ?case by auto
next
  case (7 s k p c)
  let ?w = "or_else (jget c k) []"
  from 7(1) have "q = p + length ?w" "take (length ?w) (drop p s) = ?w" by (auto simp: Let_def split: if_splits)
  moreover from this(2) have "length ?w \<le> length s - p" by (metis length_take length_drop min.cobounded1)
  ultimately show ?case using 7(2) by simp
qed (auto split: if_splits)

lemma rx_at_pos_bounds:
  "rx_at_pos r s p = Some (q, d) \<Longrightarrow> p \<le> length s \<Longrightarrow> p + rx_least r \<le> q \<and> q \<le> length s"
  unfolding rx_at_pos_def by (blast dest: first_Some rx_match_bounds)

text \<open>A replacement that never makes a match longer never makes the string longer.\<close>

definition rx_shrinks :: "rx \<Rightarrow> (jstr \<Rightarrow> captures \<Rightarrow> jstr option) \<Rightarrow> bool" where
  "rx_shrinks r f \<longleftrightarrow> (\<forall>m c t. length m \<ge> rx_least r \<longrightarrow> f m c = Some t \<longrightarrow> length t \<le> length m)"

lemma rx_replace_from_length:
  assumes "rx_shrinks r f"
    and "rx_replace_from every r f s p = Some t"
  shows "length t \<le> length s - p"
  using assms
proof (induction every r f s p arbitrary: t rule: rx_replace_from.induct)
  case (1 every r f s p)
  note eq = rx_replace_from.simps [of every r f s p]
  show ?case
  proof (cases "p > length s")
    case False
    show ?thesis
    proof (cases "rx_at_pos r s p")
      case None
      with "1.prems"(2) eq False obtain w where w: "rx_replace_from every r f s (Suc p) = Some w" "t = take 1 (drop p s) @ w"
        by (auto simp: bind_eq_Some_conv)
      from "1.IH"(1) [OF False None "1.prems"(1) w(1)] w(2) show ?thesis by simp
    next
      case (Some qd)
      obtain q d where qd: "qd = (q, d)" by force
      with Some rx_at_pos_bounds False have b: "p + rx_least r \<le> q" "q \<le> length s" by auto
      with "1.prems"(2) eq False Some qd obtain new rest where t: "t = new @ rest"
        and new: "f (take (q - p) (drop p s)) d = Some new"
        and rest: "(if \<not> every then Some (drop q s) else if p < q then rx_replace_from every r f s q
            else do { rest \<leftarrow> rx_replace_from every r f s (Suc p); Some (take 1 (drop p s) @ rest) }) = Some rest"
        by (auto simp: bind_eq_Some_conv)
      have "length new \<le> q - p"
        using "1.prems"(1) [unfolded rx_shrinks_def, rule_format, OF _ new] b by simp
      moreover have "length rest \<le> length s - q"
      proof -
        consider "\<not> every" | "every" "p < q" | "every" "\<not> p < q" by blast
        then show ?thesis
        proof cases
          case 1
          with rest show ?thesis by auto
        next
          case 2
          with rest "1.IH"(2) [OF False Some qd [symmetric] new _ 2(2) "1.prems"(1)] 2 show ?thesis by simp
        next
          case 3
          with rest b "1.IH"(3) [OF False Some qd [symmetric] new _ 3(2) "1.prems"(1)] show ?thesis by (auto simp: bind_eq_Some_conv)
        qed
      qed
      ultimately show ?thesis using t b by simp
    qed
  qed (use "1.prems"(2) eq in simp)
qed

lemma rx_replace_length: "rx_shrinks r f \<Longrightarrow> rx_replace r f s = Some t \<Longrightarrow> length t \<le> length s"
  unfolding rx_replace_def using rx_replace_from_length [of r f True s 0 t] by simp

end
