(* ===== verification/Shell.thy ===== *)
theory Shell
  imports Regex
begin

section \<open>Reading a shell command\<close>

text \<open>
  \<open>scanShell\<close>, \<open>decodeAnsiC\<close>, \<open>commandStart\<close>, \<open>optionCommand\<close>, \<open>splitStringPayload\<close>,
  \<open>envSplitWords\<close> and \<open>shellPipelines\<close> of \<open>src/src/policy/command-policy.ts\<close>. A position in the input
  is the rest of the input from there; \<open>input.charAt(i + 1)\<close> is the head of that rest. The only
  thing that throws here is \<open>String.fromCodePoint\<close> beyond the last code point.
\<close>

abbreviation BACKSLASH :: int where "BACKSLASH \<equiv> 92"
abbreviation DQUOTE :: int where "DQUOTE \<equiv> 34"
abbreviation SQUOTE :: int where "SQUOTE \<equiv> 39"
abbreviation BACKTICK :: int where "BACKTICK \<equiv> 96"
abbreviation NEWLINE :: int where "NEWLINE \<equiv> 10"
abbreviation DOLLAR :: int where "DOLLAR \<equiv> 36"
abbreviation LPAREN :: int where "LPAREN \<equiv> 40"
abbreviation RPAREN :: int where "RPAREN \<equiv> 41"
abbreviation EQUALS :: int where "EQUALS \<equiv> 61"
abbreviation SPACE :: int where "SPACE \<equiv> 32"

text \<open>\<open>xs.join(sep)\<close> and \<open>xs[i]\<close>, which is \<open>undefined\<close> out of range.\<close>

fun join :: "jstr \<Rightarrow> jstr list \<Rightarrow> jstr" where
  "join sep [] = []"
| "join sep [x] = x"
| "join sep (x # xs) = x @ sep @ join sep xs"

definition nth_opt :: "'a list \<Rightarrow> nat \<Rightarrow> 'a option" where
  "nth_opt xs i = (if i < length xs then Some (xs ! i) else None)"

subsection \<open>ANSI-C quoting\<close>

definition digit_value :: "int \<Rightarrow> int" where
  "digit_value c = (if c \<le> 57 then c - 48 else if c \<le> 70 then c - 55 else c - 87)"

definition parse_int :: "int \<Rightarrow> jstr \<Rightarrow> int" where
  "parse_int b ds = foldl (\<lambda>n c. b * n + digit_value c) 0 ds"

definition fromCodePoint :: "int \<Rightarrow> jstr option" where
  "fromCodePoint n =
     (if n < 0x10000 then Some [n]
      else if n \<le> 0x10FFFF then Some [0xD800 + (n - 0x10000) div 0x400, 0xDC00 + (n - 0x10000) mod 0x400]
      else None)"

definition rx_backslash :: "string \<Rightarrow> rx \<Rightarrow> rx" where
  "rx_backslash s r = RxSeq (RxClass (\<lambda>c. c = BACKSLASH)) (rx_seq (map rx_char s @ [RxGroup 1 r]))"

definition ansi_escape :: "int \<Rightarrow> int" where
  "ansi_escape e = (if e = ch (CHR ''a'') then 7 else if e = ch (CHR ''b'') then 8
     else if e = ch (CHR ''e'') then 27 else if e = ch (CHR ''f'') then 12
     else if e = ch (CHR ''n'') then 10 else if e = ch (CHR ''r'') then 13
     else if e = ch (CHR ''t'') then 9 else if e = ch (CHR ''v'') then 11 else e)"

definition code_point :: "int \<Rightarrow> jstr \<Rightarrow> captures \<Rightarrow> jstr option" where
  "code_point b m c = fromCodePoint (parse_int b (group c 1))"

abbreviation rx_hex :: rx where "rx_hex \<equiv> RxClass is_hex"
abbreviation rx_oct :: rx where "rx_oct \<equiv> RxClass is_octal"

definition decodeAnsiC :: "jstr \<Rightarrow> jstr option" where
  "decodeAnsiC value = do {
     v1 \<leftarrow> rx_replace (rx_backslash ''x'' (RxSeq rx_hex (rx_opt rx_hex))) (code_point 16) value;
     v2 \<leftarrow> rx_replace (rx_backslash ''u'' (rx_times 4 rx_hex)) (code_point 16) v1;
     v3 \<leftarrow> rx_replace (rx_backslash ''U'' (rx_times 8 rx_hex)) (code_point 16) v2;
     v4 \<leftarrow> rx_replace (rx_backslash [] (RxSeq rx_oct (rx_opt (RxSeq rx_oct (rx_opt rx_oct))))) (code_point 8) v3;
     rx_replace (rx_backslash [] (RxClass (\<lambda>c. c \<in> {BACKSLASH, SQUOTE, DQUOTE} \<or> one_of ''abefnrtv'' c)))
       (\<lambda>m c. Some (map ansi_escape (take 1 (group c 1)))) v4 }"

subsection \<open>Words, quotes and substitutions\<close>

text \<open>\<open>indexOf(q, i)\<close> and the two slices around it.\<close>

fun up_to :: "int \<Rightarrow> jstr \<Rightarrow> (jstr \<times> jstr) option" where
  "up_to q [] = None"
| "up_to q (c # cs) = (if c = q then Some ([], cs) else map_option (\<lambda>(b, r). (c # b, r)) (up_to q cs))"

lemma up_to_length: "up_to q xs = Some (b, r) \<Longrightarrow> length b + length r < length xs"
  by (induction q xs arbitrary: b r rule: up_to.induct) (fastforce split: if_splits)+

text \<open>The body of \<open>$(...)\<close> from behind the parenthesis, and the input behind it.\<close>

fun commandSubstitution :: "jstr \<Rightarrow> nat \<Rightarrow> int option \<Rightarrow> jstr \<Rightarrow> (jstr \<times> jstr) option" where
  "commandSubstitution [] depth quote body = None"
| "commandSubstitution (c # xs) depth quote body =
     (if c = BACKSLASH then (case xs of [] \<Rightarrow> None | d # ys \<Rightarrow> commandSubstitution ys depth quote (body @ [c, d]))
      else if quote \<noteq> None
      then commandSubstitution xs depth (if quote = Some c then None else quote) (body @ [c])
      else if c = SQUOTE \<or> c = DQUOTE then commandSubstitution xs depth (Some c) (body @ [c])
      else if c = DOLLAR \<and> first xs = Some LPAREN
      then commandSubstitution (tl xs) (Suc depth) quote (body @ [c, LPAREN])
      else if c = RPAREN then (if depth - 1 = 0 then Some (body, xs)
        else commandSubstitution xs (depth - 1) quote (body @ [c]))
      else commandSubstitution xs depth quote (body @ [c]))"

lemma commandSubstitution_length_le:
  "length xs \<le> n \<Longrightarrow> commandSubstitution xs depth quote body = Some (b, r) \<Longrightarrow> length r < length xs"
proof (induction n arbitrary: xs depth quote body)
  case (Suc n)
  then obtain c ys where xs: "xs = c # ys" by (cases xs) auto
  have step: "commandSubstitution zs d q w = Some (b, r) \<Longrightarrow> length zs \<le> length ys \<Longrightarrow> length r < length xs" for zs d q w
    using Suc.IH [of zs d q w] Suc.prems(1) xs by simp
  show ?case
  proof (cases ys)
    case Nil
    with Suc.prems(2) show ?thesis by (simp add: xs split: if_splits)
  next
    case (Cons d zs)
    have "length zs \<le> length ys" "length ys \<le> length ys" by (simp_all add: Cons)
    with Suc.prems(2) show ?thesis unfolding xs commandSubstitution.simps(2)
      by (simp only: Cons list.case list.sel split: if_split_asm)
        (auto dest: step simp: xs Cons simp del: commandSubstitution.simps)
  qed
qed simp

lemmas commandSubstitution_length = commandSubstitution_length_le [OF order_refl]

text \<open>Inside double quotes: the rest behind the closing quote, the word and the nested commands.\<close>

function scan_dquote :: "jstr \<Rightarrow> jstr \<Rightarrow> jstr list \<Rightarrow> jstr \<times> jstr \<times> jstr list" where
  "scan_dquote [] word nested = ([], word, nested)"
| "scan_dquote (c # xs) word nested =
     (if c = DQUOTE then (xs, word, nested)
      else if c = BACKSLASH \<and> xs \<noteq> [] then scan_dquote (tl xs) (word @ [hd xs]) nested
      else if c = DOLLAR \<and> first xs = Some LPAREN
      then (case commandSubstitution (tl xs) 1 None [] of
              None \<Rightarrow> scan_dquote xs (word @ [c]) nested
            | Some (body, rest) \<Rightarrow> scan_dquote rest word (nested @ [body]))
      else if c = BACKTICK
      then (case up_to BACKTICK xs of
              None \<Rightarrow> scan_dquote xs word nested
            | Some (body, rest) \<Rightarrow> scan_dquote rest word (nested @ [body]))
      else scan_dquote xs (word @ [c]) nested)"
  by pat_completeness auto
termination
  by (relation "measure (\<lambda>(xs, _, _). length xs)")
    (auto dest: commandSubstitution_length up_to_length)

definition separator :: "int \<Rightarrow> bool" where
  "separator c \<longleftrightarrow> one_of '';|&(){}'' c"

definition ends_redirect :: "jstr \<Rightarrow> bool" where
  "ends_redirect word \<longleftrightarrow> word \<noteq> [] \<and> one_of ''<>'' (last word)"

definition ends_word :: "int \<Rightarrow> jstr \<Rightarrow> bool" where
  "ends_word c word \<longleftrightarrow> is_space c \<or> separator c \<and> \<not> (c = ch (CHR ''&'') \<and> ends_redirect word)"

lemma scan_dquote_length_le:
  "length xs \<le> n \<Longrightarrow> scan_dquote xs word nested = (r, w, ns) \<Longrightarrow>
     length w + length r \<le> length word + length xs \<and> length r \<le> length xs"
proof (induction n arbitrary: xs word nested)
  case (Suc n)
  show ?case
  proof (cases xs)
    case (Cons c ys)
    have step: "scan_dquote zs v ms = (r, w, ns) \<Longrightarrow> length zs \<le> length ys \<Longrightarrow>
        length w + length r \<le> length v + length zs \<and> length r \<le> length zs" for zs v ms
      using Suc.IH [of zs v ms] Suc.prems(1) Cons by simp
    from Suc.prems(2) show ?thesis unfolding Cons scan_dquote.simps(2)
      by (simp only: split: if_split_asm option.split_asm prod.split_asm)
        (auto dest!: step up_to_length commandSubstitution_length simp del: scan_dquote.simps)
  qed (use Suc.prems in simp)
qed simp

lemmas scan_dquote_length = scan_dquote_length_le [OF order_refl]

text \<open>
  One word: the rest of the input, the word, whether it has begun (a word may be the empty quoted
  string) and the nested commands met in it.
\<close>

function scan_word :: "jstr \<Rightarrow> jstr \<Rightarrow> bool \<Rightarrow> jstr list \<Rightarrow> (jstr \<times> jstr \<times> bool \<times> jstr list) option" where
  "scan_word [] word started nested = Some ([], word, started, nested)"
| "scan_word (c # xs) word started nested =
     (if ends_word c word then Some (c # xs, word, started, nested)
      else if c = BACKSLASH
      then (case xs of
              [] \<Rightarrow> scan_word [] word started nested
            | d # ys \<Rightarrow> if d = NEWLINE then scan_word ys word started nested
                        else scan_word ys (word @ [d]) True nested)
      else if c = SQUOTE
      then (case up_to SQUOTE xs of
              None \<Rightarrow> scan_word [] (word @ xs) True nested
            | Some (body, rest) \<Rightarrow> scan_word rest (word @ body) True nested)
      else if c = DOLLAR \<and> first xs = Some SQUOTE
      then (case up_to SQUOTE (tl xs) of
              None \<Rightarrow> scan_word [] (word @ tl xs) True nested
            | Some (body, rest) \<Rightarrow> do {
                decoded \<leftarrow> decodeAnsiC body;
                scan_word rest (word @ decoded) True nested })
      else if c = DQUOTE
      then (case scan_dquote xs word nested of (rest, word', nested') \<Rightarrow> scan_word rest word' True nested')
      else if c = DOLLAR \<and> first xs = Some LPAREN
      then (case commandSubstitution (tl xs) 1 None [] of
              None \<Rightarrow> scan_word xs (word @ [c]) True nested
            | Some (body, rest) \<Rightarrow> scan_word rest word True (nested @ [body]))
      else if c = BACKTICK
      then (case up_to BACKTICK xs of
              None \<Rightarrow> scan_word xs word True nested
            | Some (body, rest) \<Rightarrow> scan_word rest word True (nested @ [body]))
      else scan_word xs (word @ [c]) True nested)"
  by pat_completeness auto
termination
  by (relation "measure (\<lambda>(xs, _, _, _). length xs)")
    (auto simp: less_Suc_eq_le dest!: up_to_length commandSubstitution_length scan_dquote_length [OF sym])

declare scan_word.simps [simp del]

text \<open>Every match of these expressions is at least as long as the text that replaces it.\<close>

lemma fromCodePoint_length: "fromCodePoint n = Some t \<Longrightarrow> length t \<le> 2"
  by (auto simp: fromCodePoint_def split: if_splits)

lemma rx_backslash_least: "1 + rx_least r \<le> rx_least (rx_backslash s r)"
proof -
  have "rx_least r \<le> rx_least (rx_seq (map rx_char s @ [RxGroup 1 r]))" by (induction s) auto
  then show ?thesis by (simp add: rx_backslash_def)
qed

lemma code_point_length:
  assumes "1 \<le> rx_least r" "rx_replace (rx_backslash s r) (code_point b) v = Some w"
  shows "length w \<le> length v"
proof (rule rx_replace_length [OF _ assms(2)], unfold rx_shrinks_def code_point_def, intro allI impI)
  fix m c t
  assume "rx_least (rx_backslash s r) \<le> length m" "fromCodePoint (parse_int b (group c 1)) = Some t"
  with rx_backslash_least [of r s] assms(1) fromCodePoint_length show "length t \<le> length m" by fastforce
qed

lemma ansi_escape_length:
  assumes "rx_replace (rx_backslash s r) (\<lambda>m c. Some (map ansi_escape (take 1 (group c 1)))) v = Some w"
  shows "length w \<le> length v"
  using rx_backslash_least [of r s] by (intro rx_replace_length [OF _ assms]) (auto simp: rx_shrinks_def)

lemma decodeAnsiC_length: "decodeAnsiC s = Some t \<Longrightarrow> length t \<le> length s"
  unfolding decodeAnsiC_def bind_eq_Some_conv
proof (elim exE conjE)
  fix v1 v2 v3 v4
  assume v: "rx_replace (rx_backslash ''x'' (RxSeq rx_hex (rx_opt rx_hex))) (code_point 16) s = Some v1"
    "rx_replace (rx_backslash ''u'' (rx_times 4 rx_hex)) (code_point 16) v1 = Some v2"
    "rx_replace (rx_backslash ''U'' (rx_times 8 rx_hex)) (code_point 16) v2 = Some v3"
    "rx_replace (rx_backslash [] (RxSeq rx_oct (rx_opt (RxSeq rx_oct (rx_opt rx_oct))))) (code_point 8) v3 = Some v4"
    "rx_replace (rx_backslash [] (RxClass (\<lambda>c. c \<in> {BACKSLASH, SQUOTE, DQUOTE} \<or> one_of ''abefnrtv'' c)))
      (\<lambda>m c. Some (map ansi_escape (take 1 (group c 1)))) v4 = Some t"
  have "length v1 \<le> length s" by (rule code_point_length [OF _ v(1)]) simp
  moreover have "length v2 \<le> length v1" by (rule code_point_length [OF _ v(2)]) (simp add: numeral_eq_Suc)
  moreover have "length v3 \<le> length v2" by (rule code_point_length [OF _ v(3)]) (simp add: numeral_eq_Suc)
  moreover have "length v4 \<le> length v3" by (rule code_point_length [OF _ v(4)]) simp
  ultimately show ?thesis using ansi_escape_length [OF v(5)] by linarith
qed

lemma scan_word_length_le:
  "length xs \<le> n \<Longrightarrow> scan_word xs word started nested = Some (r, w, b, ns) \<Longrightarrow>
     length w + length r \<le> length word + length xs \<and> length r \<le> length xs \<and>
     (r = [] \<or> is_space (hd r) \<or> separator (hd r))"
proof (induction n arbitrary: xs word started nested)
  case (Suc n)
  show ?case
  proof (cases xs)
    case (Cons c ys)
    have step: "scan_word zs v s ms = Some (r, w, b, ns) \<Longrightarrow> length zs \<le> length ys \<Longrightarrow>
        length w + length r \<le> length v + length zs \<and> length r \<le> length zs \<and>
        (r = [] \<or> is_space (hd r) \<or> separator (hd r))" for zs v s ms
      using Suc.IH [of zs v s ms] Suc.prems(1) Cons by simp
    from Suc.prems(2) show ?thesis unfolding Cons scan_word.simps(2)
      by (simp only: bind_eq_Some_conv list.case split: if_split_asm option.split_asm prod.split_asm list.split_asm)
        (auto simp: ends_word_def
          dest!: step up_to_length decodeAnsiC_length commandSubstitution_length scan_dquote_length)
  qed (use Suc.prems in \<open>simp add: scan_word.simps\<close>)
qed (simp add: scan_word.simps)

lemmas scan_word_length = scan_word_length_le [OF order_refl]

subsection \<open>Commands\<close>

record shell_scan =
  ss_commands :: "jstr list list"
  ss_nested :: "jstr list"

definition flush :: "jstr list \<Rightarrow> jstr list list \<Rightarrow> jstr list list" where
  "flush words commands = (if words \<noteq> [] then commands @ [words] else commands)"

lemma scan_word_progress:
  assumes "scan_word (c # xs) word started nested = Some (r, w, b, ns)" "\<not> ends_word c word"
  shows "length r < Suc (length xs)"
proof -
  from assms obtain zs v s ms where "scan_word zs v s ms = Some (r, w, b, ns)" "length zs \<le> length xs"
    unfolding scan_word.simps(2)
    by (simp only: bind_eq_Some_conv list.case if_False split: if_split_asm option.split_asm prod.split_asm list.split_asm)
      (fastforce dest!: up_to_length commandSubstitution_length scan_dquote_length)+
  then show ?thesis by (auto dest!: scan_word_length)
qed

function scan_loop :: "jstr \<Rightarrow> jstr list \<Rightarrow> jstr list list \<Rightarrow> jstr list \<Rightarrow> shell_scan option" where
  "scan_loop [] words commands nested = Some \<lparr>ss_commands = flush words commands, ss_nested = nested\<rparr>"
| "scan_loop (c # xs) words commands nested =
     (if is_space c
      then (if c = NEWLINE then scan_loop xs [] (flush words commands) nested
            else scan_loop xs words commands nested)
      else if c = ch (CHR ''#'') \<and> words = []
      then scan_loop (dropWhile (\<lambda>x. x \<noteq> NEWLINE) xs) words commands nested
      else if separator c
      then scan_loop (dropWhile separator xs) [] (flush words commands) nested
      else do {
        (rest, word, started, nested') \<leftarrow> scan_word (c # xs) [] False nested;
        scan_loop rest (if started then words @ [word] else words) commands nested' })"
  by pat_completeness auto

termination
  by (relation "measure (\<lambda>(xs, _, _, _). length xs)")
    (auto simp: less_Suc_eq_le length_dropWhile_le ends_word_def dest!: scan_word_progress)

declare scan_loop.simps [simp del]

definition scanShell :: "jstr \<Rightarrow> shell_scan option" where
  "scanShell inp = scan_loop inp [] [] []"

text \<open>How much text a command holds: its words and one more for each.\<close>

definition weight :: "jstr list \<Rightarrow> nat" where
  "weight ws = sum_list (map (\<lambda>w. Suc (length w)) ws)"

lemma weight_simps [simp]: "weight [] = 0" "weight (w # ws) = Suc (length w) + weight ws"
  "weight (vs @ ws) = weight vs + weight ws"
  by (simp_all add: weight_def)

lemma weight_drop: "weight (drop n ws) \<le> weight ws"
  by (metis append_take_drop_id le_add2 weight_simps(3))

lemma length_join: "ws \<noteq> [] \<Longrightarrow> Suc (length (join [SPACE] ws)) = weight ws"
  by (induction "[SPACE]" ws rule: join.induct) auto

definition ends_here :: "jstr \<Rightarrow> nat" where
  "ends_here xs = (if xs = [] \<or> is_space (hd xs) \<or> separator (hd xs) then 1 else 0)"

lemma scan_loop_weight_le:
  "length xs \<le> n \<Longrightarrow> scan_loop xs words commands nested = Some res \<Longrightarrow>
     weight words + length xs \<le> N + ends_here xs \<Longrightarrow>
     cmd \<in> set (ss_commands res) \<Longrightarrow> cmd \<in> set commands \<or> weight cmd \<le> Suc N"
proof (induction n arbitrary: xs words commands nested)
  case (Suc n)
  show ?case
  proof (cases xs)
    case (Cons c ys)
    have step: "scan_loop zs vs cs ms = Some res \<Longrightarrow> length zs \<le> length ys \<Longrightarrow>
        weight vs + length zs \<le> N + ends_here zs \<Longrightarrow> cmd \<in> set cs \<or> weight cmd \<le> Suc N" for zs vs cs ms
      using Suc.IH [of zs vs cs ms] Suc.prems(1,4) Cons by simp
    have flushed: "cmd \<in> set (flush words commands) \<Longrightarrow> cmd \<in> set commands \<or> weight cmd \<le> Suc N"
      using Suc.prems(3) Cons by (auto simp: flush_def ends_here_def split: if_splits)
    have room: "weight words + length ys \<le> N" "\<not> is_space c \<Longrightarrow> \<not> separator c \<Longrightarrow> weight words + Suc (length ys) \<le> N"
      using Suc.prems(3) Cons by (auto simp: ends_here_def split: if_splits)
    consider (newline) "is_space c" "c = NEWLINE" | (space) "is_space c" "c \<noteq> NEWLINE"
      | (comment) "\<not> is_space c" "c = ch (CHR ''#'')" "words = []"
      | (sep) "\<not> is_space c" "\<not> (c = ch (CHR ''#'') \<and> words = [])" "separator c"
      | (word) "\<not> is_space c" "\<not> (c = ch (CHR ''#'') \<and> words = [])" "\<not> separator c"
      by blast
    then show ?thesis
    proof cases
      case newline
      with Suc.prems(2) Cons step [of ys "[]"] room(1) flushed show ?thesis by (auto simp: scan_loop.simps)
    next
      case space
      with Suc.prems(2) Cons step [of ys words] room(1) show ?thesis by (auto simp: scan_loop.simps)
    next
      case comment
      with Suc.prems(2) Cons step [of "dropWhile (\<lambda>x. x \<noteq> NEWLINE) ys" "[]"] room(1)
        length_dropWhile_le [of "\<lambda>x. x \<noteq> NEWLINE" ys]
      show ?thesis by (auto simp: scan_loop.simps)
    next
      case sep
      with Suc.prems(2) Cons step [of "dropWhile separator ys" "[]"] room(1) flushed
        length_dropWhile_le [of separator ys]
      show ?thesis by (auto simp: scan_loop.simps)
    next
      case word
      with Suc.prems(2) Cons obtain r w b ns where
        w: "scan_word (c # ys) [] False nested = Some (r, w, b, ns)"
        and l: "scan_loop r (if b then words @ [w] else words) commands ns = Some res"
        by (auto simp: scan_loop.simps bind_eq_Some_conv)
      from scan_word_length [OF w] have "length w + length r \<le> Suc (length ys)" "ends_here r = 1"
        by (auto simp: ends_here_def)
      moreover have "length r \<le> length ys"
        using scan_word_progress [OF w] word by (simp add: ends_word_def)
      ultimately show ?thesis using step [OF l] room word by auto
    qed
  qed (use Suc.prems in \<open>auto simp: scan_loop.simps flush_def ends_here_def split: if_splits\<close>)
qed (auto simp: scan_loop.simps flush_def ends_here_def split: if_splits)

lemma scanShell_weight: "scanShell xs = Some res \<Longrightarrow> cmd \<in> set (ss_commands res) \<Longrightarrow> weight cmd \<le> Suc (length xs)"
  unfolding scanShell_def using scan_loop_weight_le [OF order_refl, of xs "[]" "[]" "[]" res "length xs" cmd] by simp

end
