(* ===== verification/ShellWords.thy ===== *)
theory ShellWords
  imports Shell
begin

section \<open>The words of a command\<close>

text \<open>
  What a command runs, read from its words: where it starts behind assignments and redirections,
  the options of the programs that run another one, a split string of \<open>env\<close>, and the pipelines of
  a command line (\<open>commandStart\<close> to \<open>shellPipelines\<close> in \<open>src/src/policy/command-policy.ts\<close>).
  An outer \<open>None\<close> is a throw of the scanner; the index of a word may lie beyond the words.
\<close>

abbreviation rx_name :: rx where
  "rx_name \<equiv> RxSeq (RxClass (\<lambda>c. is_letter c \<or> c = 95)) (rx_many (RxClass is_word))"

definition is_assignment :: "jstr \<Rightarrow> bool" where
  "is_assignment w \<longleftrightarrow> rx_test (rx_seq [RxAt AtStart, rx_name, rx_char (CHR ''='')]) w"

definition is_keyword :: "jstr \<Rightarrow> bool" where
  "is_keyword w \<longleftrightarrow> w \<in> u ` set [''if'', ''then'', ''elif'', ''else'', ''while'', ''until'', ''do'', ''!'']"

definition rx_redirect :: rx where
  "rx_redirect = rx_alts [RxSeq (rx_char (CHR ''>'')) (rx_opt (rx_char (CHR ''>''))),
     RxSeq (rx_char (CHR ''<'')) (rx_opt (rx_char (CHR ''<''))),
     rx_text ''<>'', rx_text ''>&'', rx_text ''<&'']"

definition is_redirect :: "jstr \<Rightarrow> bool" where
  "is_redirect w \<longleftrightarrow>
     rx_test (rx_seq [RxAt AtStart, rx_many (RxClass is_digit), rx_redirect, RxAt AtEnd]) w"

definition is_redirect_to :: "jstr \<Rightarrow> bool" where
  "is_redirect_to w \<longleftrightarrow>
     rx_test (rx_seq [RxAt AtStart, rx_many (RxClass is_digit), rx_redirect, rx_some (RxClass (\<lambda>c. \<not> is_newline c))]) w"

fun commandStart :: "jstr list \<Rightarrow> nat" where
  "commandStart [] = 0"
| "commandStart (w # ws) =
     (if is_assignment w \<or> is_keyword w then Suc (commandStart ws)
      else if is_redirect w then 2 + commandStart (drop 1 ws)
      else if is_redirect_to w then Suc (commandStart ws)
      else 0)"

fun option_end :: "jstr list \<Rightarrow> jstr list \<Rightarrow> nat" where
  "option_end [] opts = 0"
| "option_end (w # ws) opts =
     (if w = u ''--'' then 1
      else if \<not> prefix (u ''-'') w \<or> w = u ''-'' then 0
      else
        let name = or_else (rx_replace1 (RxSeq (rx_char (CHR ''='')) (rx_many (RxClass (\<lambda>c. \<not> is_newline c))))
                     (\<lambda>_ _. Some []) w) w
        in if name \<in> set opts \<and> EQUALS \<notin> set w then 2 + option_end (drop 1 ws) opts
           else Suc (option_end ws opts))"

definition optionCommand :: "jstr list \<Rightarrow> nat \<Rightarrow> jstr list \<Rightarrow> nat" where
  "optionCommand words start valueOptions = start + option_end (drop start words) valueOptions"

text \<open>The part behind the last slash.\<close>

definition executable_of :: "jstr \<Rightarrow> jstr" where
  "executable_of w = rev (takeWhile (\<lambda>c. c \<noteq> ch (CHR ''/'')) (rev w))"

definition behind_equals :: "jstr \<Rightarrow> jstr" where
  "behind_equals arg = tl (dropWhile (\<lambda>c. c \<noteq> EQUALS) arg)"

definition splitStringPayload :: "jstr list \<Rightarrow> nat \<Rightarrow> jstr option \<times> jstr list" where
  "splitStringPayload args split =
     (let arg = args ! split; compact = prefix (u ''-S'') arg \<and> length arg > 2
      in (if EQUALS \<in> set arg then Some (behind_equals arg)
          else if compact then Some (drop 2 arg) else nth_opt args (split + 1),
          drop (split + (if EQUALS \<in> set arg \<or> compact then 1 else 2)) args))"

definition is_split_string :: "jstr \<Rightarrow> bool" where
  "is_split_string arg \<longleftrightarrow> arg = u ''-S'' \<or> prefix (u ''-S'') arg \<or> arg = u ''--split-string'' \<or>
     prefix (u ''--split-string='') arg"

fun find_index :: "('a \<Rightarrow> bool) \<Rightarrow> 'a list \<Rightarrow> nat option" where
  "find_index f [] = None"
| "find_index f (x # xs) = (if f x then Some 0 else map_option Suc (find_index f xs))"

lemma find_index_Some: "find_index f xs = Some i \<Longrightarrow> i < length xs \<and> f (xs ! i)"
  by (induction xs arbitrary: i) (auto split: if_splits)

definition envSplitWords :: "jstr list \<Rightarrow> jstr list option option" where
  "envSplitWords args = (case find_index is_split_string args of
     None \<Rightarrow> Some None
   | Some split \<Rightarrow> (case splitStringPayload args split of
         (None, rest) \<Rightarrow> Some (Some [])
       | (Some value, rest) \<Rightarrow> do {
           scan \<leftarrow> scanShell (join [SPACE] (value # rest));
           Some (Some (or_else (first (ss_commands scan)) [])) }))"

lemma weight_nth_drop: "i < length ws \<Longrightarrow> Suc (length (ws ! i)) + weight (drop (Suc i) ws) \<le> weight ws"
  by (metis Cons_nth_drop_Suc weight_drop weight_simps(2))

lemma weight_drop_less: "i < length ws \<Longrightarrow> weight (drop (Suc i) ws) < weight ws"
  using weight_nth_drop [of i ws] by simp

lemma splitString_weight:
  assumes "i < length args" "splitStringPayload args i = (Some v, rest)"
  shows "weight (v # rest) \<le> weight args"
proof -
  let ?a = "args ! i"
  have a: "Suc (length ?a) + weight (drop (Suc i) args) \<le> weight args" by (rule weight_nth_drop [OF assms(1)])
  have eq: "length (behind_equals ?a) \<le> length ?a"
    unfolding behind_equals_def using length_dropWhile_le [of "\<lambda>c. c \<noteq> EQUALS" ?a] by simp
  show ?thesis
  proof (cases "EQUALS \<in> set ?a \<or> prefix (u ''-S'') ?a \<and> length ?a > 2")
    case True
    with assms(2) have "rest = drop (Suc i) args" "length v \<le> length ?a"
      using eq by (auto simp: splitStringPayload_def Let_def split: if_splits)
    with a show ?thesis by simp
  next
    case False
    with assms(2) have "nth_opt args (Suc i) = Some v" "rest = drop (Suc (Suc i)) args"
      by (auto simp: splitStringPayload_def Let_def split: if_splits)
    then have "v = args ! Suc i" "Suc i < length args" by (auto simp: nth_opt_def split: if_splits)
    with weight_nth_drop [of "Suc i" args] \<open>rest = _\<close> show ?thesis by simp
  qed
qed

lemma length_join_Cons: "Suc (length (join [SPACE] (v # ws))) = Suc (length v) + weight ws"
  using length_join [of "v # ws"] by simp

lemma envSplit_weight: "envSplitWords args = Some (Some ws) \<Longrightarrow> weight ws \<le> weight args"
  unfolding envSplitWords_def
  by (auto simp: bind_eq_Some_conv or_else_def first_def length_join_Cons
      dest!: find_index_Some splitString_weight scanShell_weight
      split: option.splits list.splits prod.splits)

subsection \<open>Pipelines\<close>

text \<open>
  \<open>shellPipelines\<close> walks the input once: \<open>seg\<close> is the input since \<open>start\<close>, \<open>pl\<close> the segments of the
  pipeline so far. Only pipelines of several segments are kept, and empty segments are dropped.
\<close>

definition trim :: "jstr \<Rightarrow> jstr" where
  "trim s = rev (dropWhile is_space (rev (dropWhile is_space s)))"

definition finish_segment :: "jstr \<Rightarrow> jstr list \<Rightarrow> jstr list" where
  "finish_segment seg pl = (if trim seg \<noteq> [] then pl @ [trim seg] else pl)"

definition finish_pipeline :: "jstr \<Rightarrow> jstr list \<Rightarrow> jstr list list \<Rightarrow> jstr list list" where
  "finish_pipeline seg pl pls =
     (if length (finish_segment seg pl) > 1 then pls @ [finish_segment seg pl] else pls)"

abbreviation BAR :: int where "BAR \<equiv> 124"
abbreviation AMPERSAND :: int where "AMPERSAND \<equiv> 38"
abbreviation SEMICOLON :: int where "SEMICOLON \<equiv> 59"

definition is_quote :: "int \<Rightarrow> bool" where
  "is_quote c \<longleftrightarrow> c = SQUOTE \<or> c = DQUOTE \<or> c = BACKTICK"

fun pipelines_from :: "jstr \<Rightarrow> int option \<Rightarrow> jstr \<Rightarrow> jstr list \<Rightarrow> jstr list list \<Rightarrow> jstr list list" where
  "pipelines_from [] quote seg pl pls = finish_pipeline seg pl pls"
| "pipelines_from (c # xs) quote seg pl pls =
     (if c = BACKSLASH then pipelines_from (drop 1 xs) quote (seg @ [c] @ take 1 xs) pl pls
      else if quote \<noteq> None
      then pipelines_from xs (if quote = Some c then None else quote) (seg @ [c]) pl pls
      else if is_quote c then pipelines_from xs (Some c) (seg @ [c]) pl pls
      else if (c = BAR \<or> c = AMPERSAND) \<and> first xs = Some c
      then pipelines_from (drop 1 xs) quote [] [] (finish_pipeline seg pl pls)
      else if c = BAR
      then pipelines_from (if first xs = Some AMPERSAND then drop 1 xs else xs) quote [] (finish_segment seg pl) pls
      else if c = SEMICOLON \<or> c = NEWLINE \<or> c = AMPERSAND
      then pipelines_from xs quote [] [] (finish_pipeline seg pl pls)
      else pipelines_from xs quote (seg @ [c]) pl pls)"

definition shellPipelines :: "jstr \<Rightarrow> jstr list list" where
  "shellPipelines inp = pipelines_from inp None [] [] []"

subsection \<open>Programs that run another program\<close>

definition sudo_options :: "jstr list" where
  "sudo_options = map u [''-u'', ''--user'', ''-g'', ''--group'', ''-h'', ''--host'', ''-p'', ''--prompt'',
     ''-C'', ''--chdir'', ''-T'', ''--command-timeout'', ''-R'', ''--chroot'', ''-t'', ''--type'']"

text \<open>
  The cases the readers of a command share, one program each: the number of arguments before the
  program that is run.
\<close>

definition wrapped_at :: "jstr \<Rightarrow> jstr list \<Rightarrow> nat option" where
  "wrapped_at executable args =
     (if executable = u ''exec'' then Some (optionCommand args 0 (map u [''-a'']))
      else if executable = u ''sudo'' then Some (optionCommand args 0 sudo_options)
      else if executable = u ''nice'' then Some (optionCommand args 0 (map u [''-n'', ''--adjustment'']))
      else if executable = u ''timeout''
      then Some (optionCommand args 0 (map u [''-s'', ''--signal'', ''-k'', ''--kill-after'']) + 1)
      else if executable = u ''time''
      then Some (optionCommand args 0 (map u [''-o'', ''--output'', ''-f'', ''--format'']))
      else if executable = u ''nohup'' then Some (optionCommand args 0 [])
      else None)"

definition stdbuf_options :: "jstr list" where
  "stdbuf_options = map u [''-i'', ''--input'', ''-o'', ''--output'', ''-e'', ''--error'']"

definition env_options :: "jstr list" where
  "env_options = map u [''-u'', ''--unset'', ''-C'', ''--chdir'']"

definition env_split_options :: "jstr list" where
  "env_split_options = env_options @ map u [''-S'', ''--split-string'']"

text \<open>The command of \<open>env\<close> behind its options and assignments, given the options that take a value.\<close>

definition env_next :: "jstr list \<Rightarrow> jstr list \<Rightarrow> nat" where
  "env_next args opts =
     (let next = optionCommand args 0 opts in next + length (takeWhile is_assignment (drop next args)))"

text \<open>What \<open>command\<close> runs; nothing when it only looks a name up.\<close>

fun command_operand :: "jstr list \<Rightarrow> jstr list option" where
  "command_operand [] = Some []"
| "command_operand (w # ws) =
     (if w = u ''--'' then Some ws
      else if w = u ''-v'' \<or> w = u ''-V'' then None
      else if w \<noteq> u ''-p'' then Some (w # ws)
      else command_operand ws)"

lemma command_operand_weight: "command_operand ws = Some vs \<Longrightarrow> weight vs \<le> weight ws \<and> length vs \<le> length ws"
  by (induction ws rule: command_operand.induct) (auto split: if_splits)

definition is_shell :: "jstr \<Rightarrow> bool" where
  "is_shell w \<longleftrightarrow> w \<in> u ` set [''bash'', ''sh'', ''dash'', ''zsh'', ''ksh'']"

definition shell_value_option :: "jstr \<Rightarrow> bool" where
  "shell_value_option w \<longleftrightarrow> w \<in> u ` set [''-O'', ''-o'', ''--rcfile'', ''--init-file'']"

definition is_c_option :: "jstr \<Rightarrow> bool" where
  "is_c_option w \<longleftrightarrow> rx_test (rx_seq [RxAt AtStart, rx_char (CHR ''-''),
     rx_many (RxClass (\<lambda>c. c \<noteq> ch (CHR ''-''))), rx_char (CHR ''c'')]) w"

end
