(* ===== verification/ShellPayloads.thy ===== *)
theory ShellPayloads
  imports ShellWords
begin

section \<open>The commands a command runs\<close>

text \<open>
  The texts a command line hands to another shell or to a database client
  (\<open>segmentConsumesShellStdin\<close> to \<open>pipedSqlPayloads\<close> in \<open>src/src/policy/command-policy.ts\<close>): through
  \<open>-c\<close>, \<open>eval\<close>, programs that run programs, pipes from \<open>echo\<close> and \<open>printf\<close>, here strings, and
  variables set to a plain word. An outer \<open>None\<close> is a throw, an inner one is \<open>undefined\<close>.
\<close>

definition shell_words :: "jstr list \<Rightarrow> (jstr \<times> jstr list) option" where
  "shell_words words = (let start = commandStart words in
     if start \<ge> length words then None
     else Some (executable_of (words ! start), drop (Suc start) words))"

lemma shell_words_weight:
  "shell_words words = Some (e, args) \<Longrightarrow> weight args < weight words \<and> length args < length words"
  by (auto simp: shell_words_def Let_def weight_drop_less split: if_splits)

definition stdin_scripts :: "jstr list" where
  "stdin_scripts = map u [''-'', ''/dev/stdin'', ''/dev/fd/0'', ''/proc/self/fd/0'']"

fun shell_reads_stdin :: "jstr list \<Rightarrow> bool" where
  "shell_reads_stdin [] = True"
| "shell_reads_stdin (arg # args) =
     (if is_c_option arg then False
      else if arg = u ''-s'' then True
      else if shell_value_option arg then shell_reads_stdin (drop 1 args)
      else if arg = u ''--'' then (case args of [] \<Rightarrow> True | script # _ \<Rightarrow> script \<in> set stdin_scripts)
      else if \<not> prefix (u ''-'') arg \<or> arg = u ''-'' then arg \<in> set stdin_scripts
      else shell_reads_stdin args)"

lemma weight_drop_args: "weight args < n \<Longrightarrow> weight (drop k args) < n"
  using weight_drop [of k args] by simp

function segmentConsumesShellStdin :: "jstr list \<Rightarrow> bool option" where
  "segmentConsumesShellStdin words = (case shell_words words of
     None \<Rightarrow> Some False
   | Some (executable, args) \<Rightarrow>
       if is_shell executable then Some (shell_reads_stdin args)
       else if executable = u ''env''
       then do {
         split \<leftarrow> envSplitWords args;
         (case split of
            Some ws \<Rightarrow> segmentConsumesShellStdin ws
          | None \<Rightarrow> segmentConsumesShellStdin (drop (env_next args env_split_options) args)) }
       else if executable = u ''command'' then segmentConsumesShellStdin (drop (optionCommand args 0 []) args)
       else if executable = u ''stdbuf''
       then segmentConsumesShellStdin (drop (optionCommand args 0 stdbuf_options) args)
       else case wrapped_at executable args of
         Some next \<Rightarrow> segmentConsumesShellStdin (drop next args)
       | None \<Rightarrow> Some False)"
  by pat_completeness auto
termination
  by (relation "measure weight") (auto simp: weight_drop_args dest!: shell_words_weight envSplit_weight)

declare segmentConsumesShellStdin.simps [simp del]

subsection \<open>What echo and printf print\<close>

fun printf_render :: "jstr \<Rightarrow> jstr list \<Rightarrow> (jstr \<times> jstr list) option" where
  "printf_render [] vs = Some ([], vs)"
| "printf_render (c # cs) vs =
     (if c = ch (CHR ''%'') \<and> cs \<noteq> [] \<and> one_of ''%sb'' (hd cs)
      then (if hd cs = ch (CHR ''%'')
            then do { (out, rest) \<leftarrow> printf_render (tl cs) vs; Some (ch (CHR ''%'') # out, rest) }
            else do {
              text \<leftarrow> (if hd cs = ch (CHR ''b'') then decodeAnsiC (or_else (first vs) []) else Some (or_else (first vs) []));
              (out, rest) \<leftarrow> printf_render (tl cs) (tl vs);
              Some (text @ out, rest) })
      else do { (out, rest) \<leftarrow> printf_render cs vs; Some (c # out, rest) })"

definition is_echo_option :: "jstr \<Rightarrow> bool" where
  "is_echo_option w \<longleftrightarrow> rx_test (rx_seq [RxAt AtStart, rx_char (CHR ''-''), rx_some (RxClass (one_of ''neE'')), RxAt AtEnd]) w"

fun echo_options :: "bool \<Rightarrow> jstr list \<Rightarrow> bool \<times> jstr list" where
  "echo_options decode [] = (decode, [])"
| "echo_options decode (w # ws) =
     (if is_echo_option w
      then echo_options (foldl (\<lambda>d c. if c = ch (CHR ''e'') then True else if c = ch (CHR ''E'') then False else d)
             decode (drop 1 w)) ws
      else (decode, w # ws))"

definition printed :: "jstr \<Rightarrow> jstr list \<Rightarrow> jstr option option" where
  "printed executable args0 =
     (let args = (if first args0 = Some (u ''--'') then drop 1 args0 else args0) in
      if executable = u ''echo''
      then (case echo_options False args of
          (True, ws) \<Rightarrow> map_option Some (decodeAnsiC (join [SPACE] ws))
        | (False, ws) \<Rightarrow> Some (Some (join [SPACE] ws)))
      else if executable \<noteq> u ''printf'' then Some None
      else case args of
        [] \<Rightarrow> Some None
      | format # values \<Rightarrow> do {
          decoded \<leftarrow> decodeAnsiC format;
          (rendered, rest) \<leftarrow> printf_render decoded values;
          Some (Some (join [NEWLINE] ([rendered] @ rest @ [join [SPACE] args]))) })"

function literalProducerPayload :: "jstr list \<Rightarrow> jstr option option" where
  "literalProducerPayload words = (case shell_words words of
     None \<Rightarrow> Some None
   | Some (executable, args) \<Rightarrow>
       if executable = u ''command''
       then (case command_operand args of None \<Rightarrow> Some None | Some ws \<Rightarrow> literalProducerPayload ws)
       else if executable = u ''builtin''
       then (if args \<noteq> [] \<and> prefix (u ''-'') (hd args) \<and> hd args \<noteq> u ''--'' then Some None
             else literalProducerPayload (if first args = Some (u ''--'') then drop 1 args else args))
       else if executable = u ''env''
       then do {
         split \<leftarrow> envSplitWords args;
         (case split of
            Some ws \<Rightarrow> literalProducerPayload ws
          | None \<Rightarrow> literalProducerPayload (drop (env_next args env_options) args)) }
       else if executable = u ''stdbuf''
       then literalProducerPayload (drop (optionCommand args 0 stdbuf_options) args)
       else case wrapped_at executable args of
         Some next \<Rightarrow> literalProducerPayload (drop next args)
       | None \<Rightarrow> printed executable args)"
  by pat_completeness auto
termination
  by (relation "measure weight")
    (auto simp: weight_drop_args dest!: shell_words_weight envSplit_weight command_operand_weight)

declare literalProducerPayload.simps [simp del]

subsection \<open>Commands run by the words of a command\<close>

fun shell_c_payload :: "jstr list \<Rightarrow> jstr list" where
  "shell_c_payload [] = []"
| "shell_c_payload (arg # args) =
     (if arg = u ''--'' \<or> \<not> prefix (u ''-'') arg then []
      else if shell_value_option arg then shell_c_payload (drop 1 args)
      else if is_c_option arg then take 1 args
      else shell_c_payload args)"

definition xargs_options :: "jstr list" where
  "xargs_options = map u [''-a'', ''--arg-file'', ''-d'', ''--delimiter'', ''-E'', ''--eof'', ''-I'', ''--replace'',
     ''-L'', ''--max-lines'', ''-n'', ''--max-args'', ''-P'', ''--max-procs'', ''-s'', ''--max-chars'']"

function segmentShellPayloads :: "jstr list \<Rightarrow> jstr list" where
  "segmentShellPayloads words = (case shell_words words of
     None \<Rightarrow> []
   | Some (executable, args) \<Rightarrow>
       if is_shell executable then shell_c_payload args
       else if executable = u ''eval'' then (if args \<noteq> [] then [join [SPACE] args] else [])
       else if executable = u ''env''
       then (case find_index is_split_string args of
           Some split \<Rightarrow> (case splitStringPayload args split of
               (None, rest) \<Rightarrow> []
             | (Some value, rest) \<Rightarrow> [join [SPACE] (value # rest)])
         | None \<Rightarrow> segmentShellPayloads (drop (env_next args env_split_options) args))
       else if executable = u ''command''
       then (case command_operand args of None \<Rightarrow> [] | Some ws \<Rightarrow> segmentShellPayloads ws)
       else if executable = u ''coproc'' then segmentShellPayloads args
       else if executable = u ''xargs'' then segmentShellPayloads (drop (optionCommand args 0 xargs_options) args)
       else case wrapped_at executable args of
         Some next \<Rightarrow> segmentShellPayloads (drop next args)
       | None \<Rightarrow> [])"
  by pat_completeness auto
termination
  by (relation "measure length") (auto dest!: shell_words_weight command_operand_weight)

declare segmentShellPayloads.simps [simp del]

subsection \<open>Variables set to a plain word\<close>

function executable_index :: "jstr list \<Rightarrow> nat \<Rightarrow> nat option" where
  "executable_index words offset =
     (let start = commandStart words in
      if start \<ge> length words then None
      else
        let executable = executable_of (words ! start);
            args = drop (Suc start) words;
            next = (if executable = u ''command'' then Some (optionCommand args 0 [])
                    else if executable = u ''env'' then Some (env_next args env_split_options)
                    else if executable = u ''stdbuf'' then Some (optionCommand args 0 stdbuf_options)
                    else wrapped_at executable args)
        in case next of
             None \<Rightarrow> Some (offset + start)
           | Some n \<Rightarrow> executable_index (drop n args) (offset + start + 1 + n))"
  by pat_completeness auto
termination by (relation "measure (\<lambda>(words, _). length words)") (auto simp: Let_def)

declare executable_index.simps [simp del]

definition rx_plain_assignment :: rx where
  "rx_plain_assignment = rx_seq [RxAt AtStart, RxGroup 1 rx_name, rx_char (CHR ''=''),
     RxGroup 2 (rx_some (RxClass (\<lambda>c. is_word c \<or> one_of ''./-'' c))), RxAt AtEnd]"

definition rx_variable :: rx where
  "rx_variable = rx_seq [RxAt AtStart, rx_char (CHR ''$''),
     RxAlt (rx_seq [rx_char (CHR ''{''), RxGroup 1 rx_name, rx_char (CHR ''}'')]) (RxGroup 2 rx_name), RxAt AtEnd]"

definition set_variable :: "(jstr, jstr) jmap \<Rightarrow> jstr \<Rightarrow> (jstr, jstr) jmap" where
  "set_variable values word = (case rx_exec rx_plain_assignment word of
     None \<Rightarrow> values | Some (_, c) \<Rightarrow> jset values (group c 1) (group c 2))"

definition variable_of :: "jstr \<Rightarrow> jstr" where
  "variable_of word = (case rx_exec rx_variable word of
     None \<Rightarrow> [] | Some (_, c) \<Rightarrow> or_else (jget c 1) (or_else (jget c 2) []))"

definition variable_step :: "(jstr, jstr) jmap \<times> jstr list \<Rightarrow> jstr list \<Rightarrow> (jstr, jstr) jmap \<times> jstr list" where
  "variable_step = (\<lambda>(values, payloads) words.
     if commandStart words \<ge> length words then (foldl set_variable values words, payloads)
     else case executable_index words 0 of
       None \<Rightarrow> (values, payloads)
     | Some index \<Rightarrow>
         (let value = or_else (jget values (variable_of (words ! index))) []
          in (values, if value = [] then payloads
               else payloads @ [join [SPACE] (take index words @ [value] @ drop (Suc index) words)])))"

definition simpleVariablePayloads :: "jstr \<Rightarrow> jstr list option" where
  "simpleVariablePayloads inp =
     do { scan \<leftarrow> scanShell inp; Some (snd (foldl variable_step ([], []) (ss_commands scan))) }"

subsection \<open>Database clients\<close>

text \<open>
  \<open>SQL_CLIENT_SPECS\<close> is an object, and the two names in lower case that every object inherits are
  found in it as well: what they give has no options, and iterating over them throws.
\<close>

record sql_spec =
  sq_options :: "jstr list option"
  sq_positionalsAfter :: "nat option"

definition SQL_CLIENT_SPECS :: "(jstr \<times> sql_spec) list" where
  "SQL_CLIENT_SPECS = map (\<lambda>(name, options, after). (u name, \<lparr>sq_options = options, sq_positionalsAfter = after\<rparr>))
     [(''psql'', Some (map u [''-c'', ''--command'']), None),
      (''pgcli'', Some (map u [''-c'', ''--command'']), None),
      (''mysql'', Some (map u [''-e'', ''--execute'']), None),
      (''mariadb'', Some (map u [''-e'', ''--execute'']), None),
      (''mycli'', Some (map u [''-e'', ''--execute'']), None),
      (''sqlite3'', Some (map u [''-cmd'']), Some 1),
      (''duckdb'', Some (map u [''-c'', ''-s'', ''--command'']), Some 1),
      (''clickhouse-client'', Some (map u [''-q'', ''--query'']), None),
      (''constructor'', None, None), (''__proto__'', None, None)]"

text \<open>\<open>toLowerCase\<close> as far as a name in ASCII can come out: the letters, and the sign for Kelvin.\<close>

definition lower_unit :: "int \<Rightarrow> int" where
  "lower_unit c = (if 65 \<le> c \<and> c \<le> 90 then c + 32 else if c = 0x212A then ch (CHR ''k'') else c)"

definition sqlClientSpec :: "jstr list \<Rightarrow> (sql_spec \<times> jstr list) option" where
  "sqlClientSpec words = (case shell_words words of
     None \<Rightarrow> None
   | Some (executable, args) \<Rightarrow>
       map_option (\<lambda>spec. (spec, args)) (map_of SQL_CLIENT_SPECS (map lower_unit executable)))"

definition sql_option :: "jstr \<Rightarrow> jstr \<Rightarrow> bool" where
  "sql_option arg opt \<longleftrightarrow> arg = opt \<or> prefix (opt @ [EQUALS]) arg \<or>
     length opt = 2 \<and> \<not> prefix (u ''--'') arg \<and> prefix opt arg \<and> length arg > 2"

fun sql_arguments :: "jstr list \<Rightarrow> jstr list \<Rightarrow> jstr list \<times> jstr list" where
  "sql_arguments opts [] = ([], [])"
| "sql_arguments opts (arg # args) = (case find (sql_option arg) opts of
     None \<Rightarrow> (case sql_arguments opts args of (payloads, positionals) \<Rightarrow>
        (payloads, if prefix (u ''-'') arg then positionals else arg # positionals))
   | Some opt \<Rightarrow>
       if arg = opt
       then (case sql_arguments opts (drop 1 args) of (payloads, positionals) \<Rightarrow> (take 1 args @ payloads, positionals))
       else (case sql_arguments opts args of (payloads, positionals) \<Rightarrow>
         (drop (if prefix (opt @ [EQUALS]) arg then length opt + 1 else 2) arg # payloads, positionals)))"

definition sqlClientPayloads :: "jstr list \<Rightarrow> jstr list option" where
  "sqlClientPayloads words = (case sqlClientSpec words of
     None \<Rightarrow> Some []
   | Some (spec, args) \<Rightarrow>
       if args \<noteq> [] \<and> sq_options spec = None then None
       else case sql_arguments (or_else (sq_options spec) []) args of (payloads, positionals) \<Rightarrow>
         Some (payloads @ (case sq_positionalsAfter spec of None \<Rightarrow> [] | Some n \<Rightarrow> drop n positionals)))"

subsection \<open>Pipes and here strings\<close>

definition payload_list :: "jstr option \<Rightarrow> jstr list" where
  "payload_list p = (case p of None \<Rightarrow> [] | Some t \<Rightarrow> if t = [] then [] else [t])"

definition concat_all :: "'a list option list \<Rightarrow> 'a list option" where
  "concat_all xs = map_option concat (those xs)"

definition piped_payload :: "(jstr list \<Rightarrow> bool option) \<Rightarrow> jstr \<times> jstr \<Rightarrow> jstr list option" where
  "piped_payload consumes = (\<lambda>(producer, consumer). do {
     c \<leftarrow> scanShell consumer;
     takes \<leftarrow> (case first (ss_commands c) of None \<Rightarrow> Some False | Some words \<Rightarrow> consumes words);
     if \<not> takes then Some []
     else do {
       p \<leftarrow> scanShell producer;
       payload \<leftarrow> (if ss_commands p = [] then Some None else literalProducerPayload (last (ss_commands p)));
       Some (payload_list payload) } })"

definition piped_payloads :: "(jstr list \<Rightarrow> bool option) \<Rightarrow> jstr \<Rightarrow> jstr list option" where
  "piped_payloads consumes inp =
     concat_all (map (piped_payload consumes) (concat (map (\<lambda>pl. zip pl (tl pl)) (shellPipelines inp))))"

definition pipedShellPayloads :: "jstr \<Rightarrow> jstr list option" where
  "pipedShellPayloads = piped_payloads segmentConsumesShellStdin"

definition pipedSqlPayloads :: "jstr \<Rightarrow> jstr list option" where
  "pipedSqlPayloads = piped_payloads (\<lambda>words. Some (sqlClientSpec words \<noteq> None))"

fun space_here_strings :: "jstr \<Rightarrow> int option \<Rightarrow> jstr" where
  "space_here_strings [] quote = []"
| "space_here_strings (c # xs) quote =
     (if c = BACKSLASH then c # take 1 xs @ space_here_strings (drop 1 xs) quote
      else if quote \<noteq> None then c # space_here_strings xs (if quote = Some c then None else quote)
      else if is_quote c then c # space_here_strings xs (Some c)
      else if prefix (u ''<<<'') (c # xs) then u '' <<< '' @ space_here_strings (drop 2 xs) quote
      else c # space_here_strings xs quote)"

definition here_string_payload :: "jstr list \<Rightarrow> jstr list option" where
  "here_string_payload words = (case find_index (\<lambda>w. w = u ''<<<'') words of
     None \<Rightarrow> Some []
   | Some redirect \<Rightarrow>
       if redirect = 0 then Some []
       else do {
         takes \<leftarrow> segmentConsumesShellStdin (take redirect words);
         Some (if takes then payload_list (nth_opt words (Suc redirect)) else []) })"

definition hereStringShellPayloads :: "jstr \<Rightarrow> jstr list option" where
  "hereStringShellPayloads inp = do {
     scan \<leftarrow> scanShell (space_here_strings inp None);
     concat_all (map here_string_payload (ss_commands scan)) }"

subsection \<open>Everything a command line runs\<close>

definition executedShellPayloads :: "jstr \<Rightarrow> jstr list option" where
  "executedShellPayloads inp = do {
     scan \<leftarrow> scanShell inp;
     sql \<leftarrow> concat_all (map sqlClientPayloads (ss_commands scan));
     pipedShell \<leftarrow> pipedShellPayloads inp;
     pipedSql \<leftarrow> pipedSqlPayloads inp;
     hereStrings \<leftarrow> hereStringShellPayloads inp;
     variables \<leftarrow> simpleVariablePayloads inp;
     Some (ss_nested scan @ concat (map segmentShellPayloads (ss_commands scan)) @ sql @ pipedShell @ pipedSql @
       hereStrings @ variables) }"

end
