(* ===== verification/CommandPolicy.thy ===== *)
theory CommandPolicy
  imports ShellPayloads DurableMap
begin

section \<open>The policy for commands\<close>

text \<open>
  The decision about a shell command (\<open>src/src/policy/command-policy.ts\<close>,
  \<open>src/src/util/safe-regex.ts\<close>). The patterns of a rule are regular expressions of the language
  that people write; compiling one is a parameter, \<open>None\<close> when it does not compile and else the text
  of the first match. The regular expressions of the code itself are those of \<open>Regex\<close>. Evaluation
  is \<open>None\<close> where the scanner throws.
\<close>

subsection \<open>Text that is scanned\<close>

definition unquoteBareWord :: "jstr \<Rightarrow> jstr option" where
  "unquoteBareWord inner = (if list_all (\<lambda>c. is_word c \<or> one_of ''@%+=:,./-'' c) inner then Some inner else None)"

definition rx_substitution :: rx where
  "rx_substitution = RxAlt
     (rx_seq [rx_text ''$('', rx_many (RxClass (\<lambda>c. c \<noteq> RPAREN)), RxClass (\<lambda>c. c = RPAREN)])
     (rx_seq [RxClass (\<lambda>c. c = BACKTICK), rx_many (RxClass (\<lambda>c. c \<noteq> BACKTICK)), RxClass (\<lambda>c. c = BACKTICK)])"

definition substitutions :: "jstr \<Rightarrow> jstr option" where
  "substitutions s = (case map fst (rx_all rx_substitution s) of
     [] \<Rightarrow> None | subs \<Rightarrow> Some (join [SPACE] subs))"

definition rx_line_begin :: rx where
  "rx_line_begin = RxAlt (RxAt AtStart) (RxSeq (RxClass (one_of ''|;&'')) (rx_many (RxClass is_space)))"

definition rx_directory :: rx where
  "rx_directory = rx_opt (RxSeq (rx_many (RxClass (\<lambda>c. \<not> is_space c))) (rx_char (CHR ''/'')))"

definition rx_shell_call :: rx where
  "rx_shell_call = rx_seq [rx_line_begin, rx_directory,
     rx_opt (rx_alts [rx_text ''ba'', rx_text ''da'', rx_text ''k'', rx_text ''z'']), rx_text ''sh'',
     RxGroup 1 (rx_opt (RxSeq (rx_some (RxClass is_space)) (rx_many (RxClass (\<lambda>c. \<not> one_of ''|;&'' c)))))]"

definition rx_c_flag :: rx where
  "rx_c_flag = rx_seq [RxAlt (RxAt AtStart) (RxClass is_space), rx_char (CHR ''-''),
     rx_many (RxClass (\<lambda>c. c \<noteq> ch (CHR ''-'') \<and> \<not> is_space c)), rx_char (CHR ''c''),
     RxAlt (RxClass is_space) (RxAt AtEnd)]"

definition heredocRunsShell :: "jstr \<Rightarrow> bool" where
  "heredocRunsShell line \<longleftrightarrow> list_ex (\<lambda>(m, c). \<not> rx_test rx_c_flag (group c 1)) (rx_all rx_shell_call line)"

definition rx_interpreter :: rx where
  "rx_interpreter = rx_seq [rx_line_begin, rx_directory,
     rx_alts [rx_text ''psql'', rx_text ''mysql'', rx_text ''mariadb'',
       RxSeq (rx_text ''sqlite'') (rx_opt (rx_char (CHR ''3''))), rx_text ''sqlcmd'',
       rx_seq [rx_text ''python'', rx_opt (RxClass is_digit),
         rx_opt (RxSeq (rx_char (CHR ''.'')) (rx_some (RxClass is_digit)))],
       rx_text ''node'', rx_text ''perl'', rx_text ''ruby''],
     RxAt AtWordEdge]"

definition heredocRunsInterpreter :: "jstr \<Rightarrow> bool" where
  "heredocRunsInterpreter line \<longleftrightarrow> heredocRunsShell line \<or> rx_test rx_interpreter line"

definition rx_heredoc :: rx where
  "rx_heredoc =
     (let inline = rx_many (RxClass (\<lambda>c. c \<noteq> NEWLINE)); spaces = rx_many (RxClass is_space) in
      rx_seq [RxAt AtLineStart, RxGroup 1 inline, rx_text ''<<'', rx_opt (rx_char (CHR ''-'')), spaces,
        RxGroup 2 (rx_opt (RxClass (\<lambda>c. c = DQUOTE \<or> c = SQUOTE))), RxGroup 3 rx_name, RxBack 2,
        RxGroup 4 inline, RxClass (\<lambda>c. c = NEWLINE), RxGroup 5 (RxMany False (RxClass (\<lambda>_. True))),
        RxAt AtLineStart, spaces, RxBack 3, spaces, RxAt AtLineEnd])"

definition heredoc_text :: "jstr \<Rightarrow> captures \<Rightarrow> jstr option" where
  "heredoc_text full c =
     (if heredocRunsInterpreter (group c 1 @ group c 4) then Some full
      else if group c 2 \<noteq> [] then Some []
      else Some (or_else (substitutions (group c 5)) []))"

definition stripWrittenHeredocs :: "jstr \<Rightarrow> jstr option" where
  "stripWrittenHeredocs command = rx_replace rx_heredoc heredoc_text command"

definition inner_text :: "jstr \<Rightarrow> jstr" where
  "inner_text m = butlast (tl m)"

definition rx_double_quoted :: rx where
  "rx_double_quoted = rx_seq [RxClass (\<lambda>c. c = DQUOTE),
     rx_many (RxAlt (RxClass (\<lambda>c. c \<noteq> DQUOTE \<and> c \<noteq> BACKSLASH))
       (RxSeq (RxClass (\<lambda>c. c = BACKSLASH)) (RxClass (\<lambda>c. \<not> is_newline c)))), RxClass (\<lambda>c. c = DQUOTE)]"

definition rx_ansi_quoted :: rx where
  "rx_ansi_quoted = rx_seq [rx_char (CHR ''$''), RxClass (\<lambda>c. c = SQUOTE),
     RxGroup 1 (rx_many (RxAlt (RxClass (\<lambda>c. c \<noteq> SQUOTE \<and> c \<noteq> BACKSLASH))
       (RxSeq (RxClass (\<lambda>c. c = BACKSLASH)) (RxClass (\<lambda>c. \<not> is_newline c))))), RxClass (\<lambda>c. c = SQUOTE)]"

definition rx_single_quoted :: rx where
  "rx_single_quoted = rx_seq [RxClass (\<lambda>c. c = SQUOTE), rx_many (RxClass (\<lambda>c. c \<noteq> SQUOTE)), RxClass (\<lambda>c. c = SQUOTE)]"

definition rx_escaped_bare :: rx where
  "rx_escaped_bare = RxSeq (RxClass (\<lambda>c. c = BACKSLASH))
     (RxGroup 1 (RxClass (\<lambda>c. is_word c \<or> one_of ''@%+=:,./-'' c)))"

definition plain_text :: "jstr \<Rightarrow> jstr option" where
  "plain_text stripped = do {
     s1 \<leftarrow> rx_replace rx_double_quoted (\<lambda>m _. Some (case substitutions m of
        Some subs \<Rightarrow> subs | None \<Rightarrow> or_else (unquoteBareWord (inner_text m)) [DQUOTE, DQUOTE])) stripped;
     s2 \<leftarrow> rx_replace rx_ansi_quoted (\<lambda>_ c. do {
        decoded \<leftarrow> decodeAnsiC (group c 1);
        Some (or_else (unquoteBareWord decoded) [SQUOTE, SQUOTE]) }) s1;
     s3 \<leftarrow> rx_replace rx_single_quoted
        (\<lambda>m _. Some (or_else (unquoteBareWord (inner_text m)) [SQUOTE, SQUOTE])) s2;
     rx_replace rx_escaped_bare (\<lambda>_ c. Some (group c 1)) s3 }"

function scannableCommandAtDepth :: "jstr \<Rightarrow> nat \<Rightarrow> jstr option" where
  "scannableCommandAtDepth command depth = do {
     stripped \<leftarrow> stripWrittenHeredocs command;
     base \<leftarrow> plain_text stripped;
     if depth \<ge> 8 then Some base
     else do {
       executed \<leftarrow> executedShellPayloads stripped;
       texts \<leftarrow> those (map (\<lambda>p. scannableCommandAtDepth p (depth + 1)) executed);
       Some (join [NEWLINE] (base # texts)) } }"
  by pat_completeness auto
termination by (relation "measure (\<lambda>(_, depth). 8 - depth)") auto

declare scannableCommandAtDepth.simps [simp del]

definition scannableCommand :: "jstr \<Rightarrow> jstr option" where
  "scannableCommand command = scannableCommandAtDepth command 0"

subsection \<open>Regular expressions people may write\<close>

definition MAX_PATTERN_CHARS :: nat where "MAX_PATTERN_CHARS = 256"

definition rx_unsupported :: rx where
  "rx_unsupported = rx_alts
     [RxSeq (RxClass (\<lambda>c. c = BACKSLASH)) (RxClass (\<lambda>c. 49 \<le> c \<and> c \<le> 57)),
      RxSeq (RxClass (\<lambda>c. c = BACKSLASH)) (rx_text ''k<''),
      RxSeq (rx_text ''(?'') (RxClass (one_of ''=!<''))]"

record rx_group =
  rg_quantified :: bool
  rg_alternation :: bool

record rx_scan =
  rs_groups :: "rx_group list"
  rs_escaped :: bool
  rs_inClass :: bool
  rs_previousQuantifier :: bool
  rs_closed :: "rx_group option"

text \<open>One character, the one before it given; the innermost group is the head of the list.\<close>

definition on_group :: "(rx_group \<Rightarrow> rx_group) \<Rightarrow> rx_group list \<Rightarrow> rx_group list" where
  "on_group f gs = (case gs of [] \<Rightarrow> [] | g # rest \<Rightarrow> f g # rest)"

definition is_quantifier :: "int option \<Rightarrow> int \<Rightarrow> bool" where
  "is_quantifier before c \<longleftrightarrow> one_of ''*+{'' c \<or> c = ch (CHR ''?'') \<and> before \<noteq> Some LPAREN"

definition safe_step :: "rx_scan \<Rightarrow> int option \<Rightarrow> int \<Rightarrow> rx_scan option" where
  "safe_step s before c =
     (let plain = s\<lparr>rs_previousQuantifier := False, rs_closed := None\<rparr>;
          no_group = \<lparr>rg_quantified = False, rg_alternation = False\<rparr> in
      if rs_escaped s then Some (plain\<lparr>rs_escaped := False\<rparr>)
      else if c = BACKSLASH then Some (s\<lparr>rs_escaped := True\<rparr>)
      else if c = ch (CHR ''['') then Some (plain\<lparr>rs_inClass := True\<rparr>)
      else if c = ch (CHR '']'') \<and> rs_inClass s then Some (s\<lparr>rs_inClass := False\<rparr>)
      else if rs_inClass s then Some s
      else if c = LPAREN then Some (plain\<lparr>rs_groups := no_group # rs_groups s\<rparr>)
      else if c = BAR then Some (plain\<lparr>rs_groups := on_group (\<lambda>g. g\<lparr>rg_alternation := True\<rparr>) (rs_groups s)\<rparr>)
      else if c = RPAREN
      then Some (s\<lparr>rs_closed := Some (or_else (first (rs_groups s)) no_group), rs_groups := tl (rs_groups s),
          rs_previousQuantifier := False\<rparr>)
      else if is_quantifier before c
      then (if rs_previousQuantifier s \<or>
              (case rs_closed s of None \<Rightarrow> False | Some g \<Rightarrow> rg_quantified g \<or> rg_alternation g)
            then None
            else Some (s\<lparr>rs_groups := on_group (\<lambda>g. g\<lparr>rg_quantified := True\<rparr>) (rs_groups s),
                rs_previousQuantifier := True, rs_closed := None\<rparr>))
      else Some plain)"

fun safe_scan :: "rx_scan \<Rightarrow> int option \<Rightarrow> jstr \<Rightarrow> bool" where
  "safe_scan s before [] = True"
| "safe_scan s before (c # cs) = (case safe_step s before c of None \<Rightarrow> False | Some s' \<Rightarrow> safe_scan s' (Some c) cs)"

type_synonym regexp_engine = "jstr \<Rightarrow> (jstr \<Rightarrow> jstr option) option"

definition compileSafeRegex :: "regexp_engine \<Rightarrow> jstr \<Rightarrow> (jstr \<Rightarrow> jstr option) option" where
  "compileSafeRegex regexp pattern =
     (if pattern = [] \<or> length pattern > MAX_PATTERN_CHARS then None
      else if rx_test rx_unsupported pattern then None
      else if \<not> safe_scan \<lparr>rs_groups = [], rs_escaped = False, rs_inClass = False,
                rs_previousQuantifier = False, rs_closed = None\<rparr> None pattern then None
      else regexp pattern)"

subsection \<open>Rules and policies\<close>

datatype command_decision = Allow | Deny | RequireApproval

record command_rule =
  cr_pattern :: jstr
  cr_decision :: command_decision
  cr_reason :: "jstr option"

datatype policy_mode = Denylist | Allowlist

datatype command_policy =
  CommandPolicy (cp_mode: policy_mode) (cp_rules: "command_rule list") (cp_constraints: "(string \<times> command_policy) list")

definition rule :: "jstr \<Rightarrow> command_decision \<Rightarrow> string \<Rightarrow> command_rule" where
  "rule pattern decision reason = \<lparr>cr_pattern = pattern, cr_decision = decision, cr_reason = Some (u reason)\<rparr>"

text \<open>A backslash of a pattern is written \<open>~\<close> here, which no pattern of the floor contains.\<close>

definition pattern_text :: "string \<Rightarrow> jstr" where
  "pattern_text s = map (\<lambda>c. if c = ch (CHR ''~'') then BACKSLASH else c) (u s)"

definition ORG_FLOOR_RULES :: "command_rule list" where
  "ORG_FLOOR_RULES =
     [rule (pattern_text ''~brm~b[^~n]*(?:-[a-zA-Z]*r|--recursive)'') RequireApproval ''recursive delete'',
      rule (pattern_text ''~bgit~s+push~b.*(?:--force~b|(?:^|~s)-[a-zA-Z]*f~b)'') RequireApproval ''force push'',
      rule (pattern_text ''~b(drop|truncate)~s+table~b'') RequireApproval ''destructive SQL'',
      rule (pattern_text ''~bmkfs~b|:~(~)~s*~{'') Deny ''destructive / fork bomb'',
      rule (pattern_text ''~bcurl~b.*~|~s*(sh|bash)~b'') RequireApproval ''pipe-to-shell'']"

definition defaultOrgPolicy :: command_policy where
  "defaultOrgPolicy = CommandPolicy Denylist ORG_FLOOR_RULES []"

text \<open>The composition is a new object: the constraints of neither policy are in it.\<close>

definition composePolicy :: "command_policy \<Rightarrow> command_policy option \<Rightarrow> command_policy" where
  "composePolicy orgFloor scope = (case scope of
     None \<Rightarrow> orgFloor
   | Some s \<Rightarrow> CommandPolicy (if cp_mode orgFloor = Allowlist then Allowlist else cp_mode s)
       (cp_rules orgFloor @ cp_rules s) [])"

datatype policy_error =
  NotAnObject | BadMode | RulesNotAnArray | RuleNotAnObject nat | BadPattern nat | UnsafePattern nat
  | BadDecision nat | BadReason nat

definition decision_of_name :: "string \<Rightarrow> command_decision option" where
  "decision_of_name s = (if s = ''allow'' then Some Allow else if s = ''deny'' then Some Deny
     else if s = ''require_approval'' then Some RequireApproval else None)"

definition json_fields :: "json \<Rightarrow> (string \<times> json) list option" where
  "json_fields v = (case v of JObj fs \<Rightarrow> Some fs | JArr _ \<Rightarrow> Some [] | _ \<Rightarrow> None)"

definition parse_rule :: "regexp_engine \<Rightarrow> nat \<Rightarrow> json \<Rightarrow> policy_error + command_rule" where
  "parse_rule regexp i raw = (case json_fields raw of
     None \<Rightarrow> Inl (RuleNotAnObject i)
   | Some r \<Rightarrow> (case jget r ''pattern'' of
         Some (JStr p) \<Rightarrow>
           if p = [] then Inl (BadPattern i)
           else if compileSafeRegex regexp (u p) = None then Inl (UnsafePattern i)
           else (case jget r ''decision'' of
               Some (JStr d) \<Rightarrow> (case decision_of_name d of
                   None \<Rightarrow> Inl (BadDecision i)
                 | Some decision \<Rightarrow> (case jget r ''reason'' of
                       None \<Rightarrow> Inr \<lparr>cr_pattern = u p, cr_decision = decision, cr_reason = None\<rparr>
                     | Some (JStr t) \<Rightarrow> Inr \<lparr>cr_pattern = u p, cr_decision = decision, cr_reason = Some (u t)\<rparr>
                     | Some _ \<Rightarrow> Inl (BadReason i)))
             | _ \<Rightarrow> Inl (BadDecision i))
       | _ \<Rightarrow> Inl (BadPattern i)))"

fun parse_rules :: "regexp_engine \<Rightarrow> nat \<Rightarrow> json list \<Rightarrow> policy_error + command_rule list" where
  "parse_rules regexp i [] = Inr []"
| "parse_rules regexp i (raw # raws) = (case parse_rule regexp i raw of
     Inl e \<Rightarrow> Inl e
   | Inr r \<Rightarrow> (case parse_rules regexp (Suc i) raws of Inl e \<Rightarrow> Inl e | Inr rs \<Rightarrow> Inr (r # rs)))"

definition parseCommandPolicy :: "regexp_engine \<Rightarrow> json \<Rightarrow> policy_error + command_policy" where
  "parseCommandPolicy regexp inp = (case inp of
     JObj b \<Rightarrow>
       (case (if jget b ''mode'' = Some (JStr ''denylist'') then Some Denylist
              else if jget b ''mode'' = Some (JStr ''allowlist'') then Some Allowlist else None) of
          None \<Rightarrow> Inl BadMode
        | Some mode \<Rightarrow> (case jget b ''rules'' of
              Some (JArr raws) \<Rightarrow> (case parse_rules regexp 0 raws of
                  Inl e \<Rightarrow> Inl e | Inr rules \<Rightarrow> Inr (CommandPolicy mode rules []))
            | _ \<Rightarrow> Inl RulesNotAnArray))
   | _ \<Rightarrow> Inl NotAnObject)"

subsection \<open>Evaluation\<close>

record command_evaluation =
  ev_decision :: command_decision
  ev_reason :: "jstr option"
  ev_matched :: "jstr option"
  ev_approvalKey :: "jstr option"
  ev_scopeId :: "string option"

definition plain_evaluation :: "command_decision \<Rightarrow> jstr option \<Rightarrow> command_evaluation" where
  "plain_evaluation d reason = \<lparr>ev_decision = d, ev_reason = reason, ev_matched = None, ev_approvalKey = None, ev_scopeId = None\<rparr>"

fun firstMatch :: "regexp_engine \<Rightarrow> jstr \<Rightarrow> command_rule list \<Rightarrow> command_evaluation option" where
  "firstMatch regexp scannable [] = None"
| "firstMatch regexp scannable (r # rules) = (case compileSafeRegex regexp (cr_pattern r) of
     None \<Rightarrow> firstMatch regexp scannable rules
   | Some exec \<Rightarrow> (case exec scannable of
         None \<Rightarrow> firstMatch regexp scannable rules
       | Some hit \<Rightarrow> Some \<lparr>ev_decision = cr_decision r,
           ev_reason = (if cr_reason r = Some [] then None else cr_reason r),
           ev_matched = Some hit, ev_approvalKey = Some (cr_pattern r), ev_scopeId = None\<rparr>))"

definition rank :: "command_decision \<Rightarrow> nat" where
  "rank d = (case d of Allow \<Rightarrow> 0 | RequireApproval \<Rightarrow> 1 | Deny \<Rightarrow> 2)"

definition stricter :: "command_evaluation \<Rightarrow> string \<times> command_evaluation \<Rightarrow> command_evaluation" where
  "stricter result = (\<lambda>(scopeId, candidate).
     if rank (ev_decision candidate) > rank (ev_decision result)
     then candidate\<lparr>ev_scopeId := Some scopeId\<rparr> else result)"

text \<open>
  The decision by the rules alone; with the rules of the layer when they are given. Without a layer
  \<open>evaluateCommand\<close> has none of its own, which the empty list of rules says.
\<close>

definition by_rules :: "regexp_engine \<Rightarrow> jstr \<Rightarrow> policy_mode \<Rightarrow> command_rule list \<Rightarrow> command_rule list
     \<Rightarrow> command_evaluation option" where
  "by_rules regexp command mode rules layerRules = do {
     scannable \<leftarrow> scannableCommand command;
     Some (case firstMatch regexp scannable rules of
         Some matched \<Rightarrow> matched
       | None \<Rightarrow>
           if mode = Allowlist then plain_evaluation Deny (Some (u ''not in allowlist''))
           else (case firstMatch regexp scannable layerRules of
               Some matched \<Rightarrow> matched | None \<Rightarrow> plain_evaluation Allow None)) }"

primrec evaluateCommand :: "regexp_engine \<Rightarrow> jstr \<Rightarrow> command_policy \<Rightarrow> command_evaluation option" where
  "evaluateCommand regexp command (CommandPolicy mode rules constraints) = do {
     base \<leftarrow> by_rules regexp command mode rules [];
     candidates \<leftarrow> those (map (\<lambda>(scopeId, r). map_option (\<lambda>e. (scopeId, e)) r)
       (map (map_prod id (evaluateCommand regexp command)) constraints));
     Some (foldl stricter base candidates) }"

definition evaluateCommandWithLayer ::
  "regexp_engine \<Rightarrow> jstr \<Rightarrow> command_policy \<Rightarrow> command_rule list \<Rightarrow> command_evaluation option" where
  "evaluateCommandWithLayer regexp command policy layerRules = do {
     base \<leftarrow> by_rules regexp command (cp_mode policy) (cp_rules policy) layerRules;
     candidates \<leftarrow> those (map (\<lambda>(scopeId, p). map_option (\<lambda>e. (scopeId, e)) (evaluateCommand regexp command p))
       (cp_constraints policy));
     Some (foldl stricter base candidates) }"

subsection \<open>The policy of a scope\<close>

text \<open>
  \<open>governanceCommandPolicy\<close> (\<open>src/src/resolution/governance-policy.ts\<close>): the policies stored for a
  scope are a map; the policies of the other scopes in force come on top as constraints.
\<close>

definition governance_constraints ::
  "(string \<Rightarrow> command_policy option) \<Rightarrow> string \<Rightarrow> string \<Rightarrow> string list \<Rightarrow> bool \<Rightarrow> command_policy option
     \<Rightarrow> (string \<times> command_policy) list" where
  "governance_constraints config org scope scopes groupTarget own =
     concat (map (\<lambda>i.
         if i = org \<or> i = scope \<and> \<not> groupTarget then []
         else case (if i = scope then own else config i) of None \<Rightarrow> [] | Some policy \<Rightarrow> [(i, policy)])
       (uniq (scopes @ (if groupTarget then [scope] else []))))"

definition governanceCommandPolicy ::
  "(string \<Rightarrow> command_policy option) \<Rightarrow> string \<Rightarrow> string \<Rightarrow> string list \<Rightarrow> command_policy option \<Rightarrow> command_policy" where
  "governanceCommandPolicy config org scope scopes override =
     (let orgPolicy = or_else (config org) defaultOrgPolicy;
          own = (if override \<noteq> None then override else config scope);
          groupTarget = prefix ''org-unit:'' scope \<or> prefix ''access-group:'' scope;
          base = (if groupTarget then orgPolicy
                  else if scope = org then or_else own orgPolicy else composePolicy orgPolicy own);
          constraints = governance_constraints config org scope scopes groupTarget own
      in if constraints \<noteq> [] then CommandPolicy (cp_mode base) (cp_rules base) constraints else base)"

end
