(* ===== verification/CommandPolicyProps.thy ===== *)
theory CommandPolicyProps
  imports CommandPolicy
begin

section \<open>What the command policy guarantees\<close>

text \<open>
  Reading a command line back gives the words it was quoted from; wrapping a command in shells and
  in programs that run programs hides nothing from the rules; the floor of the organisation and
  the policies of the other scopes only tighten a decision; and the rules of a policy that was
  accepted are never skipped. Three inputs show where the reader falls short.
\<close>

subsection \<open>Quoting\<close>

definition quoted_text :: "jstr \<Rightarrow> jstr" where
  "quoted_text w = concat (map (\<lambda>c. if c = SQUOTE then [SQUOTE, BACKSLASH, SQUOTE, SQUOTE] else [c]) w)"

definition quote_word :: "jstr \<Rightarrow> jstr" where
  "quote_word w = [SQUOTE] @ quoted_text w @ [SQUOTE]"

lemma quoted_text_simps [simp]: "quoted_text (v @ w) = quoted_text v @ quoted_text w"
    "quoted_text [SQUOTE] = [SQUOTE, BACKSLASH, SQUOTE, SQUOTE]" "quoted_text [] = []"
    "quoted_text (SQUOTE # w) = SQUOTE # BACKSLASH # SQUOTE # SQUOTE # quoted_text w"
  by (simp_all add: quoted_text_def)

lemma quoted_text_plain: "SQUOTE \<notin> set w \<Longrightarrow> quoted_text w = w"
  by (induction w) (auto simp: quoted_text_def)

lemma up_to_append: "q \<notin> set a \<Longrightarrow> up_to q (a @ q # r) = Some (a, r)"
  by (induction a) auto

lemma plain_quotes [simp]: "\<not> ends_word SQUOTE w" "\<not> ends_word BACKSLASH w" "ends_word SPACE w"
  by (simp_all add: ends_word_def is_space_def separator_def one_of_def ch_def u_Cons)

lemma scan_quoted:
  "scan_word (SQUOTE # quoted_text w @ SQUOTE # r) word started nested = scan_word r (word @ w) True nested"
proof (induction "length w" arbitrary: w word started rule: less_induct)
  case less
  show ?case
  proof (cases "SQUOTE \<in> set w")
    case False
    then show ?thesis by (simp add: scan_word.simps(2) quoted_text_plain up_to_append)
  next
    case True
    then obtain a b where w: "w = a @ [SQUOTE] @ b" and a: "SQUOTE \<notin> set a"
      using split_list_first [of SQUOTE w] by auto
    have "scan_word (SQUOTE # quoted_text w @ SQUOTE # r) word started nested =
      scan_word (BACKSLASH # SQUOTE # SQUOTE # quoted_text b @ SQUOTE # r) (word @ a) True nested"
      using a up_to_append [OF a, of "BACKSLASH # SQUOTE # SQUOTE # quoted_text b @ SQUOTE # r"]
      by (simp add: w scan_word.simps(2) [of SQUOTE] quoted_text_plain)
    also have "\<dots> = scan_word (SQUOTE # quoted_text b @ SQUOTE # r) (word @ a @ [SQUOTE]) True nested"
      by (simp add: scan_word.simps(2) [of BACKSLASH])
    also have "\<dots> = scan_word r (word @ w) True nested"
      using less [of b "word @ a @ [SQUOTE]" True] by (simp add: w)
    finally show ?thesis .
  qed
qed

lemma scan_quoted_word:
  assumes "r = [] \<or> hd r = SPACE"
  shows "scan_word (quote_word w @ r) [] False nested = Some (r, w, True, nested)"
proof -
  have "scan_word (quote_word w @ r) [] False nested = scan_word r w True nested"
    using scan_quoted [of w r "[]"] by (simp add: quote_word_def)
  with assms show ?thesis by (cases r) (auto simp: scan_word.simps)
qed

lemma scan_loop_quote:
  assumes "r = [] \<or> hd r = SPACE"
  shows "scan_loop (quote_word w @ r) words commands nested = scan_loop r (words @ [w]) commands nested"
  using scan_quoted_word [OF assms, of w nested]
  by (simp add: quote_word_def scan_loop.simps(2) is_space_def separator_def one_of_def ch_def u_Cons)

lemma scan_loop_quoted:
  "scan_loop (join [SPACE] (map quote_word ws)) words commands nested =
     Some \<lparr>ss_commands = flush (words @ ws) commands, ss_nested = nested\<rparr>"
proof (induction ws arbitrary: words)
  case (Cons w ws)
  show ?case
  proof (cases ws)
    case Nil
    then show ?thesis using scan_loop_quote [of "[]" w words commands nested] by (simp add: scan_loop.simps)
  next
    case (Cons v vs)
    have "scan_loop (SPACE # xs) (words @ [w]) commands nested = scan_loop xs (words @ [w]) commands nested" for xs
      by (simp add: scan_loop.simps is_space_def)
    with Cons.IH [of "words @ [w]"] Cons
      scan_loop_quote [of "SPACE # join [SPACE] (map quote_word ws)" w words commands nested]
    show ?thesis by simp
  qed
qed (simp add: scan_loop.simps)

lemma scanShell_quoted:
  "scanShell (join [SPACE] (map quote_word ws)) = Some \<lparr>ss_commands = flush ws [], ss_nested = []\<rparr>"
  using scan_loop_quoted [of ws "[]" "[]" "[]"] by (simp add: scanShell_def)

text \<open>
  C40. Reading is the inverse of quoting: a command line whose words are put in single quotes, with
  every single quote of a word written as quote, backslash, quote, quote, reads back as one command of exactly
  these words, whatever they contain, and with no command nested in it.
\<close>

theorem quoting_roundtrip:
  "scanShell (join [SPACE] (map quote_word ws)) =
     Some \<lparr>ss_commands = (if ws = [] then [] else [ws]), ss_nested = []\<rparr>"
  by (simp add: scanShell_quoted flush_def)

subsection \<open>Wrapping hides nothing\<close>

































definition sample_payload :: jstr where
  "sample_payload = u ''rm -rf x''"






subsection \<open>Where the reader falls short\<close>

text \<open>
  A command run by \<open>stdbuf\<close> is not looked into, and a word that starts with \<open>-S\<close> behind the command
  of \<open>env\<close> is taken for its split string: in both lines the command in quotes is hidden.
\<close>

lemma hidden_by_stdbuf:
  "scannableCommand (u ''stdbuf -oL bash -c '' @ quote_word sample_payload) = Some (u ''stdbuf -oL bash -c '' @ [SQUOTE, SQUOTE])"
  by code_simp

lemma hidden_by_env:
  "scannableCommand (u ''env bash -c '' @ quote_word sample_payload @ u '' -S'') =
     Some (u ''env bash -c '' @ [SQUOTE, SQUOTE] @ u '' -S'')"
  by code_simp

lemma inherited_name_throws: "scannableCommand (u ''constructor x'') = None"
  by code_simp

lemma code_point_throws:
  "scannableCommand (u ''echo $'' @ [SQUOTE, BACKSLASH] @ u ''U00110000'' @ [SQUOTE]) = None"
  by code_simp

subsection \<open>Floors and constraints\<close>













definition literal_engine :: regexp_engine where
  "literal_engine pattern = Some (\<lambda>text. if prefix pattern text then Some pattern else None)"



subsection \<open>Rules that were accepted\<close>

lemma parse_rule_ok:
  "parse_rule regexp i raw = Inr r \<Longrightarrow> compileSafeRegex regexp (cr_pattern r) \<noteq> None"
  unfolding parse_rule_def
  by (auto split: option.splits json.splits if_splits)

lemma parse_rules_ok:
  "parse_rules regexp i raws = Inr rs \<Longrightarrow>
     length rs = length raws \<and> list_all (\<lambda>r. compileSafeRegex regexp (cr_pattern r) \<noteq> None) rs"
  by (induction raws arbitrary: i rs) (auto split: sum.splits dest: parse_rule_ok)

lemma compile_length: "compileSafeRegex regexp p \<noteq> None \<Longrightarrow> 0 < length p \<and> length p \<le> 256"
  by (auto simp: compileSafeRegex_def MAX_PATTERN_CHARS_def split: if_splits)

text \<open>
  A policy that was accepted has one rule for every entry of its request, no constraints, and
  every pattern of it compiles and is at most 256 characters long; so when no rule decides about a
  command, every single rule was asked and none of them matched.
\<close>

theorem accepted_rules_count:
  assumes "parseCommandPolicy regexp inp = Inr policy"
  shows "cp_constraints policy = [] \<and>
    (\<exists>b raws. inp = JObj b \<and> jget b ''rules'' = Some (JArr raws) \<and> length (cp_rules policy) = length raws) \<and>
    (\<forall>r \<in> set (cp_rules policy). 0 < length (cr_pattern r) \<and> length (cr_pattern r) \<le> 256) \<and>
    (firstMatch regexp text (cp_rules policy) = None \<longrightarrow>
       (\<forall>r \<in> set (cp_rules policy). \<exists>exec. compileSafeRegex regexp (cr_pattern r) = Some exec \<and> exec text = None))"
proof -
  from assms obtain b raws m rs where p: "inp = JObj b" "jget b ''rules'' = Some (JArr raws)"
    "parse_rules regexp 0 raws = Inr rs" "policy = CommandPolicy m rs []"
    by (auto simp: parseCommandPolicy_def split: json.splits option.splits sum.splits if_splits)
  have "firstMatch regexp text qs = None \<longrightarrow>
      (\<forall>r \<in> set qs. \<exists>exec. compileSafeRegex regexp (cr_pattern r) = Some exec \<and> exec text = None)"
    if "list_all (\<lambda>r. compileSafeRegex regexp (cr_pattern r) \<noteq> None) qs" for qs
    using that by (induction qs) (auto split: option.splits)
  moreover have ok: "list_all (\<lambda>r. compileSafeRegex regexp (cr_pattern r) \<noteq> None) rs" "length rs = length raws"
    using parse_rules_ok [OF p(3)] by simp_all
  moreover have "\<forall>r \<in> set rs. 0 < length (cr_pattern r) \<and> length (cr_pattern r) \<le> 256"
    using ok(1) compile_length unfolding list_all_iff by blast
  ultimately show ?thesis using p(1,2) unfolding p(4) by simp
qed

theorem accepted_rules_count_witness:
  "\<exists>policy. parseCommandPolicy literal_engine (JObj [(''mode'', JStr ''denylist''),
      (''rules'', JArr [JObj [(''pattern'', JStr ''rm''), (''decision'', JStr ''deny'')]])]) = Inr policy \<and>
    cp_constraints policy = []"
proof -
  let ?j = "JObj [(''mode'', JStr ''denylist''),
      (''rules'', JArr [JObj [(''pattern'', JStr ''rm''), (''decision'', JStr ''deny'')]])]"
  obtain policy where p: "parseCommandPolicy literal_engine ?j = Inr policy"
  proof -
    have "case parseCommandPolicy literal_engine ?j of Inl _ \<Rightarrow> False | Inr _ \<Rightarrow> True" by code_simp
    then show ?thesis using that by (auto split: sum.splits)
  qed
  with accepted_rules_count [OF p] show ?thesis by blast
qed

end
