(* ===== verification/Spec2Isabelle.thy ===== *)
theory Spec2Isabelle
  imports Prelude RunStore RunStoreInv RunStoreProps DurableMap LoopLedger LoopLedgerProps
    Identity Acl LoopOutputs LoopOutputsProps LoopGovernance LoopGovernanceProps
    Sessions SessionStore SessionListings SessionInv SessionProps SessionVisibility Delivery DeliveryProps Cron CronStore CronProps
    Tape TapeFold Compaction Replay Projection Transcripts SessionWrites ContextCompaction Revisions
    TapeProps TapeImages ProjectionProps TranscriptProps LeaseWait CompactionProps RevisionProps
    Regex Shell ShellWords ShellPayloads CommandPolicy CommandPolicyProps
begin

text \<open>
  The state-keeping core of an assistant platform.
\<close>

end
